(* ===== verification/Py_Prelude.thy ===== *)
theory Py_Prelude
  imports Main
begin

text \<open>
  Shared vocabulary of the development: the Python exceptions the modelled code raises, results
  as sums, the operations of Python's \<open>str\<close>, \<open>bytes\<close> and \<open>int\<close> the sources use, and the list
  lemmas the components share. A Python \<open>bytes\<close> value is a HOL \<open>string\<close>, whose characters are
  exactly the 256 byte values; a Python \<open>str\<close> is a HOL \<open>string\<close> where its code points are below
  256 (HTTP header and request text is Latin-1 text in this program).
\<close>

named_theorems py_str \<open>unfolding rules of the string operations\<close>
named_theorems res_simps \<open>evaluation of results\<close>

section \<open>Exceptions and results\<close>

datatype exc =
    ValueError
  | TypeError
  | KeyError
  | IndexError
  | AssertionError
  | AttributeError
  | UnboundLocalError
  | UnicodeError
  | OSError
  | ZeroDivisionError
  | StashError
  | StreamClosedError
  | ProtocolError
  | HTTPException int string
  | GenericException string

type_synonym 'a res = "exc + 'a"

text \<open>Sequencing: the first exception ends the computation.\<close>

definition rbind :: "'a res \<Rightarrow> ('a \<Rightarrow> 'b res) \<Rightarrow> 'b res" where
  "rbind r f = (case r of Inl e \<Rightarrow> Inl e | Inr x \<Rightarrow> f x)"

definition of_option :: "exc \<Rightarrow> 'a option \<Rightarrow> 'a res" where
  "of_option e r = (case r of None \<Rightarrow> Inl e | Some x \<Rightarrow> Inr x)"

lemma rbind_simps [simp, res_simps]:
  "rbind (Inl e) f = Inl e"
  "rbind (Inr x) f = f x"
  by (simp_all add: rbind_def)

lemma rbind_eq_Inr: "rbind r f = Inr y \<longleftrightarrow> (\<exists>x. r = Inr x \<and> f x = Inr y)"
  by (cases r) auto

lemma rbind_eq_Inl: "rbind r f = Inl e \<longleftrightarrow> r = Inl e \<or> (\<exists>x. r = Inr x \<and> f x = Inl e)"
  by (cases r) auto

lemma of_option_simps [simp, res_simps]:
  "of_option e None = Inl e"
  "of_option e (Some x) = Inr x"
  by (simp_all add: of_option_def)

lemma of_option_eq [simp]:
  "of_option e r = Inr x \<longleftrightarrow> r = Some x"
  "of_option e r = Inl e' \<longleftrightarrow> r = None \<and> e' = e"
  by (cases r; auto)+

text \<open>A loop that appends the result of a fallible body for each item, stopping at the first error.\<close>

fun rmap :: "('a \<Rightarrow> 'b res) \<Rightarrow> 'a list \<Rightarrow> 'b list res" where
  "rmap f [] = Inr []"
| "rmap f (x # xs) = rbind (f x) (\<lambda>y. rbind (rmap f xs) (\<lambda>ys. Inr (y # ys)))"

lemma rmap_Inr_iff: "rmap f xs = Inr ys \<longleftrightarrow> list_all2 (\<lambda>x y. f x = Inr y) xs ys"
  by (induction xs arbitrary: ys) (auto simp: rbind_eq_Inr list_all2_Cons1)

lemma rmap_length: "rmap f xs = Inr ys \<Longrightarrow> length ys = length xs"
  by (induction xs arbitrary: ys) (auto simp: rbind_eq_Inr)

lemma rmap_in: "rmap f xs = Inr ys \<Longrightarrow> y \<in> set ys \<Longrightarrow> \<exists>x \<in> set xs. f x = Inr y"
  by (induction xs arbitrary: ys) (auto simp: rbind_eq_Inr)

lemma rmap_Inl: "rmap f xs = Inl e \<Longrightarrow> \<exists>x \<in> set xs. f x = Inl e"
  by (induction xs) (auto simp: rbind_eq_Inl)

lemma rmap_all_Inr: "\<forall>x \<in> set xs. f x = Inr (g x) \<Longrightarrow> rmap f xs = Inr (map g xs)"
  by (induction xs) auto

section \<open>Strings and bytes\<close>

definition is_upper :: "char \<Rightarrow> bool" where
  "is_upper c \<longleftrightarrow> 65 \<le> (of_char c :: nat) \<and> (of_char c :: nat) \<le> 90"

definition is_lower :: "char \<Rightarrow> bool" where
  "is_lower c \<longleftrightarrow> 97 \<le> (of_char c :: nat) \<and> (of_char c :: nat) \<le> 122"

definition is_digit :: "char \<Rightarrow> bool" where
  "is_digit c \<longleftrightarrow> 48 \<le> (of_char c :: nat) \<and> (of_char c :: nat) \<le> 57"

definition lower_char :: "char \<Rightarrow> char" where
  "lower_char c = (if is_upper c then char_of ((of_char c :: nat) + 32) else c)"

definition upper_char :: "char \<Rightarrow> char" where
  "upper_char c = (if is_lower c then char_of ((of_char c :: nat) - 32) else c)"

text \<open>\<open>bytes.lower\<close> and \<open>bytes.upper\<close>: ASCII letters only, as Python documents for bytes.\<close>

definition py_lower :: "string \<Rightarrow> string" where
  "py_lower s = map lower_char s"

definition py_upper :: "string \<Rightarrow> string" where
  "py_upper s = map upper_char s"

lemma of_char_lower_char:
  "(of_char (lower_char c) :: nat) = (if is_upper c then of_char c + 32 else of_char c)"
  by (simp add: lower_char_def is_upper_def)

lemma not_upper_lower_char: "\<not> is_upper (lower_char c)"
  by (simp add: is_upper_def lower_char_def)

lemma lower_char_idem [simp]: "lower_char (lower_char c) = lower_char c"
  using not_upper_lower_char [of c] by (simp add: lower_char_def [of "lower_char c"])

lemma py_lower_idem [simp]: "py_lower (py_lower s) = py_lower s"
  by (simp add: py_lower_def)

lemma py_lower_append [simp]: "py_lower (s @ t) = py_lower s @ py_lower t"
  by (simp add: py_lower_def)

lemma length_py_lower [simp]: "length (py_lower s) = length s"
  by (simp add: py_lower_def)

lemma length_py_upper [simp]: "length (py_upper s) = length s"
  by (simp add: py_upper_def)

definition is_ascii :: "string \<Rightarrow> bool" where
  "is_ascii s \<longleftrightarrow> list_all (\<lambda>c. (of_char c :: nat) < 128) s"

definition starts_with :: "'a list \<Rightarrow> 'a list \<Rightarrow> bool" where
  "starts_with p s \<longleftrightarrow> take (length p) s = p"

definition ends_with :: "'a list \<Rightarrow> 'a list \<Rightarrow> bool" where
  "ends_with p s \<longleftrightarrow> length p \<le> length s \<and> drop (length s - length p) s = p"

lemma starts_with_iff: "starts_with p s \<longleftrightarrow> (\<exists>t. s = p @ t)"
  by (auto simp: starts_with_def) (metis append_take_drop_id)

lemma ends_with_iff: "ends_with p s \<longleftrightarrow> (\<exists>t. s = t @ p)"
  by (auto simp: ends_with_def) (metis append_take_drop_id)

lemma starts_with_append [simp]: "starts_with p (p @ t)"
  by (simp add: starts_with_def)

lemma starts_with_Nil [simp]: "starts_with [] s"
  by (simp add: starts_with_def)

text \<open>\<open>sub in s\<close> for strings.\<close>

fun contains_sub :: "'a list \<Rightarrow> 'a list \<Rightarrow> bool" where
  "contains_sub p [] = (p = [])"
| "contains_sub p (x # xs) = (starts_with p (x # xs) \<or> contains_sub p xs)"

lemma contains_sub_iff: "contains_sub p s \<longleftrightarrow> (\<exists>a b. s = a @ p @ b)"
proof (induction s)
  case (Cons x xs)
  have "(\<exists>a b. x # xs = a @ p @ b) \<longleftrightarrow> (\<exists>b. x # xs = p @ b) \<or> (\<exists>a b. xs = a @ p @ b)"
    by (metis append_Cons append_Nil list.exhaust list.inject)
  then show ?case using Cons by (simp add: starts_with_iff)
qed auto

text \<open>\<open>s.split(c)\<close> for a one-character separator, and \<open>s.split(c, 1)\<close>.\<close>

fun split_on :: "'a \<Rightarrow> 'a list \<Rightarrow> 'a list list" where
  "split_on c [] = [[]]"
| "split_on c (x # xs) =
     (if x = c then [] # split_on c xs
      else (case split_on c xs of [] \<Rightarrow> [[x]] | y # ys \<Rightarrow> (x # y) # ys))"

definition split_once :: "'a \<Rightarrow> 'a list \<Rightarrow> 'a list list" where
  "split_once c s =
     (let a = takeWhile (\<lambda>x. x \<noteq> c) s; r = dropWhile (\<lambda>x. x \<noteq> c) s
      in (case r of [] \<Rightarrow> [a] | _ # b \<Rightarrow> [a, b]))"

fun join_with :: "'a list \<Rightarrow> 'a list list \<Rightarrow> 'a list" where
  "join_with sep [] = []"
| "join_with sep [x] = x"
| "join_with sep (x # y # zs) = x @ sep @ join_with sep (y # zs)"

lemma split_on_not_Nil [simp]: "split_on c s \<noteq> []"
  by (induction s) (auto split: list.splits)

lemma split_on_no_sep: "p \<in> set (split_on c s) \<Longrightarrow> c \<notin> set p"
  by (induction s arbitrary: p) (auto split: if_splits list.splits)

lemma join_with_append:
  "xs \<noteq> [] \<Longrightarrow> ys \<noteq> [] \<Longrightarrow> join_with s (xs @ ys) = join_with s xs @ s @ join_with s ys"
proof (induction xs)
  case (Cons x xs)
  then show ?case by (cases xs; cases ys) auto
qed simp

lemma join_split_on: "join_with [c] (split_on c s) = s"
proof (induction s)
  case (Cons x xs)
  then show ?case by (cases "split_on c xs") (auto, (metis join_with.simps(2,3) append_Cons neq_Nil_conv)+)
qed simp

lemma split_on_absent: "c \<notin> set s \<Longrightarrow> split_on c s = [s]"
  by (induction s) auto

lemma split_on_append_sep: "c \<notin> set a \<Longrightarrow> split_on c (a @ c # b) = a # split_on c b"
  by (induction a) auto

lemma split_on_append: "split_on c (s @ c # t) = split_on c s @ split_on c t"
  by (induction s) (auto split: list.split)

lemma join_with_part: "p \<in> set ps \<Longrightarrow> \<exists>a b. join_with s ps = a @ p @ b"
proof (induction ps)
  case (Cons x ps)
  show ?case
  proof (cases "p = x")
    case True
    then show ?thesis by (cases ps) (auto intro: exI [of _ "[]"])
  next
    case False
    then obtain a b y ys where "join_with s ps = a @ p @ b" "ps = y # ys" using Cons by (cases ps) auto
    then have "join_with s (x # ps) = (x @ s @ a) @ p @ b" by simp
    then show ?thesis by blast
  qed
qed simp

lemma split_on_part: "p \<in> set (split_on c s) \<Longrightarrow> \<exists>a b. s = a @ p @ b"
  using join_with_part [of p "split_on c s" "[c]"] by (simp add: join_split_on)

lemma split_on_join: "ps \<noteq> [] \<Longrightarrow> \<forall>p \<in> set ps. c \<notin> set p \<Longrightarrow> split_on c (join_with [c] ps) = ps"
  by (induction "[c]" ps rule: join_with.induct) (auto simp: split_on_absent split_on_append_sep)

text \<open>
  \<open>s.replace(old, new)\<close> for a non-empty \<open>old\<close>: leftmost, non-overlapping occurrences. Every call in
  the sources has a non-empty literal for \<open>old\<close>.
\<close>

fun replace_sub :: "'a list \<Rightarrow> 'a list \<Rightarrow> 'a list \<Rightarrow> 'a list" where
  "replace_sub old new [] = []"
| "replace_sub old new (x # xs) =
     (if old \<noteq> [] \<and> starts_with old (x # xs)
      then new @ replace_sub old new (drop (length old - 1) xs)
      else x # replace_sub old new xs)"

lemma replace_sub_absent: "\<not> contains_sub old s \<Longrightarrow> replace_sub old new s = s"
  by (induction s) auto

lemma replace_sub_single: "replace_sub [c] new s = concat (map (\<lambda>x. if x = c then new else [x]) s)"
  by (induction s) (auto simp: starts_with_def)

text \<open>
  Replacing by texts that miss the first and the last character of the pattern, and have a character the
  pattern misses, leaves no occurrence of the pattern, not even across the borders.
\<close>

lemma starts_with_replaced:
  assumes "last old \<notin> set new" and "c \<in> set new" and "c \<notin> set old"
  shows "set p \<subseteq> set old \<Longrightarrow> p \<noteq> [] \<Longrightarrow> last p = last old \<Longrightarrow> starts_with p (replace_sub old new s)
     \<Longrightarrow> starts_with p s"
proof (induction s arbitrary: p)
  case (Cons x xs)
  show ?case
  proof (cases "old \<noteq> [] \<and> starts_with old (x # xs)")
    case True
    then obtain t where "new @ replace_sub old new (drop (length old - 1) xs) = p @ t"
      using Cons.prems(4) by (auto simp: starts_with_iff)
    then obtain z where "new = p @ z \<or> p = new @ z" by (auto simp: append_eq_append_conv2)
    then show ?thesis
    proof
      assume "new = p @ z"
      then have "last p \<in> set new" using Cons.prems(2) by simp
      then show ?thesis using assms(1) Cons.prems(3) by simp
    next
      assume "p = new @ z"
      then show ?thesis using assms(2,3) Cons.prems(1) by auto
    qed
  next
    case False
    obtain y ys where p: "p = y # ys" using Cons.prems(2) by (cases p) auto
    have "replace_sub old new (x # xs) = x # replace_sub old new xs" using False by auto
    then have y: "y = x" and ys: "starts_with ys (replace_sub old new xs)"
      using Cons.prems(4) by (auto simp: p starts_with_iff)
    have "starts_with ys xs"
    proof (cases "ys = []")
      case False
      then show ?thesis using Cons.IH [of ys] Cons.prems(1,3) ys p by auto
    qed simp
    then show ?thesis by (auto simp: p y starts_with_iff)
  qed
qed simp

lemma replace_sub_removes:
  assumes "old \<noteq> []" and "hd old \<notin> set new" and "last old \<notin> set new" and "c \<in> set new" and "c \<notin> set old"
  shows "\<not> contains_sub old (replace_sub old new s)"
proof (induction s rule: length_induct)
  case (1 s)
  show ?case
  proof (cases s)
    case (Cons x xs)
    show ?thesis
    proof (cases "starts_with old (x # xs)")
      case True
      let ?t = "replace_sub old new (drop (length old - 1) xs)"
      have IH: "\<not> contains_sub old ?t" using 1 Cons by simp
      have "\<not> contains_sub old (new @ ?t)"
      proof
        assume "contains_sub old (new @ ?t)"
        then obtain a b where "new @ ?t = a @ old @ b" by (auto simp: contains_sub_iff)
        then obtain z where "(new = a @ z \<and> z @ ?t = old @ b) \<or> (new @ z = a \<and> ?t = z @ old @ b)"
          by (auto simp: append_eq_append_conv2)
        then show False
        proof
          assume z: "new = a @ z \<and> z @ ?t = old @ b"
          have "z = []"
          proof (rule ccontr)
            assume "z \<noteq> []"
            then have "hd z = hd old" using z assms(1) by (metis hd_append2)
            moreover have "hd z \<in> set new" using z \<open>z \<noteq> []\<close> by simp
            ultimately show False using assms(2) by simp
          qed
          then show False using z IH by (auto simp: contains_sub_iff) (metis append_Nil)
        next
          assume "new @ z = a \<and> ?t = z @ old @ b"
          then show False using IH by (auto simp: contains_sub_iff)
        qed
      qed
      then show ?thesis using True assms(1) Cons by simp
    next
      case False
      then have eq: "replace_sub old new s = x # replace_sub old new xs" by (simp add: Cons)
      have "\<not> starts_with old (replace_sub old new s)"
        using starts_with_replaced [OF assms(3-5), of old s] False assms(1) by (auto simp: Cons)
      moreover have "\<not> contains_sub old (replace_sub old new xs)" using 1 Cons by simp
      ultimately show ?thesis by (simp add: eq)
    qed
  qed (use assms(1) in simp)
qed

definition is_space :: "char \<Rightarrow> bool" where
  "is_space c \<longleftrightarrow> c = CHR '' '' \<or> (9 \<le> (of_char c :: nat) \<and> (of_char c :: nat) \<le> 13)"

definition strip_by :: "('a \<Rightarrow> bool) \<Rightarrow> 'a list \<Rightarrow> 'a list" where
  "strip_by p s = rev (dropWhile p (rev (dropWhile p s)))"

section \<open>Integers as text\<close>

definition digit_val :: "char \<Rightarrow> int" where
  "digit_val c = of_char c - 48"

text \<open>
  The digits of \<open>int(s)\<close>: at least one digit, single underscores allowed between digits. The flag
  says that the previous character was a digit.
\<close>

fun int_digits :: "bool \<Rightarrow> int \<Rightarrow> string \<Rightarrow> int option" where
  "int_digits d acc [] = (if d then Some acc else None)"
| "int_digits d acc (c # cs) =
     (if is_digit c then int_digits True (acc * 10 + digit_val c) cs
      else if c = CHR ''_'' \<and> d then int_digits False acc cs
      else None)"

text \<open>
  White space around the number as \<open>int\<close> strips it from a \<open>str\<close>: the ASCII white space and the
  separators 28 to 31, and the Latin-1 spaces 133 and 160.
\<close>

definition is_str_space :: "char \<Rightarrow> bool" where
  "is_str_space c \<longleftrightarrow> is_space c \<or> (28 \<le> (of_char c :: nat) \<and> (of_char c :: nat) \<le> 31)
     \<or> (of_char c :: nat) = 133 \<or> (of_char c :: nat) = 160"

definition py_int :: "string \<Rightarrow> int option" where
  "py_int s =
     (case strip_by is_str_space s of
        [] \<Rightarrow> None
      | c # cs \<Rightarrow>
          if c = CHR ''-'' then map_option uminus (int_digits False 0 cs)
          else if c = CHR ''+'' then int_digits False 0 cs
          else int_digits False 0 (c # cs))"

lemma int_digits_nonneg: "int_digits d acc s = Some n \<Longrightarrow> 0 \<le> acc \<Longrightarrow> 0 \<le> n"
proof (induction d acc s rule: int_digits.induct)
  case (2 d acc c cs)
  show ?case
  proof (cases "is_digit c")
    case True
    then have "0 \<le> digit_val c"
      by (auto simp: is_digit_def digit_val_def) (metis of_nat_mono of_nat_numeral of_nat_of_char)
    with True 2 show ?thesis by simp
  next
    case False
    with 2 show ?thesis by (simp split: if_splits)
  qed
qed (auto split: if_splits)

lemma set_strip_by: "set (strip_by p s) \<subseteq> set s"
proof
  fix x assume "x \<in> set (strip_by p s)"
  then have "x \<in> set (dropWhile p (rev (dropWhile p s)))" by (simp add: strip_by_def)
  then have "x \<in> set (rev (dropWhile p s))" by (rule set_dropWhileD)
  then show "x \<in> set s" by (auto dest: set_dropWhileD)
qed

lemma py_int_nonneg: "py_int s = Some n \<Longrightarrow> CHR ''-'' \<notin> set s \<Longrightarrow> 0 \<le> n"
  using set_strip_by [of is_str_space s]
  by (auto simp: py_int_def simp del: int_digits.simps intro: int_digits_nonneg [of False 0]
      split: list.splits if_splits)

text \<open>Decimal rendering, \<open>"%i" % n\<close>.\<close>

definition digit_char :: "nat \<Rightarrow> char" where
  "digit_char d = char_of (48 + d)"

fun nat_str :: "nat \<Rightarrow> string" where
  "nat_str n = (if n < 10 then [digit_char n] else nat_str (n div 10) @ [digit_char (n mod 10)])"

declare nat_str.simps [simp del]

definition int_str :: "int \<Rightarrow> string" where
  "int_str i = (if i < 0 then CHR ''-'' # nat_str (nat (- i)) else nat_str (nat i))"

lemma of_char_digit_char: "d < 10 \<Longrightarrow> (of_char (digit_char d) :: nat) = 48 + d"
  by (simp add: digit_char_def)

lemma digit_char_simps [simp]:
  "digit_char 0 = CHR ''0''" "digit_char (Suc 0) = CHR ''1''" "digit_char 1 = CHR ''1''" "digit_char 2 = CHR ''2''"
  "digit_char 3 = CHR ''3''" "digit_char 4 = CHR ''4''" "digit_char 5 = CHR ''5''" "digit_char 6 = CHR ''6''"
  "digit_char 7 = CHR ''7''" "digit_char 8 = CHR ''8''" "digit_char 9 = CHR ''9''"
  by (simp_all add: digit_char_def char_of_eq_iff take_bit_eq_mod)

lemma is_digit_digit_char [simp]: "d < 10 \<Longrightarrow> is_digit (digit_char d)"
  by (simp add: is_digit_def of_char_digit_char)

lemma digit_val_digit_char [simp]: "d < 10 \<Longrightarrow> digit_val (digit_char d) = int d"
proof -
  assume "d < 10"
  then have "(of_char (digit_char d) :: int) = int (48 + d)"
    by (metis of_char_digit_char of_nat_of_char)
  then show ?thesis by (simp add: digit_val_def)
qed

lemma nat_str_digits: "c \<in> set (nat_str n) \<Longrightarrow> is_digit c"
proof (induction n rule: nat_str.induct)
  case (1 n)
  then show ?case by (subst (asm) (2) nat_str.simps) (auto split: if_splits)
qed

lemma nat_str_not_Nil [simp]: "nat_str n \<noteq> []"
  by (subst nat_str.simps) simp

lemma int_digits_append:
  "int_digits d acc (s @ [c]) =
     (if is_digit c then (case int_digits d acc s of Some n \<Rightarrow> Some (n * 10 + digit_val c) | None \<Rightarrow> None) else None)"
  if "d \<or> s \<noteq> []" "\<forall>x \<in> set s. is_digit x"
  using that by (induction d acc s rule: int_digits.induct) (auto split: option.splits)

lemma int_digits_nat_str: "int_digits False 0 (nat_str n) = Some (int n)"
proof (induction n rule: nat_str.induct)
  case (1 n)
  show ?case
  proof (cases "n < 10")
    case True
    then show ?thesis by (subst nat_str.simps) simp
  next
    case False
    with 1 have IH: "int_digits False 0 (nat_str (n div 10)) = Some (int (n div 10))" by simp
    have "nat_str n = nat_str (n div 10) @ [digit_char (n mod 10)]"
      using False by (subst nat_str.simps) simp
    moreover have "int (n div 10) * 10 + int (n mod 10) = int n"
      by (simp add: zdiv_int zmod_int)
    ultimately show ?thesis
      using IH nat_str_digits by (auto simp: int_digits_append)
  qed
qed

lemma dropWhile_not_hd: "s \<noteq> [] \<Longrightarrow> \<not> p (hd s) \<Longrightarrow> dropWhile p s = s"
  by (cases s) auto

lemma strip_by_none: "\<forall>x \<in> set s. \<not> p x \<Longrightarrow> strip_by p s = s"
proof (cases "s = []")
  case False
  assume "\<forall>x \<in> set s. \<not> p x"
  then have "dropWhile p s = s" and "dropWhile p (rev s) = rev s"
    using False by (auto intro!: dropWhile_not_hd simp: hd_rev)
  then show ?thesis by (simp add: strip_by_def)
qed (simp add: strip_by_def)

lemma is_digit_not_special: "is_digit c \<Longrightarrow> \<not> is_str_space c \<and> c \<noteq> CHR ''-'' \<and> c \<noteq> CHR ''+'' \<and> c \<noteq> CHR '',''"
  by (auto simp: is_digit_def is_str_space_def is_space_def)

lemma py_int_nat_str [simp]: "py_int (nat_str n) = Some (int n)"
proof -
  have d: "\<forall>c \<in> set (nat_str n). is_digit c" using nat_str_digits by blast
  then have "strip_by is_str_space (nat_str n) = nat_str n"
    using is_digit_not_special by (intro strip_by_none) blast
  moreover obtain c cs where "nat_str n = c # cs" using nat_str_not_Nil by (metis list.exhaust)
  moreover have "c \<noteq> CHR ''-''" "c \<noteq> CHR ''+''"
    using d calculation(2) is_digit_not_special by fastforce+
  ultimately show ?thesis using int_digits_nat_str [of n] by (simp add: py_int_def)
qed

lemma py_int_int_str [simp]: "py_int (int_str i) = Some i"
proof (cases "i < 0")
  case True
  let ?n = "nat (- i)"
  have "\<forall>c \<in> set (CHR ''-'' # nat_str ?n). \<not> is_str_space c"
    using nat_str_digits is_digit_not_special by (auto simp: is_str_space_def is_space_def)
  then have "strip_by is_str_space (CHR ''-'' # nat_str ?n) = CHR ''-'' # nat_str ?n"
    by (rule strip_by_none)
  then show ?thesis using True int_digits_nat_str [of ?n] by (simp add: py_int_def int_str_def)
qed (simp add: int_str_def)

section \<open>Lists\<close>

text \<open>\<open>s[a:b]\<close> for \<open>0 <= a\<close> and \<open>0 <= b\<close>.\<close>

definition slice_of :: "nat \<Rightarrow> nat \<Rightarrow> 'a list \<Rightarrow> 'a list" where
  "slice_of a b s = drop a (take b s)"

lemma length_slice_of [simp]: "length (slice_of a b s) = min b (length s) - a"
  by (simp add: slice_of_def min.commute)

lemma slice_of_append: "a \<le> b \<Longrightarrow> b \<le> c \<Longrightarrow> slice_of a b s @ slice_of b c s = slice_of a c s"
proof -
  assume "a \<le> b" "b \<le> c"
  then have "take b s = take b (take c s)" by (simp add: min_absorb1)
  moreover have "drop a (take c s) = drop a (take b (take c s)) @ drop b (take c s)"
    using \<open>a \<le> b\<close> by (metis append_take_drop_id drop_drop drop_take le_add_diff_inverse2 take_drop)
  ultimately show ?thesis by (simp add: slice_of_def)
qed

end
