(* ===== verification/Py_Dict.thy ===== *)
theory Py_Dict
  imports Py_Prelude
begin

text \<open>
  Python dictionaries. The interface every component relies on is the locale \<open>dict_store\<close>: what a
  lookup returns after a store or a deletion, and that both keep the invariant. Its provider is the
  insertion-ordered dictionary of CPython, an association list whose keys are distinct; the locale
  \<open>keyed_store\<close> adds the normalisation of keys that the header classes do before every access.
\<close>

section \<open>The interface\<close>

locale dict_store =
  fixes get :: "'d \<Rightarrow> 'k \<Rightarrow> 'v option"
    and put :: "'k \<Rightarrow> 'v \<Rightarrow> 'd \<Rightarrow> 'd"
    and del :: "'k \<Rightarrow> 'd \<Rightarrow> 'd"
    and inv :: "'d \<Rightarrow> bool"
  assumes get_put: "inv d \<Longrightarrow> get (put k v d) j = (if j = k then Some v else get d j)"
    and get_del: "inv d \<Longrightarrow> get (del k d) j = (if j = k then None else get d j)"
    and inv_put: "inv d \<Longrightarrow> inv (put k v d)"
    and inv_del: "inv d \<Longrightarrow> inv (del k d)"
begin

lemma get_put_same: "inv d \<Longrightarrow> get (put k v d) k = Some v"
  by (simp add: get_put)

lemma get_put_other: "inv d \<Longrightarrow> j \<noteq> k \<Longrightarrow> get (put k v d) j = get d j"
  by (simp add: get_put)

lemma put_put: "inv d \<Longrightarrow> get (put k w (put k v d)) = get (put k w d)"
  by (rule ext) (simp add: get_put inv_put)

lemma put_commute: "inv d \<Longrightarrow> j \<noteq> k \<Longrightarrow> get (put j w (put k v d)) = get (put k v (put j w d))"
  by (rule ext) (simp add: get_put inv_put)

text \<open>Storing a list of items in order: the last value of each key wins.\<close>

lemma inv_put_all: "inv d \<Longrightarrow> inv (fold (\<lambda>(k, v). put k v) kvs d)"
  by (induction kvs arbitrary: d) (auto simp: inv_put)

lemma get_put_all:
  "inv d \<Longrightarrow> get (fold (\<lambda>(k, v). put k v) kvs d) j =
     (case map_of (rev kvs) j of None \<Rightarrow> get d j | Some v \<Rightarrow> Some v)"
proof (induction kvs arbitrary: d)
  case (Cons kv kvs)
  obtain k v where kv: "kv = (k, v)" by (cases kv)
  have "get (fold (\<lambda>(k, v). put k v) kvs (put k v d)) j =
      (case map_of (rev kvs) j of None \<Rightarrow> get (put k v d) j | Some v \<Rightarrow> Some v)"
    using Cons by (simp add: inv_put)
  then show ?case
    using Cons.prems by (auto simp: kv get_put map_add_def split: option.splits)
qed simp

text \<open>Storing in reverse order, as the routing tables do: the first value of each key wins.\<close>

lemma get_put_all_rev:
  "inv d \<Longrightarrow> get (fold (\<lambda>(k, v). put k v) (rev kvs) d) j =
     (case map_of kvs j of None \<Rightarrow> get d j | Some v \<Rightarrow> Some v)"
  by (simp add: get_put_all)

end

text \<open>A store whose keys are normalised before every access.\<close>

locale keyed_store = dict_store get put del inv
  for get :: "'d \<Rightarrow> 'k \<Rightarrow> 'v option"
    and put :: "'k \<Rightarrow> 'v \<Rightarrow> 'd \<Rightarrow> 'd"
    and del :: "'k \<Rightarrow> 'd \<Rightarrow> 'd"
    and inv :: "'d \<Rightarrow> bool" +
  fixes norm :: "'n \<Rightarrow> 'k"
begin

lemma norm_get_put:
  "inv d \<Longrightarrow> get (put (norm a) v d) (norm b) = (if norm b = norm a then Some v else get d (norm b))"
  by (simp add: get_put)

lemma norm_get_del:
  "inv d \<Longrightarrow> get (del (norm a) d) (norm b) = (if norm b = norm a then None else get d (norm b))"
  by (simp add: get_del)

lemma norm_put_put: "inv d \<Longrightarrow> norm a = norm b \<Longrightarrow>
    get (put (norm b) w (put (norm a) v d)) = get (put (norm b) w d)"
  by (simp add: put_put)

end

section \<open>Insertion-ordered dictionaries\<close>

type_synonym ('k, 'v) odict = "('k \<times> 'v) list"

fun od_set :: "'k \<Rightarrow> 'v \<Rightarrow> ('k, 'v) odict \<Rightarrow> ('k, 'v) odict" where
  "od_set k v [] = [(k, v)]"
| "od_set k v ((j, w) # d) = (if j = k then (j, v) # d else (j, w) # od_set k v d)"

definition od_get :: "('k, 'v) odict \<Rightarrow> 'k \<Rightarrow> 'v option" where
  "od_get d k = map_of d k"

definition od_del :: "'k \<Rightarrow> ('k, 'v) odict \<Rightarrow> ('k, 'v) odict" where
  "od_del k d = filter (\<lambda>p. fst p \<noteq> k) d"

definition od_keys :: "('k, 'v) odict \<Rightarrow> 'k list" where
  "od_keys d = map fst d"

definition od_inv :: "('k, 'v) odict \<Rightarrow> bool" where
  "od_inv d \<longleftrightarrow> distinct (od_keys d)"

lemma od_get_Nil [simp]: "od_get [] k = None"
  by (simp add: od_get_def)

lemma od_get_Cons [simp]: "od_get ((j, w) # d) k = (if j = k then Some w else od_get d k)"
  by (auto simp: od_get_def)

lemma od_get_set: "od_get (od_set k v d) j = (if j = k then Some v else od_get d j)"
  by (induction d) auto

lemma od_get_del: "od_get (od_del k d) j = (if j = k then None else od_get d j)"
  by (induction d) (auto simp: od_del_def)

lemma od_keys_set: "od_keys (od_set k v d) = (if k \<in> set (od_keys d) then od_keys d else od_keys d @ [k])"
  unfolding od_keys_def by (induction d) force+

lemma od_keys_del: "od_keys (od_del k d) = filter (\<lambda>j. j \<noteq> k) (od_keys d)"
  by (induction d) (auto simp: od_keys_def od_del_def)

lemma od_inv_Nil [simp]: "od_inv []"
  by (simp add: od_inv_def od_keys_def)

lemma od_get_None_iff: "od_get d k = None \<longleftrightarrow> k \<notin> set (od_keys d)"
  by (simp add: od_get_def od_keys_def map_of_eq_None_iff)

lemma od_set_new: "k \<notin> set (od_keys d) \<Longrightarrow> od_set k v d = d @ [(k, v)]"
  by (induction d) (auto simp: od_keys_def)

interpretation od: dict_store od_get od_set od_del od_inv
  by unfold_locales (auto simp: od_get_set od_get_del od_inv_def od_keys_set od_keys_del)

text \<open>
  The concrete dictionary satisfies the lookup laws without its invariant, so clients use them
  unconditionally.
\<close>

lemma od_get_put_all:
  "od_get (fold (\<lambda>(k, v). od_set k v) kvs []) j = map_of (rev kvs) j"
  by (simp add: od.get_put_all split: option.splits)

end
