(* ===== verification/Http_Headers.thy ===== *)
theory Http_Headers
  imports Py_Dict
begin

text \<open>
  The header containers of wptserve. \<open>ResponseHeaders\<close> (response.py) keeps, per lower-cased name, the
  name as first written and the list of values; \<open>RequestHeaders\<close> (request.py) is the read-only view of
  the request headers by lower-cased name; \<open>MultiDict\<close> (request.py) holds several values per key and
  carries the query parameters and cookies. All three rest on the dictionary interface.
\<close>

section \<open>Values a handler may pass\<close>

datatype pyval = PStr string | PBytes string | PInt int

definition maybe_encode :: "pyval \<Rightarrow> string" where
  "maybe_encode v = (case v of PInt i \<Rightarrow> int_str i | PStr s \<Rightarrow> s | PBytes s \<Rightarrow> s)"

lemma maybe_encode_simps [simp]:
  "maybe_encode (PStr s) = s" "maybe_encode (PBytes s) = s" "maybe_encode (PInt i) = int_str i"
  by (simp_all add: maybe_encode_def)

section \<open>ResponseHeaders\<close>

type_synonym resp_headers = "(string, string \<times> string list) odict"

definition rh_set :: "pyval \<Rightarrow> pyval \<Rightarrow> resp_headers \<Rightarrow> resp_headers" where
  "rh_set key val h =
     (let k = maybe_encode key; v = maybe_encode val in od_set (py_lower k) (k, [v]) h)"

definition rh_append :: "pyval \<Rightarrow> pyval \<Rightarrow> resp_headers \<Rightarrow> resp_headers" where
  "rh_append key val h =
     (let k = maybe_encode key; v = maybe_encode val
      in (case od_get h (py_lower k) of
            Some (k0, vs) \<Rightarrow> od_set (py_lower k) (k0, vs @ [v]) h
          | None \<Rightarrow> rh_set (PBytes k) (PBytes v) h))"

definition rh_getitem :: "resp_headers \<Rightarrow> pyval \<Rightarrow> string list res" where
  "rh_getitem h key = of_option KeyError (map_option snd (od_get h (py_lower (maybe_encode key))))"

definition rh_get :: "resp_headers \<Rightarrow> pyval \<Rightarrow> string list option \<Rightarrow> string list" where
  "rh_get h key dflt =
     (case rh_getitem h key of
        Inr vs \<Rightarrow> vs
      | Inl _ \<Rightarrow> (case dflt of None \<Rightarrow> [] | Some d \<Rightarrow> d))"

definition rh_delitem :: "pyval \<Rightarrow> resp_headers \<Rightarrow> resp_headers res" where
  "rh_delitem key h =
     (let k = py_lower (maybe_encode key)
      in (case od_get h k of None \<Rightarrow> Inl KeyError | Some _ \<Rightarrow> Inr (od_del k h)))"

definition rh_contains :: "resp_headers \<Rightarrow> pyval \<Rightarrow> bool" where
  "rh_contains h key \<longleftrightarrow> od_get h (py_lower (maybe_encode key)) \<noteq> None"

definition rh_items :: "resp_headers \<Rightarrow> (string \<times> string) list" where
  "rh_items h = concat (map (\<lambda>(_, k, vs). map (\<lambda>v. (k, v)) vs) h)"

definition rh_update :: "(pyval \<times> pyval) list \<Rightarrow> resp_headers \<Rightarrow> resp_headers" where
  "rh_update items h = fold (\<lambda>(k, v). rh_append k v) items h"

section \<open>RequestHeaders\<close>

text \<open>
  The raw headers are the parsed message of the standard library: name and value pairs in order,
  \<open>keys()\<close> with repetitions, \<open>get_all\<close> without regard to case.
\<close>

type_synonym raw_headers = "(string \<times> string) list"
type_synonym req_headers = "(string, string list) odict"

definition raw_get_all :: "raw_headers \<Rightarrow> string \<Rightarrow> string list" where
  "raw_get_all raw name = map snd (filter (\<lambda>(n, _). py_lower n = py_lower name) raw)"

definition raw_get :: "raw_headers \<Rightarrow> string \<Rightarrow> string option" where
  "raw_get raw name = (case raw_get_all raw name of [] \<Rightarrow> None | v # _ \<Rightarrow> Some v)"

definition mk_request_headers :: "raw_headers \<Rightarrow> req_headers" where
  "mk_request_headers raw =
     fold (\<lambda>header d.
        let key = py_lower header; vals = raw_get_all raw header;
            headers = (if length vals > 1 then vals
                       else (case raw_get raw header of None \<Rightarrow> [] | Some v \<Rightarrow> [v]))
        in od_set key headers d)
       (map fst raw) []"

definition rq_getitem :: "req_headers \<Rightarrow> string \<Rightarrow> string res" where
  "rq_getitem h key =
     (case od_get h (py_lower key) of
        None \<Rightarrow> Inl KeyError
      | Some vals \<Rightarrow> (case vals of [v] \<Rightarrow> Inr v | _ \<Rightarrow> Inr (join_with '', '' vals)))"

definition rq_get :: "req_headers \<Rightarrow> string \<Rightarrow> string option" where
  "rq_get h key = (case rq_getitem h key of Inr v \<Rightarrow> Some v | Inl _ \<Rightarrow> None)"

definition rq_get_list :: "req_headers \<Rightarrow> string \<Rightarrow> string list option \<Rightarrow> string list res" where
  "rq_get_list h key dflt =
     (case od_get h (py_lower key) of
        Some vals \<Rightarrow> Inr vals
      | None \<Rightarrow> (case dflt of Some d \<Rightarrow> Inr d | None \<Rightarrow> Inl KeyError))"

definition rq_contains :: "req_headers \<Rightarrow> string \<Rightarrow> bool" where
  "rq_contains h key \<longleftrightarrow> od_get h (py_lower key) \<noteq> None"

definition rq_iteritems :: "req_headers \<Rightarrow> (string \<times> string) list" where
  "rq_iteritems h = map (\<lambda>k. (k, case rq_getitem h k of Inr v \<Rightarrow> v | Inl _ \<Rightarrow> [])) (od_keys h)"

section \<open>MultiDict\<close>

type_synonym ('k, 'v) multidict = "('k, 'v list) odict"

definition md_setitem :: "'k \<Rightarrow> 'v \<Rightarrow> ('k, 'v) multidict \<Rightarrow> ('k, 'v) multidict" where
  "md_setitem name v d = od_set name [v] d"

definition md_add :: "'k \<Rightarrow> 'v \<Rightarrow> ('k, 'v) multidict \<Rightarrow> ('k, 'v) multidict" where
  "md_add name v d =
     (case od_get d name of Some vs \<Rightarrow> od_set name (vs @ [v]) d | None \<Rightarrow> od_set name [v] d)"

definition md_first :: "('k, 'v) multidict \<Rightarrow> 'k \<Rightarrow> 'v option \<Rightarrow> 'v res" where
  "md_first d key dflt =
     (case od_get d key of
        Some (v # _) \<Rightarrow> Inr v
      | _ \<Rightarrow> (case dflt of Some x \<Rightarrow> Inr x | None \<Rightarrow> Inl KeyError))"

definition md_last :: "('k, 'v) multidict \<Rightarrow> 'k \<Rightarrow> 'v option \<Rightarrow> 'v res" where
  "md_last d key dflt =
     (case od_get d key of
        Some (v # vs) \<Rightarrow> Inr (last (v # vs))
      | _ \<Rightarrow> (case dflt of Some x \<Rightarrow> Inr x | None \<Rightarrow> Inl KeyError))"

definition md_getitem :: "('k, 'v) multidict \<Rightarrow> 'k \<Rightarrow> 'v res" where
  "md_getitem d key = md_first d key None"

definition md_get :: "('k, 'v) multidict \<Rightarrow> 'k \<Rightarrow> 'v option \<Rightarrow> 'v option" where
  "md_get d key dflt = (case md_first d key None of Inr v \<Rightarrow> Some v | Inl _ \<Rightarrow> dflt)"

definition md_get_list :: "('k, 'v) multidict \<Rightarrow> 'k \<Rightarrow> 'v list" where
  "md_get_list d key = (case od_get d key of Some vs \<Rightarrow> vs | None \<Rightarrow> [])"

definition md_of_pairs :: "('k \<times> 'v) list \<Rightarrow> ('k, 'v) multidict" where
  "md_of_pairs kvs = fold (\<lambda>(k, v). md_add k v) kvs []"

section \<open>Multi-valued stores\<close>

text \<open>
  What the response headers and the multi-dictionaries have in common: appending adds one value at
  the end of the list of every key regarded as the same, and changes nothing else.
\<close>

locale multi_store =
  fixes vals :: "'s \<Rightarrow> 'k \<Rightarrow> 'v list"
    and app :: "'k \<Rightarrow> 'w \<Rightarrow> 's \<Rightarrow> 's"
    and same :: "'k \<Rightarrow> 'k \<Rightarrow> bool"
    and enc :: "'w \<Rightarrow> 'v"
  assumes vals_app: "vals (app k w s) j = vals s j @ (if same k j then [enc w] else [])"
begin

lemma vals_app_all:
  "vals (fold (\<lambda>(k, w). app k w) kvs s) j =
     vals s j @ map (enc \<circ> snd) (filter (\<lambda>(k, w). same k j) kvs)"
  by (induction kvs arbitrary: s) (auto simp: vals_app)

lemma length_vals_app_all:
  "length (vals (fold (\<lambda>(k, w). app k w) kvs s) j) = length (vals s j) + length (filter (\<lambda>(k, w). same k j) kvs)"
  by (simp add: vals_app_all)

lemma vals_app_prefix: "\<exists>ys. vals (fold (\<lambda>(k, w). app k w) kvs s) j = vals s j @ ys"
  by (simp add: vals_app_all)

end

definition same_name :: "pyval \<Rightarrow> pyval \<Rightarrow> bool" where
  "same_name a b \<longleftrightarrow> py_lower (maybe_encode a) = py_lower (maybe_encode b)"

abbreviation rh_values :: "resp_headers \<Rightarrow> pyval \<Rightarrow> string list" where
  "rh_values h k \<equiv> rh_get h k None"

lemmas rh_defs = rh_set_def rh_append_def rh_getitem_def rh_get_def rh_delitem_def rh_contains_def Let_def

lemma rh_values_alt:
  "rh_values h k = (case od_get h (py_lower (maybe_encode k)) of None \<Rightarrow> [] | Some (_, vs) \<Rightarrow> vs)"
  by (auto simp: rh_defs split: option.splits)

lemma rh_values_append:
  "rh_values (rh_append k v h) j = rh_values h j @ (if same_name k j then [maybe_encode v] else [])"
  by (auto simp: rh_values_alt rh_append_def rh_set_def Let_def same_name_def od_get_set split: option.splits)

interpretation rh: multi_store rh_values rh_append same_name maybe_encode
  by unfold_locales (rule rh_values_append)

interpretation md: multi_store md_get_list md_add "(=)" id
  by unfold_locales (auto simp: md_get_list_def md_add_def od_get_set split: option.splits)

interpretation names: keyed_store od_get od_set od_del od_inv py_lower
  by unfold_locales

lemma rh_contains_values: "rh_contains h k \<longleftrightarrow> od_get h (py_lower (maybe_encode k)) \<noteq> None"
  by (simp add: rh_contains_def)

text \<open>
  The invariant of \<open>ResponseHeaders\<close>: distinct keys, each the lower case of the name it stores, and at
  least one value per key.
\<close>

definition rh_inv :: "resp_headers \<Rightarrow> bool" where
  "rh_inv h \<longleftrightarrow> od_inv h \<and> (\<forall>(n, k, vs) \<in> set h. n = py_lower k \<and> vs \<noteq> [])"

lemma set_od_set: "p \<in> set (od_set k v d) \<Longrightarrow> p = (k, v) \<or> p \<in> set d"
  by (induction d) (auto split: if_splits)

lemma od_get_in: "od_get d k = Some v \<Longrightarrow> (k, v) \<in> set d"
  by (simp add: od_get_def map_of_SomeD)

lemma rh_inv_Nil [simp]: "rh_inv []"
  by (simp add: rh_inv_def)

lemma rh_inv_set: "rh_inv h \<Longrightarrow> rh_inv (rh_set k v h)"
  by (auto simp: rh_inv_def rh_set_def Let_def od.inv_put dest!: set_od_set)

lemma rh_inv_append:
  assumes "rh_inv h" shows "rh_inv (rh_append k v h)"
proof (cases "od_get h (py_lower (maybe_encode k))")
  case None
  then show ?thesis using assms by (simp add: rh_append_def Let_def rh_inv_set)
next
  case (Some p)
  obtain k0 vs where p: "p = (k0, vs)" by (cases p)
  have "py_lower k0 = py_lower (maybe_encode k)"
    using od_get_in [OF Some] assms by (auto simp: p rh_inv_def)
  then show ?thesis
    using assms Some by (auto simp: p rh_append_def Let_def rh_inv_def od.inv_put dest!: set_od_set)
qed

lemma rh_inv_update: "rh_inv h \<Longrightarrow> rh_inv (rh_update items h)"
  unfolding rh_update_def by (induction items arbitrary: h) (auto intro: rh_inv_append)

lemma rh_inv_delitem:
  assumes "rh_inv h" and "rh_delitem k h = Inr h'" shows "rh_inv h'"
proof -
  have h': "h' = od_del (py_lower (maybe_encode k)) h"
    using assms(2) by (auto simp: rh_delitem_def Let_def split: option.splits)
  then have "set h' \<subseteq> set h" by (auto simp: od_del_def)
  moreover have "od_inv h'" using assms(1) by (simp add: h' rh_inv_def od.inv_del)
  ultimately show ?thesis using assms(1) by (auto simp: rh_inv_def)
qed

text \<open>What \<open>items()\<close> gives for one name is what \<open>get\<close> gives, under the name as first written.\<close>

lemma filter_items_other:
  "\<forall>(n, k, vs) \<in> set h. n = py_lower k \<Longrightarrow> x \<notin> fst ` set h \<Longrightarrow>
     filter (\<lambda>(k, v). py_lower k = x) (rh_items h) = []"
  by (induction h) (auto simp: rh_items_def filter_empty_conv)

lemma rh_items_Cons: "rh_items ((a, k, vs) # h) = map (Pair k) vs @ rh_items h"
  by (simp add: rh_items_def)

lemma rh_items_values:
  assumes "rh_inv h"
  shows "map snd (filter (\<lambda>(k, v). py_lower k = py_lower (maybe_encode n)) (rh_items h)) = rh_values h n"
  using assms
proof (induction h)
  case (Cons p h)
  obtain a k vs where p: "p = (a, k, vs)" by (cases p)
  have inv: "rh_inv h" and a: "a = py_lower k" and fresh: "a \<notin> fst ` set h"
    and keys: "\<forall>(n, k, vs) \<in> set h. n = py_lower k"
    using Cons.prems by (auto simp: p rh_inv_def od_inv_def od_keys_def)
  have "filter (\<lambda>(k, v). py_lower k = py_lower (maybe_encode n)) (map (Pair k) vs) =
      (if a = py_lower (maybe_encode n) then map (Pair k) vs else [])"
    by (simp add: filter_map o_def a)
  moreover have "filter (\<lambda>(k, v). py_lower k = py_lower (maybe_encode n)) (rh_items h) = []"
    if "a = py_lower (maybe_encode n)"
    using filter_items_other [OF keys fresh] that by simp
  ultimately show ?case
    using Cons.IH [OF inv]
    by (cases "a = py_lower (maybe_encode n)") (simp_all add: rh_items_Cons rh_values_alt p o_def)
qed (simp add: rh_items_def rh_values_alt)

text \<open>
  C5: a handler's header list reaches the response completely: after \<open>update\<close> the values sent under a
  name are those present before followed by all values of the list whose name is the same up to
  case, in list order. No duplicate is merged and none is dropped.
\<close>

theorem update_keeps_every_value:
  "rh_values (rh_update items h) n =
     rh_values h n @ map (maybe_encode \<circ> snd) (filter (\<lambda>(k, v). same_name k n) items)"
  unfolding rh_update_def by (rule rh.vals_app_all)

text \<open>
  C14: what goes on the wire agrees with the lookup: in a response built from scratch, the header lines
  whose name equals \<open>n\<close> up to case carry exactly the values of the list for that name, in order.
\<close>

theorem items_of_update:
  "map snd (filter (\<lambda>(k, v). py_lower k = py_lower (maybe_encode n)) (rh_items (rh_update items [])))
     = map (maybe_encode \<circ> snd) (filter (\<lambda>(k, v). same_name k n) items)"
proof -
  have "rh_inv (rh_update items [])" by (rule rh_inv_update) simp
  from rh_items_values [OF this, of n] show ?thesis
    using rh.vals_app_all [of items "[]" n] by (simp add: rh_update_def rh_values_alt)
qed

text \<open>
  the spelling of a repeated header name is not kept: all values of one name are sent with the
  spelling of its first occurrence. A response meant to carry \<open>x-frame-options\<close> and
  \<open>X-FRAME-OPTIONS\<close> sends two headers of the first spelling.
\<close>

theorem repeated_name_keeps_first_spelling:
  assumes "same_name k1 k2"
  shows "rh_items (rh_update [(k1, v1), (k2, v2)] []) =
     [(maybe_encode k1, maybe_encode v1), (maybe_encode k1, maybe_encode v2)]"
  using assms by (simp add: rh_update_def rh_append_def rh_set_def rh_items_def same_name_def Let_def)

theorem repeated_name_keeps_first_spelling_witness:
  "rh_items (rh_update [(PStr ''x-frame-options'', PStr ''DENY''), (PStr ''X-FRAME-OPTIONS'', PStr ''SAMEORIGIN'')] [])
     = [(''x-frame-options'', ''DENY''), (''x-frame-options'', ''SAMEORIGIN'')]"
proof -
  have "same_name (PStr ''x-frame-options'') (PStr ''X-FRAME-OPTIONS'')" by code_simp
  from repeated_name_keeps_first_spelling [OF this] show ?thesis by simp
qed

section \<open>The request view\<close>

lemma raw_get_all_lower: "py_lower a = py_lower b \<Longrightarrow> raw_get_all raw a = raw_get_all raw b"
  by (simp add: raw_get_all_def)

lemma raw_get_all_Nil_iff: "raw_get_all raw n = [] \<longleftrightarrow> py_lower n \<notin> (py_lower \<circ> fst) ` set raw"
  by (force simp: raw_get_all_def filter_empty_conv)

lemma mk_request_headers_alt:
  "mk_request_headers raw = fold (\<lambda>(k, v). od_set k v)
     (map (\<lambda>n. (py_lower n, raw_get_all raw n)) (map fst raw)) []"
proof -
  have "(let vals = raw_get_all raw n
         in if length vals > 1 then vals else (case raw_get raw n of None \<Rightarrow> [] | Some v \<Rightarrow> [v]))
        = raw_get_all raw n" for n
    by (cases "raw_get_all raw n" rule: remdups_adj.cases) (auto simp: raw_get_def)
  then show ?thesis by (simp add: mk_request_headers_def fold_map Let_def o_def)
qed

lemma map_of_map_image:
  "\<forall>x \<in> set xs. f x = k \<longrightarrow> g x = v \<Longrightarrow>
     map_of (map (\<lambda>x. (f x, g x)) xs) k = (if k \<in> f ` set xs then Some v else None)"
  by (induction xs) auto

text \<open>
  the request headers seen by handlers: a lookup gives the values of all header lines of that name
  up to case, joined by a comma and a space in the order of the request, and \<open>KeyError\<close> exactly when
  there is no such line.
\<close>

theorem request_header_lookup:
  "rq_getitem (mk_request_headers raw) n =
     (if raw_get_all raw n = [] then Inl KeyError else Inr (join_with '', '' (raw_get_all raw n)))"
proof -
  let ?kvs = "map (\<lambda>n. (py_lower n, raw_get_all raw n)) (rev (map fst raw))"
  have "od_get (mk_request_headers raw) (py_lower n) = map_of ?kvs (py_lower n)"
    unfolding mk_request_headers_alt by (simp only: od_get_put_all rev_map)
  also have "\<dots> = (if py_lower n \<in> py_lower ` set (rev (map fst raw)) then Some (raw_get_all raw n) else None)"
    by (rule map_of_map_image) (auto intro: raw_get_all_lower)
  finally show ?thesis
    by (auto simp: rq_getitem_def raw_get_all_Nil_iff image_comp o_def split: list.splits)
qed

text \<open>
  query parameters: after adding a list of pairs to an empty multi-dictionary, \<open>get_list\<close> gives all
  values of a key in order, \<open>first\<close> (used by \<open>request.GET[key]\<close>) the first of them and \<open>last\<close> (used by
  cookies) the last of them, with \<open>KeyError\<close> for an absent key.
\<close>

lemma multidict_of_pairs:
  "md_get_list (md_of_pairs kvs) key = map snd (filter (\<lambda>(k, v). k = key) kvs)
   \<and> md_getitem (md_of_pairs kvs) key =
       (case map snd (filter (\<lambda>(k, v). k = key) kvs) of [] \<Rightarrow> Inl KeyError | v # _ \<Rightarrow> Inr v)
   \<and> md_last (md_of_pairs kvs) key None =
       (case map snd (filter (\<lambda>(k, v). k = key) kvs) of [] \<Rightarrow> Inl KeyError | v # vs \<Rightarrow> Inr (last (v # vs)))"
proof -
  have l: "md_get_list (md_of_pairs kvs) key = map snd (filter (\<lambda>(k, v). k = key) kvs)"
    using md.vals_app_all [of kvs "[]" key] by (simp add: md_of_pairs_def md_get_list_def)
  then show ?thesis
    by (auto simp: md_getitem_def md_first_def md_last_def md_get_list_def split: option.splits list.splits)
qed

end
