(* ===== verification/Db_Rows.thy ===== *)
theory Db_Rows
  imports Py_Prelude
begin

text \<open>
  The tables of the experiment database (\<open>_hp/hp/tools/models.py\<close>) and \<open>get_or_create\<close>
  (\<open>_hp/hp/tools/crawler/utils.py\<close>). The database itself is PostgreSQL: a table is modelled as the list
  of its rows with their ids and the next value of the id sequence, with the documented behaviour of a
  unique constraint: inserting a row whose constrained columns are already present raises
  \<open>IntegrityError\<close> and the id it consumed is lost. Texts of the generated responses are lists of Unicode
  code points.
\<close>

type_synonym ustr = "nat list"

definition cp :: "string \<Rightarrow> ustr" where
  "cp s = map of_char s"

section \<open>Models\<close>

datatype resp_type = Debug | Basic | Parsing

text \<open>
  A row of table Response without its id and time stamps. The column \<open>raw_header\<close> holds the JSON text of
  the header list; the model keeps the list it encodes.
\<close>

record response_row =
  raw_header :: "(ustr \<times> ustr) list"
  status_code :: int
  label :: ustr
  resp_type :: resp_type

datatype headless_mode = Real | Xvfb | Headless | HeadlessNew
datatype automation_mode = Manual | Intent | Selenium | Playwright | OtherMode

record browser_row =
  br_name :: string
  br_version :: string
  br_os :: string
  br_headless_mode :: headless_mode
  br_automation_mode :: automation_mode
  br_add_info :: "string option"

text \<open>The unique constraints \<open>uq_response\<close> and \<open>uq_browser\<close>.\<close>

definition uq_response :: "response_row \<Rightarrow> (ustr \<times> ustr) list \<times> int \<times> ustr \<times> resp_type" where
  "uq_response r = (raw_header r, status_code r, label r, resp_type r)"

definition uq_browser :: "browser_row \<Rightarrow> string \<times> string \<times> string \<times> headless_mode \<times> automation_mode" where
  "uq_browser b = (br_name b, br_version b, br_os b, br_headless_mode b, br_automation_mode b)"

section \<open>Tables\<close>

record 'r table =
  rows :: "(int \<times> 'r) list"
  next_id :: int

datatype 'r insert_result = Inserted int "'r table" | IntegrityError "'r table"

definition insert_row :: "('r \<Rightarrow> 'k) \<Rightarrow> 'r \<Rightarrow> 'r table \<Rightarrow> 'r insert_result" where
  "insert_row ukey r t =
     (if ukey r \<in> ukey ` snd ` set (rows t) then IntegrityError (t\<lparr>next_id := next_id t + 1\<rparr>)
      else Inserted (next_id t) (t\<lparr>rows := rows t @ [(next_id t, r)], next_id := next_id t + 1\<rparr>))"

text \<open>
  \<open>get_or_create(session, model, **kwargs)\<close> with every column given: the first row equal in all columns,
  else a new one. The result is the id and whether it was created.
\<close>

datatype 'r goc_result = Got int bool "'r table" | GocIntegrityError "'r table"

definition get_or_create :: "('r \<Rightarrow> 'k) \<Rightarrow> 'r \<Rightarrow> 'r table \<Rightarrow> 'r goc_result" where
  "get_or_create ukey r t =
     (case find (\<lambda>(i, x). x = r) (rows t) of
        Some (i, _) \<Rightarrow> Got i False t
      | None \<Rightarrow>
          (case insert_row ukey r t of
             Inserted i t' \<Rightarrow> Got i True t'
           | IntegrityError t' \<Rightarrow> GocIntegrityError t'))"

text \<open>\<open>get_or_create_browser\<close>: an \<open>IntegrityError\<close> is printed and the function returns \<open>None\<close>.\<close>

definition get_or_create_browser ::
  "string \<Rightarrow> string \<Rightarrow> string \<Rightarrow> headless_mode \<Rightarrow> automation_mode \<Rightarrow> string option
     \<Rightarrow> browser_row table \<Rightarrow> int option \<times> browser_row table" where
  "get_or_create_browser name version os hmode amode info t =
     (case get_or_create uq_browser
        \<lparr>br_name = name, br_version = version, br_os = os, br_headless_mode = hmode,
         br_automation_mode = amode, br_add_info = info\<rparr> t of
        Got i _ t' \<Rightarrow> (Some i, t')
      | GocIntegrityError t' \<Rightarrow> (None, t'))"

section \<open>The interface of an idempotent store\<close>

text \<open>
  What the generators rely on: storing a row makes it present, keeps the others, and does nothing when
  the row is already there, under an invariant of the store.
\<close>

locale idem_store =
  fixes add :: "'r \<Rightarrow> 's \<Rightarrow> 's"
    and contents :: "'s \<Rightarrow> 'r set"
    and inv :: "'s \<Rightarrow> bool"
  assumes contents_add: "inv s \<Longrightarrow> contents (add r s) = insert r (contents s)"
    and add_present: "inv s \<Longrightarrow> r \<in> contents s \<Longrightarrow> add r s = s"
    and inv_add: "inv s \<Longrightarrow> inv (add r s)"
begin

lemma inv_add_all: "inv s \<Longrightarrow> inv (fold add rs s)"
  by (induction rs arbitrary: s) (auto simp: inv_add)

lemma contents_add_all: "inv s \<Longrightarrow> contents (fold add rs s) = contents s \<union> set rs"
  by (induction rs arbitrary: s) (auto simp: inv_add contents_add)

lemma add_all_present: "inv s \<Longrightarrow> set rs \<subseteq> contents s \<Longrightarrow> fold add rs s = s"
  by (induction rs) (auto simp: add_present)

text \<open>Running a generator again changes nothing.\<close>

lemma add_all_idem: "inv s \<Longrightarrow> fold add rs (fold add rs s) = fold add rs s"
  by (intro add_all_present inv_add_all) (simp_all add: contents_add_all)

lemma add_all_permuted:
  "inv s \<Longrightarrow> set rs = set qs \<Longrightarrow> contents (fold add rs s) = contents (fold add qs s)"
  by (simp add: contents_add_all)

end

section \<open>The provider\<close>

definition table_inv :: "('r \<Rightarrow> 'k) \<Rightarrow> 'r table \<Rightarrow> bool" where
  "table_inv ukey t \<longleftrightarrow> distinct (map fst (rows t)) \<and> distinct (map (ukey \<circ> snd) (rows t))
     \<and> (\<forall>i \<in> fst ` set (rows t). i < next_id t)"

definition table_rows :: "'r table \<Rightarrow> 'r set" where
  "table_rows t = snd ` set (rows t)"

definition empty_table :: "'r table" where
  "empty_table = \<lparr>rows = [], next_id = 1\<rparr>"

lemma table_inv_empty [simp]: "table_inv ukey empty_table"
  by (simp add: table_inv_def empty_table_def)

lemma insert_row_inv:
  assumes "table_inv ukey t"
  shows "case insert_row ukey r t of Inserted i t' \<Rightarrow> table_inv ukey t' | IntegrityError t' \<Rightarrow> table_inv ukey t'"
  using assms by (fastforce simp: insert_row_def table_inv_def image_image)

text \<open>The table after \<open>get_or_create\<close>, whatever its result.\<close>

definition goc_table :: "'r goc_result \<Rightarrow> 'r table" where
  "goc_table g = (case g of Got _ _ t \<Rightarrow> t | GocIntegrityError t \<Rightarrow> t)"

lemma get_or_create_inv: "table_inv ukey t \<Longrightarrow> table_inv ukey (goc_table (get_or_create ukey r t))"
  using insert_row_inv [of ukey t r]
  by (auto simp: get_or_create_def goc_table_def split: option.splits insert_result.splits)

lemma find_row_None: "find (\<lambda>(i, x). x = r) xs = None \<longleftrightarrow> r \<notin> snd ` set xs"
  by (force simp: find_None_iff)

lemma find_SomeD: "find P xs = Some x \<Longrightarrow> x \<in> set xs \<and> P x"
  by (induction xs) (auto split: if_splits)

lemma find_append_None: "find P xs = None \<Longrightarrow> find P (xs @ ys) = find P ys"
  by (induction xs) (auto split: if_splits)

lemma get_or_create_present:
  assumes "r \<in> table_rows t"
  obtains i where "get_or_create ukey r t = Got i False t" "(i, r) \<in> set (rows t)"
proof -
  obtain i q where p: "find (\<lambda>(i, x). x = r) (rows t) = Some (i, q)"
    using assms find_row_None [of r "rows t"] by (cases "find (\<lambda>(i, x). x = r) (rows t)") (auto simp: table_rows_def)
  then have "(i, r) \<in> set (rows t)" using find_SomeD [OF p] by auto
  moreover have "get_or_create ukey r t = Got i False t" by (simp add: get_or_create_def p)
  ultimately show ?thesis by (intro that)
qed

text \<open>
  For responses the constraint covers all columns, so \<open>get_or_create\<close> never fails: a row with an equal key
  is an equal row.
\<close>

lemma uq_response_inj: "uq_response a = uq_response b \<longleftrightarrow> a = b"
  by (auto simp: uq_response_def)

definition store_response :: "response_row \<Rightarrow> response_row table \<Rightarrow> response_row table" where
  "store_response r t = goc_table (get_or_create uq_response r t)"

lemma store_response_new:
  assumes "r \<notin> table_rows t"
  shows "get_or_create uq_response r t =
     Got (next_id t) True (t\<lparr>rows := rows t @ [(next_id t, r)], next_id := next_id t + 1\<rparr>)"
proof -
  have "uq_response r \<notin> uq_response ` snd ` set (rows t)"
    using assms by (force simp: table_rows_def uq_response_inj)
  moreover have "find (\<lambda>(i, x). x = r) (rows t) = None"
    using assms by (simp add: find_row_None table_rows_def)
  ultimately show ?thesis by (simp add: get_or_create_def insert_row_def)
qed

interpretation resp_db: idem_store store_response table_rows "table_inv uq_response"
proof
  fix t :: "response_row table" and r :: response_row
  assume inv: "table_inv uq_response t"
  show "table_inv uq_response (store_response r t)"
    using inv by (simp add: store_response_def get_or_create_inv)
  show present: "store_response r t = t" if "r \<in> table_rows t" for r
    using that by (rule get_or_create_present [where ukey = uq_response]) (simp add: store_response_def goc_table_def)
  show "table_rows (store_response r t) = insert r (table_rows t)"
  proof (cases "r \<in> table_rows t")
    case True
    then show ?thesis using present [OF True] by (simp add: insert_absorb)
  next
    case False
    then show ?thesis by (simp add: store_response_def goc_table_def store_response_new) (simp add: table_rows_def)
  qed
qed

text \<open>
  \<open>get_or_create\<close> keeps the ids and the constrained columns of a table unique; asked again for the
  row it returned, it returns the same id, reports it as not created and leaves the table alone; it
  fails only where another row already has the constrained columns.
\<close>

theorem get_or_create_unique:
  assumes "table_inv ukey t"
  shows "case get_or_create ukey r t of
      Got i created t' \<Rightarrow> table_inv ukey t' \<and> (i, r) \<in> set (rows t') \<and> set (rows t) \<subseteq> set (rows t')
        \<and> (created \<longleftrightarrow> r \<notin> table_rows t) \<and> get_or_create ukey r t' = Got i False t'
    | GocIntegrityError t' \<Rightarrow> rows t' = rows t \<and> r \<notin> table_rows t
        \<and> (\<exists>q \<in> table_rows t. ukey q = ukey r)"
proof (cases "r \<in> table_rows t")
  case True
  then obtain i where "get_or_create ukey r t = Got i False t" "(i, r) \<in> set (rows t)"
    by (rule get_or_create_present)
  then show ?thesis using assms True by simp
next
  case False
  have none: "find (\<lambda>(i, x). x = r) (rows t) = None"
    using False by (simp add: find_row_None table_rows_def)
  show ?thesis
  proof (cases "ukey r \<in> ukey ` snd ` set (rows t)")
    case True
    then obtain q where q: "q \<in> table_rows t" "ukey q = ukey r"
      by (force simp: table_rows_def)
    have "get_or_create ukey r t = GocIntegrityError (t\<lparr>next_id := next_id t + 1\<rparr>)"
      using True none by (simp add: get_or_create_def insert_row_def)
    then show ?thesis using False q by auto
  next
    case fresh: False
    let ?t = "t\<lparr>rows := rows t @ [(next_id t, r)], next_id := next_id t + 1\<rparr>"
    have g: "get_or_create ukey r t = Got (next_id t) True ?t"
      using fresh none by (simp add: get_or_create_def insert_row_def)
    have "table_inv ukey ?t" using get_or_create_inv [OF assms, of r] by (simp add: g goc_table_def)
    moreover have "find (\<lambda>(i, x). x = r) (rows ?t) = Some (next_id t, r)"
      using none by (simp add: find_append_None)
    ultimately show ?thesis using False by (simp add: g) (auto simp: get_or_create_def)
  qed
qed

theorem get_or_create_unique_witness:
  "\<exists>i t'. get_or_create uq_response \<lparr>raw_header = [], status_code = 200, label = [], resp_type = Debug\<rparr> empty_table
      = Got i True t' \<and> table_inv uq_response t'"
  using get_or_create_unique [OF table_inv_empty [of uq_response],
      of "\<lparr>raw_header = [], status_code = 200, label = [], resp_type = Debug\<rparr>"]
  by (auto simp: get_or_create_def insert_row_def empty_table_def table_rows_def)

text \<open>
  a browser configuration that differs from a stored one only in \<open>add_info\<close> cannot be registered:
  the lookup includes that column and the unique constraint does not, so the caller gets \<open>None\<close>.
\<close>

theorem browser_add_info_conflict:
  assumes "b \<in> table_rows t" and "info \<noteq> br_add_info b"
    and "\<forall>q \<in> table_rows t. q \<noteq> b\<lparr>br_add_info := info\<rparr>"
  shows "fst (get_or_create_browser (br_name b) (br_version b) (br_os b) (br_headless_mode b)
      (br_automation_mode b) info t) = None"
proof -
  let ?r = "\<lparr>br_name = br_name b, br_version = br_version b, br_os = br_os b,
     br_headless_mode = br_headless_mode b, br_automation_mode = br_automation_mode b, br_add_info = info\<rparr>"
  have r: "?r = b\<lparr>br_add_info := info\<rparr>" by simp
  have "find (\<lambda>(i, x). x = ?r) (rows t) = None"
    using assms(3) unfolding r find_row_None table_rows_def by blast
  moreover have "uq_browser ?r \<in> uq_browser ` snd ` set (rows t)"
    using assms(1) by (force simp: table_rows_def uq_browser_def image_iff)
  ultimately show ?thesis
    by (simp add: get_or_create_browser_def get_or_create_def insert_row_def)
qed

theorem browser_add_info_conflict_witness:
  "fst (get_or_create_browser ''chrome'' ''121'' ''Ubuntu'' HeadlessNew Selenium (Some ''x'')
     \<lparr>rows = [(1, \<lparr>br_name = ''chrome'', br_version = ''121'', br_os = ''Ubuntu'', br_headless_mode = HeadlessNew,
        br_automation_mode = Selenium, br_add_info = Some []\<rparr>)], next_id = 2\<rparr>) = None"
  using browser_add_info_conflict [of "\<lparr>br_name = ''chrome'', br_version = ''121'', br_os = ''Ubuntu'',
      br_headless_mode = HeadlessNew, br_automation_mode = Selenium, br_add_info = Some []\<rparr>"
      "\<lparr>rows = [(1, \<lparr>br_name = ''chrome'', br_version = ''121'', br_os = ''Ubuntu'', br_headless_mode = HeadlessNew,
        br_automation_mode = Selenium, br_add_info = Some []\<rparr>)], next_id = 2\<rparr>" "Some ''x''"]
  by (simp add: table_rows_def)

end
