(* ===== verification/Wpt_Utils.thy ===== *)
theory Wpt_Utils
  imports Db_Rows Py_Dict
begin

text \<open>
  \<open>utils.py\<close> and \<open>constants.py\<close> of wptserve: the header encoding \<open>isomorphic_encode\<close>, inverted
  dictionaries, ports browsers refuse, and the tables of content types and status messages. Texts that may
  exceed Latin-1 are lists of code points, encoded texts are byte strings.
\<close>

section \<open>Isomorphic encoding\<close>

definition isomorphic_decode :: "string \<Rightarrow> ustr" where
  "isomorphic_decode b = map of_char b"

text \<open>
  One code point in UTF-8; with \<open>surrogateescape\<close> the code points DC80 to DCFF are single bytes and the
  other surrogates cannot be encoded.
\<close>

definition utf8_point :: "nat \<Rightarrow> nat list option" where
  "utf8_point c =
     (if c < 128 then Some [c]
      else if c < 2048 then Some [192 + c div 64, 128 + c mod 64]
      else if 56448 \<le> c \<and> c \<le> 56575 then Some [c - 56320]
      else if 55296 \<le> c \<and> c \<le> 57343 then None
      else if c < 65536 then Some [224 + c div 4096, 128 + c div 64 mod 64, 128 + c mod 64]
      else if c < 1114112
      then Some [240 + c div 262144, 128 + c div 4096 mod 64, 128 + c div 64 mod 64, 128 + c mod 64]
      else None)"

definition utf8_encode :: "ustr \<Rightarrow> string res" where
  "utf8_encode s = rbind (rmap (\<lambda>c. of_option UnicodeError (utf8_point c)) s)
     (\<lambda>bss. Inr (map char_of (concat bss)))"

definition isomorphic_encode :: "ustr \<Rightarrow> string res" where
  "isomorphic_encode s = (if list_all (\<lambda>c. c < 256) s then Inr (map char_of s) else utf8_encode s)"

section \<open>Inverted dictionaries\<close>

definition invert_add :: "'k \<Rightarrow> 'v \<Rightarrow> ('v, 'k) odict \<Rightarrow> ('v, 'k) odict res" where
  "invert_add key val rv = (if od_get rv val \<noteq> None then Inl ValueError else Inr (od_set val key rv))"

fun invert_values :: "'k \<Rightarrow> 'v list \<Rightarrow> ('v, 'k) odict \<Rightarrow> ('v, 'k) odict res" where
  "invert_values key [] rv = Inr rv"
| "invert_values key (v # vs) rv = rbind (invert_add key v rv) (invert_values key vs)"

fun invert_items :: "('k \<times> 'v list) list \<Rightarrow> ('v, 'k) odict \<Rightarrow> ('v, 'k) odict res" where
  "invert_items [] rv = Inr rv"
| "invert_items ((key, vs) # items) rv = rbind (invert_values key vs rv) (invert_items items)"

definition invert_dict :: "('k \<times> 'v list) list \<Rightarrow> ('v, 'k) odict res" where
  "invert_dict d = invert_items d []"

section \<open>Ports\<close>

definition bad_ports :: "int list" where
  "bad_ports =
    [1, 7, 9, 11, 13, 15, 17, 19, 20, 21, 22, 23, 25, 37, 42, 43, 53, 69, 77, 79, 87, 95, 101, 102, 103, 104,
     109, 110, 111, 113, 115, 117, 119, 123, 135, 137, 139, 143, 161, 179, 389, 427, 465, 512, 513, 514, 515,
     526, 530, 531, 532, 540, 548, 554, 556, 563, 587, 601, 636, 989, 999, 993, 995, 1719, 1720, 1723, 2049,
     3659, 4045, 5060, 5061, 6000, 6566, 6665, 6666, 6667, 6668, 6669, 6697, 10080]"

definition is_bad_port :: "int \<Rightarrow> bool" where
  "is_bad_port port \<longleftrightarrow> port \<in> set bad_ports"

text \<open>
  \<open>get_port\<close>: the loop asks the operating system for free ports (\<open>free k\<close> is its k-th answer) until one is
  not refused by browsers. It returns only if such an answer comes.
\<close>

partial_function (option) get_port_from :: "(nat \<Rightarrow> int) \<Rightarrow> nat \<Rightarrow> int option" where
  "get_port_from free k = (if is_bad_port (free k) then get_port_from free (k + 1) else Some (free k))"

definition get_port :: "(nat \<Rightarrow> int) \<Rightarrow> int option" where
  "get_port free = get_port_from free 0"

section \<open>Content types and status messages\<close>

definition content_type_table :: "(string \<times> string list) list" where
  "content_type_table =
    [(''application/json'', [''json'']), (''application/wasm'', [''wasm'']),
     (''application/xhtml+xml'', [''xht'', ''xhtm'', ''xhtml'']), (''application/xml'', [''xml'']),
     (''application/x-xpinstall'', [''xpi'']), (''audio/mp4'', [''m4a'']), (''audio/mpeg'', [''mp3'']),
     (''audio/ogg'', [''oga'']), (''audio/webm'', [''weba'']), (''audio/x-wav'', [''wav'']),
     (''image/avif'', [''avif'']), (''image/bmp'', [''bmp'']), (''image/gif'', [''gif'']),
     (''image/jpeg'', [''jpg'', ''jpeg'']), (''image/png'', [''png'']), (''image/svg+xml'', [''svg'']),
     (''text/cache-manifest'', [''manifest'']), (''text/css'', [''css'']),
     (''text/event-stream'', [''event_stream'']), (''text/html'', [''htm'', ''html'']),
     (''text/javascript'', [''js'', ''mjs'']), (''text/plain'', [''txt'', ''md'']), (''text/vtt'', [''vtt'']),
     (''video/mp4'', [''mp4'', ''m4v'']), (''video/ogg'', [''ogg'', ''ogv'']), (''video/webm'', [''webm''])]"

definition content_types :: "(string, string) odict" where
  "content_types = (case invert_dict content_type_table of Inr d \<Rightarrow> d | Inl _ \<Rightarrow> [])"

definition response_codes :: "(int \<times> string \<times> string) list" where
  "response_codes =
    [(100, ''Continue'', ''Request received, please continue''),
     (101, ''Switching Protocols'', ''Switching to new protocol; obey Upgrade header''),
     (200, ''OK'', ''Request fulfilled, document follows''),
     (201, ''Created'', ''Document created, URL follows''),
     (202, ''Accepted'', ''Request accepted, processing continues off-line''),
     (203, ''Non-Authoritative Information'', ''Request fulfilled from cache''),
     (204, ''No Content'', ''Request fulfilled, nothing follows''),
     (205, ''Reset Content'', ''Clear input form for further input.''),
     (206, ''Partial Content'', ''Partial content follows.''),
     (300, ''Multiple Choices'', ''Object has several resources -- see URI list''),
     (301, ''Moved Permanently'', ''Object moved permanently -- see URI list''),
     (302, ''Found'', ''Object moved temporarily -- see URI list''),
     (303, ''See Other'', ''Object moved -- see Method and URL list''),
     (304, ''Not Modified'', ''Document has not changed since given time''),
     (305, ''Use Proxy'', ''You must use proxy specified in Location to access this resource.''),
     (307, ''Temporary Redirect'', ''Object moved temporarily -- see URI list''),
     (400, ''Bad Request'', ''Bad request syntax or unsupported method''),
     (401, ''Unauthorized'', ''No permission -- see authorization schemes''),
     (402, ''Payment Required'', ''No payment -- see charging schemes''),
     (403, ''Forbidden'', ''Request forbidden -- authorization will not help''),
     (404, ''Not Found'', ''Nothing matches the given URI''),
     (405, ''Method Not Allowed'', ''Specified method is invalid for this resource.''),
     (406, ''Not Acceptable'', ''URI not available in preferred format.''),
     (407, ''Proxy Authentication Required'', ''You must authenticate with this proxy before proceeding.''),
     (408, ''Request Timeout'', ''Request timed out; try again later.''),
     (409, ''Conflict'', ''Request conflict.''),
     (410, ''Gone'', ''URI no longer exists and has been permanently removed.''),
     (411, ''Length Required'', ''Client must specify Content-Length.''),
     (412, ''Precondition Failed'', ''Precondition in headers is false.''),
     (413, ''Request Entity Too Large'', ''Entity is too large.''),
     (414, ''Request-URI Too Long'', ''URI is too long.''),
     (415, ''Unsupported Media Type'', ''Entity body in unsupported format.''),
     (416, ''Requested Range Not Satisfiable'', ''Cannot satisfy request range.''),
     (417, ''Expectation Failed'', ''Expect condition could not be satisfied.''),
     (500, ''Internal Server Error'', ''Server got itself in trouble''),
     (501, ''Not Implemented'', ''Server does not support this operation''),
     (502, ''Bad Gateway'', ''Invalid responses from another server/proxy.''),
     (503, ''Service Unavailable'', ''The server cannot process the request due to a high load''),
     (504, ''Gateway Timeout'', ''The gateway server did not receive a timely response''),
     (505, ''HTTP Version Not Supported'', ''Cannot fulfill request.'')]"

section \<open>Properties\<close>

text \<open>
  every byte string survives decoding and encoding, every Latin-1 text survives encoding and
  decoding, and texts beyond Latin-1 are sent in UTF-8 unless they hold a lone surrogate.
\<close>

theorem isomorphic_roundtrip:
  "isomorphic_encode (isomorphic_decode b) = Inr b
   \<and> (if list_all (\<lambda>c. c < 256) s then map_sum id isomorphic_decode (isomorphic_encode s) = Inr s
      else isomorphic_encode s = utf8_encode s)
   \<and> isomorphic_encode [226, 128, 152] = isomorphic_encode [8216]"
proof -
  have "list_all (\<lambda>c. c < 256) (isomorphic_decode b)"
    by (auto simp: list_all_iff isomorphic_decode_def)
  moreover have "map (of_char \<circ> char_of) s = s" if "list_all (\<lambda>c. c < 256) s" for s :: ustr
    using that by (induction s) (simp_all add: take_bit_eq_mod)
  moreover have "isomorphic_encode [226, 128, 152] = isomorphic_encode [8216]"
    by (simp add: isomorphic_encode_def utf8_encode_def utf8_point_def)
  ultimately show ?thesis
    by (simp add: isomorphic_encode_def isomorphic_decode_def comp_def)
qed

definition inverted :: "('k \<times> 'v list) list \<Rightarrow> ('v \<times> 'k) list" where
  "inverted items = concat (map (\<lambda>(k, vs). map (\<lambda>v. (v, k)) vs) items)"

lemma invert_values_eq:
  "distinct (od_keys rv) \<Longrightarrow> invert_values key vs rv =
     (if distinct (od_keys rv @ vs) then Inr (rv @ map (\<lambda>v. (v, key)) vs) else Inl ValueError)"
proof (induction vs arbitrary: rv)
  case (Cons v vs)
  show ?case
  proof (cases "v \<in> set (od_keys rv)")
    case True
    then have "od_get rv v \<noteq> None" by (simp add: od_get_None_iff)
    then show ?thesis using True by (simp add: invert_add_def)
  next
    case False
    then have "od_get rv v = None" by (simp add: od_get_None_iff)
    then have "invert_add key v rv = Inr (rv @ [(v, key)])" using False by (simp add: invert_add_def od_set_new)
    moreover have "od_keys (rv @ [(v, key)]) = od_keys rv @ [v]" by (simp add: od_keys_def)
    ultimately show ?thesis using Cons False by auto
  qed
qed simp

lemma invert_items_eq:
  "distinct (od_keys rv) \<Longrightarrow> invert_items items rv =
     (if distinct (od_keys rv @ concat (map snd items)) then Inr (rv @ inverted items) else Inl ValueError)"
proof (induction items arbitrary: rv)
  case (Cons it items)
  obtain k vs where it: "it = (k, vs)" by (cases it)
  have keys: "od_keys (rv @ map (\<lambda>v. (v, k)) vs) = od_keys rv @ vs" by (simp add: od_keys_def comp_def)
  show ?case
  proof (cases "distinct (od_keys rv @ vs)")
    case True
    then show ?thesis
      using Cons.IH [of "rv @ map (\<lambda>v. (v, k)) vs"] Cons.prems
      by (simp add: it keys invert_values_eq inverted_def)
  next
    case False
    then show ?thesis using Cons.prems by (auto simp: it invert_values_eq)
  qed
qed (simp add: inverted_def)

text \<open>
  inverting a dictionary fails exactly when a value is listed twice, and else maps every value to its
  key; the table of content types can be inverted.
\<close>

theorem invert_dict_correct:
  "invert_dict d =
     (if distinct (concat (map snd d)) then Inr (concat (map (\<lambda>(k, vs). map (\<lambda>v. (v, k)) vs) d)) else Inl ValueError)
   \<and> invert_dict content_type_table = Inr content_types"
proof -
  have all: "invert_dict d = (if distinct (concat (map snd d)) then Inr (inverted d) else Inl ValueError)" for d :: "('x \<times> 'y list) list"
    by (simp add: invert_dict_def invert_items_eq od_keys_def)
  have "distinct (concat (map snd content_type_table))" by (simp add: content_type_table_def)
  then have t: "invert_dict content_type_table = Inr (inverted content_type_table)"
    using invert_items_eq [of "[]" content_type_table] by (simp add: invert_dict_def od_keys_def)
  then have "content_types = inverted content_type_table" by (simp add: content_types_def)
  with t all [of d] show ?thesis by (simp only: inverted_def)
qed

lemma get_port_from_sound: "get_port_from free k = Some p \<Longrightarrow> \<exists>j. p = free j \<and> \<not> is_bad_port p"
  by (erule get_port_from.raw_induct [rotated, where P = "\<lambda>free k p. \<exists>j. p = free j \<and> \<not> is_bad_port p"])
    (auto split: if_splits)

lemma get_port_from_first:
  "\<not> is_bad_port (free (k + n)) \<Longrightarrow> \<forall>j < n. is_bad_port (free (k + j)) \<Longrightarrow> get_port_from free k = Some (free (k + n))"
proof (induction n arbitrary: k)
  case 0
  then show ?case by (simp add: get_port_from.simps [of free k])
next
  case (Suc n)
  have "is_bad_port (free k)" using Suc.prems(2) by (metis add_0_right zero_less_Suc)
  moreover have "get_port_from free (k + 1) = Some (free (k + 1 + n))"
    using Suc.prems by (intro Suc.IH) auto
  ultimately show ?case by (simp add: get_port_from.simps [of free k])
qed

text \<open>
  the search for a free port returns the first answer of the operating system that browsers do not
  refuse, and returns at all exactly when there is one.
\<close>

theorem get_port_first_good:
  "get_port free = (if \<exists>k. \<not> is_bad_port (free k) then Some (free (LEAST k. \<not> is_bad_port (free k))) else None)"
proof (cases "\<exists>k. \<not> is_bad_port (free k)")
  case True
  let ?n = "LEAST k. \<not> is_bad_port (free k)"
  have "\<not> is_bad_port (free (0 + ?n))" using LeastI_ex [OF True] by simp
  moreover have "\<forall>j < ?n. is_bad_port (free (0 + j))"
  proof (intro allI impI)
    fix j assume "j < ?n"
    then show "is_bad_port (free (0 + j))" using not_less_Least [of j "\<lambda>k. \<not> is_bad_port (free k)"] by simp
  qed
  ultimately have "get_port_from free 0 = Some (free (0 + ?n))" by (rule get_port_from_first)
  then show ?thesis using True by (simp only: get_port_def if_True add_0)
next
  case False
  have "get_port_from free 0 = None"
  proof (cases "get_port_from free 0")
    case (Some p)
    then show ?thesis using get_port_from_sound [of free 0 p] False by blast
  qed
  then show ?thesis using False by (simp only: get_port_def if_False)
qed

end
