(* ===== verification/Py_Effects.thy ===== *)
theory Py_Effects
  imports Py_Prelude
begin

text \<open>
  Code that changes a state and may raise: an action takes the state and returns its result, a signal or a
  value, with the state at that point, so the effects before an exception are kept. The locale
  \<open>state_order\<close> holds what the components that prove something about every effect of an action share: a
  preorder on states that each primitive respects is respected by every composed action.
\<close>

type_synonym ('e, 's, 'a) act = "'s \<Rightarrow> ('e + 'a) \<times> 's"

definition give :: "'a \<Rightarrow> ('e, 's, 'a) act" where
  "give x s = (Inr x, s)"

definition raise :: "'e \<Rightarrow> ('e, 's, 'a) act" where
  "raise e s = (Inl e, s)"

definition and_then :: "('e, 's, 'a) act \<Rightarrow> ('a \<Rightarrow> ('e, 's, 'b) act) \<Rightarrow> ('e, 's, 'b) act" where
  "and_then m f s = (case m s of (Inl e, s') \<Rightarrow> (Inl e, s') | (Inr x, s') \<Rightarrow> f x s')"

text \<open>\<open>try: m; except E: handler\<close> for the signals of a class, and \<open>try: m; finally: cleanup\<close>.\<close>

definition try_except :: "('e, 's, 'a) act \<Rightarrow> ('e \<Rightarrow> bool) \<Rightarrow> ('e, 's, 'a) act \<Rightarrow> ('e, 's, 'a) act" where
  "try_except m catches handler s =
     (case m s of (Inl e, s') \<Rightarrow> if catches e then handler s' else (Inl e, s') | r \<Rightarrow> r)"

definition try_finally :: "('e, 's, 'a) act \<Rightarrow> ('e, 's, unit) act \<Rightarrow> ('e, 's, 'a) act" where
  "try_finally m cleanup s =
     (case m s of (r, s') \<Rightarrow> (case cleanup s' of (Inl e, s'') \<Rightarrow> (Inl e, s'') | (Inr _, s'') \<Rightarrow> (r, s'')))"

definition of_res :: "('e + 'a) \<Rightarrow> ('e, 's, 'a) act" where
  "of_res r s = (r, s)"

definition get_state :: "('e, 's, 's) act" where
  "get_state s = (Inr s, s)"

definition change :: "('s \<Rightarrow> 's) \<Rightarrow> ('e, 's, unit) act" where
  "change f s = (Inr (), f s)"

fun for_each :: "('a \<Rightarrow> ('e, 's, unit) act) \<Rightarrow> 'a list \<Rightarrow> ('e, 's, unit) act" where
  "for_each f [] = give ()"
| "for_each f (x # xs) = and_then (f x) (\<lambda>_. for_each f xs)"

lemmas act_defs = give_def raise_def and_then_def of_res_def get_state_def change_def

lemma and_then_Inr [simp]: "m s = (Inr x, s') \<Longrightarrow> and_then m f s = f x s'"
  by (simp add: and_then_def)

lemma and_then_Inl [simp]: "m s = (Inl e, s') \<Longrightarrow> and_then m f s = (Inl e, s')"
  by (simp add: and_then_def)

lemma and_then_eqI: "m s = (Inr x, s') \<Longrightarrow> f x s' = r \<Longrightarrow> and_then m f s = r"
  by simp

lemma act_simps:
  "give x s = (Inr x, s)" "raise e s = (Inl e, s)" "of_res r s = (r, s)" "get_state s = (Inr s, s)"
  "change f s = (Inr (), f s)"
  by (simp_all add: act_defs)

lemma and_then_give [simp]: "and_then (give x) f = f x"
  by (rule ext) (simp add: and_then_def give_def)

lemma of_res_simps [simp]: "of_res (Inr x) = give x" "of_res (Inl e) = raise e"
  by (rule ext, simp add: of_res_def give_def raise_def)+

lemma and_then_raise [simp]: "and_then (raise e) f = raise e"
  by (rule ext) (simp add: and_then_def raise_def)

lemma and_then_get_state: "and_then get_state f s = f s s"
  by (simp add: and_then_def get_state_def)

lemma and_then_change: "and_then (change g) f s = f () (g s)"
  by (simp add: and_then_def change_def)

lemma and_then_assoc: "and_then (and_then m f) g = and_then m (\<lambda>x. and_then (f x) g)"
  by (rule ext) (auto simp: and_then_def split: prod.split sum.split)

lemma for_each_append: "for_each f (xs @ ys) = and_then (for_each f xs) (\<lambda>_. for_each f ys)"
  by (induction xs) (simp_all add: and_then_assoc)

section \<open>Actions that respect an order on states\<close>

definition steps :: "('s \<Rightarrow> 's \<Rightarrow> bool) \<Rightarrow> ('e, 's, 'a) act \<Rightarrow> bool" where
  "steps le m \<longleftrightarrow> (\<forall>s. le s (snd (m s)))"

lemma stepsD: "steps le m \<Longrightarrow> m s = (r, s') \<Longrightarrow> le s s'"
  unfolding steps_def by (metis snd_conv)

locale state_order =
  fixes le :: "'s \<Rightarrow> 's \<Rightarrow> bool"
  assumes le_refl: "le s s" and le_trans: "le s t \<Longrightarrow> le t u \<Longrightarrow> le s u"
begin

lemma steps_pure: "steps le (give x)" "steps le (raise e)" "steps le (of_res r)" "steps le get_state"
  by (simp_all add: steps_def act_simps le_refl)

lemma steps_change: "(\<And>s. le s (f s)) \<Longrightarrow> steps le (change f)"
  by (simp add: steps_def act_simps)

lemma steps_and_then: "steps le m \<Longrightarrow> (\<And>x. steps le (f x)) \<Longrightarrow> steps le (and_then m f)"
  unfolding steps_def and_then_def by (auto split: prod.split sum.split) (metis le_trans snd_conv)+

lemma steps_try_except: "steps le m \<Longrightarrow> steps le h \<Longrightarrow> steps le (try_except m p h)"
  unfolding steps_def try_except_def by (auto split: prod.split sum.split) (metis le_trans snd_conv)+

lemma steps_try_finally: "steps le m \<Longrightarrow> steps le h \<Longrightarrow> steps le (try_finally m h)"
  unfolding steps_def try_finally_def by (auto split: prod.split sum.split) (metis le_trans snd_conv)+

lemma steps_for_each: "(\<And>x. x \<in> set xs \<Longrightarrow> steps le (f x)) \<Longrightarrow> steps le (for_each f xs)"
  by (induction xs) (simp_all add: steps_pure steps_and_then)

lemma steps_if: "(b \<Longrightarrow> steps le m) \<Longrightarrow> (\<not> b \<Longrightarrow> steps le n) \<Longrightarrow> steps le (if b then m else n)"
  by simp

end

end
