(* ===== verification/Response_Writer.thy ===== *)
theory Response_Writer
  imports Http_Headers Wpt_Utils Py_Effects "HOL-Library.Sublist"
begin

text \<open>
  \<open>Response\<close> and \<open>ResponseWriter\<close> of wptserve's response.py: the status, headers and content a handler
  sets, and the writer that puts them on the connection. One state holds the attributes of both objects
  and the bytes sent. The connection may break: the environment says for each call of \<open>wfile.write\<close> whether
  all bytes are sent or only some before an \<open>OSError\<close>. A file of the content is the rest of its bytes.
\<close>

section \<open>Contents\<close>

datatype data = DBytes string | DText ustr

record pyfile =
  file_rest :: string
  file_closed :: bool

datatype chunk = Plain data | File pyfile

text \<open>An item of a list: a value (\<open>None\<close> included) or a function of no arguments, by what a call does.\<close>

datatype item = Value "chunk option" | Call "chunk option res"
datatype content = CData data | CFile pyfile | CItems "item list"

text \<open>\<open>set_error\<close> replaces the header object by a list of pairs.\<close>

datatype header_list = HObject resp_headers | HList "(pyval \<times> pyval) list"

definition header_items :: "header_list \<Rightarrow> (pyval \<times> pyval) list" where
  "header_items hs = (case hs of
     HObject h \<Rightarrow> map (\<lambda>(k, v). (PBytes k, PBytes v)) (rh_items h)
   | HList items \<Rightarrow> items)"

definition text_of :: "string \<Rightarrow> ustr" where
  "text_of s = map of_char s"

definition is_surrogate :: "nat \<Rightarrow> bool" where
  "is_surrogate c \<longleftrightarrow> 55296 \<le> c \<and> c \<le> 57343"

text \<open>\<open>encode\<close>: \<open>str.encode\<close> with UTF-8, which refuses surrogates.\<close>

definition encode :: "data \<Rightarrow> string res" where
  "encode d = (case d of
     DBytes b \<Rightarrow> Inr b
   | DText t \<Rightarrow> if list_ex is_surrogate t then Inl UnicodeError else utf8_encode t)"

definition encode_val :: "pyval \<Rightarrow> string res" where
  "encode_val v = (case v of
     PBytes b \<Rightarrow> Inr b | PStr s \<Rightarrow> encode (DText (text_of s)) | PInt _ \<Rightarrow> Inl ValueError)"

text \<open>\<open>lower\<close> of a text also maps the capital letters of Latin-1.\<close>

definition latin1_lower :: "char \<Rightarrow> char" where
  "latin1_lower c =
     (let n = of_char c in if is_upper c \<or> 192 \<le> n \<and> n \<le> (222 :: nat) \<and> n \<noteq> 215 then char_of (n + 32) else c)"

definition val_lower :: "pyval \<Rightarrow> pyval res" where
  "val_lower v = (case v of
     PBytes b \<Rightarrow> Inr (PBytes (py_lower b)) | PStr s \<Rightarrow> Inr (PStr (map latin1_lower s)) | PInt _ \<Rightarrow> Inl AttributeError)"

section \<open>The state\<close>

record response =
  rs_status :: "int \<times> pyval option"
  rs_headers :: header_list
  rs_content :: content
  rs_required :: bool
  rs_head_body :: bool
  rs_close :: bool
  w_status_written :: bool
  w_seen :: "string set"
  w_complete :: bool
  w_content_written :: bool
  w_out :: string
  w_calls :: nat

text \<open>The request and the handler object, and the behaviour of the connection.\<close>

record server_env =
  rq_method :: string
  rq_protocol :: string
  version_string :: string
  date_string :: string
  wire :: "nat \<Rightarrow> nat option"

type_synonym 'a writing = "(exc, response, 'a) act"

definition new_response :: response where
  "new_response =
     \<lparr>rs_status = (200, None), rs_headers = HObject [], rs_content = CItems [], rs_required = True,
      rs_head_body = False, rs_close = False, w_status_written = False, w_seen = {}, w_complete = False,
      w_content_written = False, w_out = [], w_calls = 0\<rparr>"

section \<open>The status\<close>

text \<open>
  What may be assigned to \<open>status\<close>: a value without a length, or one with: a text, bytes (whose items
  are numbers) or a tuple, whose items may be \<open>None\<close>.
\<close>

datatype status_value = StNum int | StText string | StBytes string | StTuple "pyval option list"

definition status_items :: "status_value \<Rightarrow> pyval option list option" where
  "status_items v = (case v of
     StNum _ \<Rightarrow> None
   | StText s \<Rightarrow> Some (map (\<lambda>c. Some (PStr [c])) s)
   | StBytes b \<Rightarrow> Some (map (\<lambda>c. Some (PInt (of_char c))) b)
   | StTuple items \<Rightarrow> Some items)"

definition val_int :: "pyval option \<Rightarrow> int res" where
  "val_int v = (case v of
     None \<Rightarrow> Inl TypeError
   | Some (PInt i) \<Rightarrow> Inr i
   | Some (PStr s) \<Rightarrow> of_option ValueError (py_int s)
   | Some (PBytes s) \<Rightarrow> of_option ValueError (py_int s))"

definition status_message :: "pyval option \<Rightarrow> pyval" where
  "status_message v = (case v of
     None \<Rightarrow> PStr ''None'' | Some (PInt i) \<Rightarrow> PStr (int_str i) | Some m \<Rightarrow> m)"

definition set_status :: "status_value \<Rightarrow> unit writing" where
  "set_status v = (case v of
     StNum i \<Rightarrow> change (\<lambda>st. st\<lparr>rs_status := (i, None)\<rparr>)
   | _ \<Rightarrow>
      (case status_items v of
         Some [code, message] \<Rightarrow>
           and_then (of_res (val_int code))
             (\<lambda>c. change (\<lambda>st. st\<lparr>rs_status := (c, Some (status_message message))\<rparr>))
       | _ \<Rightarrow> raise ValueError))"

section \<open>The writer\<close>

text \<open>One call of \<open>wfile.write\<close>.\<close>

definition send :: "server_env \<Rightarrow> string \<Rightarrow> bool writing" where
  "send env b st =
     (case wire env (w_calls st) of
        None \<Rightarrow> (Inr True, st\<lparr>w_out := w_out st @ b, w_calls := w_calls st + 1\<rparr>)
      | Some k \<Rightarrow> (Inr False, st\<lparr>w_out := w_out st @ take k b, w_calls := w_calls st + 1\<rparr>))"

definition write_encoded :: "server_env \<Rightarrow> string res \<Rightarrow> bool writing" where
  "write_encoded env d =
     and_then (change (\<lambda>st. st\<lparr>w_content_written := True\<rparr>))
       (\<lambda>_. and_then (of_res d) (send env))"

definition write_val :: "server_env \<Rightarrow> pyval \<Rightarrow> bool writing" where
  "write_val env v = write_encoded env (encode_val v)"

definition write_data :: "server_env \<Rightarrow> data \<Rightarrow> bool writing" where
  "write_data env d = write_encoded env (encode d)"

definition CRLF :: string where
  "CRLF = [CHR 0x0D, CHR 0x0A]"

definition iso_encode_val :: "pyval \<Rightarrow> string res" where
  "iso_encode_val v = (case v of PStr s \<Rightarrow> Inr s | PBytes b \<Rightarrow> Inr b | PInt _ \<Rightarrow> Inl TypeError)"

definition default_message :: "int \<Rightarrow> string" where
  "default_message code = (case map_of response_codes code of Some (m, _) \<Rightarrow> m | None \<Rightarrow> '''')"

definition write_status :: "server_env \<Rightarrow> int \<Rightarrow> pyval option \<Rightarrow> unit writing" where
  "write_status env code message =
     and_then (of_res (iso_encode_val (case message of None \<Rightarrow> PStr (default_message code) | Some m \<Rightarrow> m)))
       (\<lambda>m. and_then (write_val env (PBytes (rq_protocol env @ '' '' @ int_str code @ '' '' @ m @ CRLF)))
         (\<lambda>_. change (\<lambda>st. st\<lparr>w_status_written := True\<rparr>)))"

definition default_status :: int where
  "default_status = 200"

definition seen_header :: "string \<Rightarrow> response \<Rightarrow> bool" where
  "seen_header name st \<longleftrightarrow> py_lower name \<in> w_seen st"

text \<open>\<open>if not self.write(...): return False\<close>.\<close>

definition or_fail :: "bool writing \<Rightarrow> bool writing \<Rightarrow> bool writing" where
  "or_fail m rest = and_then m (\<lambda>ok. if ok then rest else give False)"

definition write_header :: "server_env \<Rightarrow> pyval \<Rightarrow> pyval \<Rightarrow> bool writing" where
  "write_header env name val =
     and_then get_state (\<lambda>st.
     and_then (if w_status_written st then give () else write_status env default_status None) (\<lambda>_.
     and_then (of_res (rbind (val_lower name) encode_val)) (\<lambda>n.
     and_then (change (\<lambda>st. st\<lparr>w_seen := insert n (w_seen st)\<rparr>)) (\<lambda>_.
       or_fail (write_val env name)
         (or_fail (write_val env (PBytes '': ''))
           (or_fail (write_val env (case val of PInt i \<Rightarrow> PStr (int_str i) | _ \<Rightarrow> val))
             (write_val env (PBytes CRLF))))))))"

definition write_missing_header :: "server_env \<Rightarrow> string \<Rightarrow> pyval \<Rightarrow> bool writing" where
  "write_missing_header env name val =
     and_then get_state (\<lambda>st. if seen_header name st then give True else write_header env (PStr name) val)"

definition write_default_headers :: "server_env \<Rightarrow> bool writing" where
  "write_default_headers env =
     or_fail (write_missing_header env ''Server'' (PStr (version_string env)))
       (or_fail (write_missing_header env ''Date'' (PStr (date_string env)))
         (and_then get_state (\<lambda>st.
            case rs_content st of
              CData d \<Rightarrow>
                if seen_header ''content-length'' st then give True
                else and_then (of_res (encode d))
                       (\<lambda>b. write_header env (PStr ''Content-Length'') (PInt (int (length b))))
            | _ \<Rightarrow> give True)))"

definition end_headers :: "server_env \<Rightarrow> bool writing" where
  "end_headers env =
     and_then get_state (\<lambda>st.
       or_fail (if rs_required st then write_default_headers env else give True)
         (or_fail (write_val env (PStr CRLF))
           (and_then (change (\<lambda>st. st\<lparr>rs_close := rs_close st \<or> \<not> seen_header ''content-length'' st,
                                   w_complete := True\<rparr>))
              (\<lambda>_. give True))))"

definition file_chunk_size :: nat where
  "file_chunk_size = 32 * 1024"

function file_chunks :: "nat \<Rightarrow> 'a list \<Rightarrow> 'a list list" where
  "file_chunks n xs = (if n = 0 \<or> xs = [] then [] else take n xs # file_chunks n (drop n xs))"
  by auto

termination file_chunks
  by (relation "measure (\<lambda>(n, xs). length xs)") auto

declare file_chunks.simps [simp del]

text \<open>
  \<open>write_content_file\<close>: the loop ends at the end of the file or the first \<open>OSError\<close>, and in both cases the
  result is \<open>False\<close>.
\<close>

fun write_pieces :: "server_env \<Rightarrow> string list \<Rightarrow> bool writing" where
  "write_pieces env [] = give False"
| "write_pieces env (p # ps) = or_fail (send env p) (write_pieces env ps)"

definition write_content_file :: "server_env \<Rightarrow> pyfile \<Rightarrow> bool writing" where
  "write_content_file env f =
     and_then (change (\<lambda>st. st\<lparr>w_content_written := True\<rparr>))
       (\<lambda>_. if file_closed f then raise ValueError else write_pieces env (file_chunks file_chunk_size (file_rest f)))"

definition write_raw_content :: "server_env \<Rightarrow> chunk option \<Rightarrow> bool writing" where
  "write_raw_content env c = (case c of
     None \<Rightarrow> raise ValueError
   | Some (Plain d) \<Rightarrow> write_data env d
   | Some (File f) \<Rightarrow> write_content_file env f)"

definition content_of_chunk :: "chunk \<Rightarrow> content" where
  "content_of_chunk c = (case c of Plain d \<Rightarrow> CData d | File f \<Rightarrow> CFile f)"

definition writer_content :: "server_env \<Rightarrow> chunk \<Rightarrow> bool writing" where
  "writer_content env c =
     and_then get_state (\<lambda>st.
     and_then (if w_status_written st then give () else write_status env default_status None) (\<lambda>_.
     and_then (if w_complete st then give True
               else and_then (change (\<lambda>st. st\<lparr>rs_content := content_of_chunk c\<rparr>)) (\<lambda>_. end_headers env)) (\<lambda>_.
       write_raw_content env (Some c))))"

section \<open>Writing a response\<close>

definition truthy :: "chunk \<Rightarrow> bool" where
  "truthy c \<longleftrightarrow> c \<noteq> Plain (DBytes []) \<and> c \<noteq> Plain (DText [])"

definition item_value :: "item \<Rightarrow> chunk option res" where
  "item_value i = (case i of Value v \<Rightarrow> Inr v | Call r \<Rightarrow> r)"

text \<open>The chunks \<open>iter_content\<close> yields, lazily: an \<open>Inl\<close> is an exception raised when it is reached.\<close>

definition iter_content :: "content \<Rightarrow> chunk res list" where
  "iter_content c = (case c of
     CData (DBytes b) \<Rightarrow> [Inr (Plain (DBytes b))]
   | CData (DText t) \<Rightarrow> [rbind (encode (DText t)) (\<lambda>b. Inr (Plain (DBytes b)))]
   | CFile f \<Rightarrow>
       if file_closed f then [Inl ValueError]
       else map (\<lambda>p. Inr (Plain (DBytes p))) (file_chunks (32 * 1024) (file_rest f))
   | CItems items \<Rightarrow>
       concat (map (\<lambda>i. case item_value i of
                      Inl e \<Rightarrow> [Inl e]
                    | Inr None \<Rightarrow> []
                    | Inr (Some v) \<Rightarrow> if truthy v then [Inr v] else []) items))"

definition is_file :: "content \<Rightarrow> bool" where
  "is_file c \<longleftrightarrow> (case c of CFile _ \<Rightarrow> True | _ \<Rightarrow> False)"

text \<open>
  The loop over a file reads \<open>self.content\<close> again for each chunk, and the writer replaces the content when
  the headers are not complete: then the next \<open>read\<close> is called on bytes.
\<close>

definition write_file_chunk :: "server_env \<Rightarrow> chunk res \<Rightarrow> unit writing" where
  "write_file_chunk env r =
     and_then get_state (\<lambda>st.
       if is_file (rs_content st) then and_then (of_res r) (\<lambda>c. and_then (writer_content env c) (\<lambda>_. give ()))
       else raise AttributeError)"

definition close_content :: "unit writing" where
  "close_content =
     and_then get_state (\<lambda>st.
       if is_file (rs_content st)
       then change (\<lambda>st. st\<lparr>rs_content := CFile \<lparr>file_rest = [], file_closed = True\<rparr>\<rparr>)
       else raise AttributeError)"

definition write_item_chunk :: "server_env \<Rightarrow> chunk res \<Rightarrow> unit writing" where
  "write_item_chunk env r = and_then (of_res r) (\<lambda>c. and_then (writer_content env c) (\<lambda>_. give ()))"

definition write_status_headers :: "server_env \<Rightarrow> unit writing" where
  "write_status_headers env =
     and_then get_state (\<lambda>st.
     and_then (write_status env (fst (rs_status st)) (snd (rs_status st))) (\<lambda>_.
     and_then (for_each (\<lambda>(k, v). and_then (write_header env k v) (\<lambda>_. give ())) (header_items (rs_headers st))) (\<lambda>_.
     and_then (end_headers env) (\<lambda>_. give ()))))"

definition write_content :: "server_env \<Rightarrow> unit writing" where
  "write_content env =
     and_then get_state (\<lambda>st.
       if rq_method env = ''HEAD'' \<and> \<not> rs_head_body st then give ()
       else if is_file (rs_content st)
       then and_then (for_each (write_file_chunk env) (iter_content (rs_content st))) (\<lambda>_. close_content)
       else for_each (write_item_chunk env) (iter_content (rs_content st)))"

definition write_response :: "server_env \<Rightarrow> unit writing" where
  "write_response env = and_then (write_status_headers env) (\<lambda>_. write_content env)"

section \<open>A broken connection\<close>

text \<open>
  Bytes are only added to the output, and once a call has failed on a connection that stays broken nothing
  is added any more. Both are preorders on states that every operation of the writer respects.
\<close>

definition out_grows :: "response \<Rightarrow> response \<Rightarrow> bool" where
  "out_grows s t \<longleftrightarrow> prefix (w_out s) (w_out t)"

definition stays_broken :: "(nat \<Rightarrow> nat option) \<Rightarrow> bool" where
  "stays_broken w \<longleftrightarrow> (\<forall>i j. w i \<noteq> None \<and> i < j \<longrightarrow> w j = Some 0)"

definition broken :: "server_env \<Rightarrow> response \<Rightarrow> bool" where
  "broken env s \<longleftrightarrow> (\<exists>i < w_calls s. wire env i \<noteq> None)"

definition stuck :: "server_env \<Rightarrow> response \<Rightarrow> response \<Rightarrow> bool" where
  "stuck env s t \<longleftrightarrow> (broken env s \<longrightarrow> broken env t \<and> w_out t = w_out s)"

interpretation grow: state_order out_grows
  by unfold_locales (auto simp: out_grows_def)

interpretation stuck: state_order "stuck env" for env
  by unfold_locales (auto simp: stuck_def)

definition working :: "server_env \<Rightarrow> server_env" where
  "working env = env\<lparr>wire := (\<lambda>_. None)\<rparr>"

text \<open>
  An action on the connection against the same on a working one: they agree, or the first met a failure and
  its output is a prefix of the second's.
\<close>

definition cuts :: "server_env \<Rightarrow> 'a writing \<Rightarrow> 'a writing \<Rightarrow> bool" where
  "cuts env m m' \<longleftrightarrow> steps (stuck env) m \<and> steps out_grows m'
     \<and> (\<forall>s. \<not> broken env s \<longrightarrow> m s = m' s \<and> \<not> broken env (snd (m s))
           \<or> broken env (snd (m s)) \<and> prefix (w_out (snd (m s))) (w_out (snd (m' s))))"

lemma cuts_send:
  assumes "stays_broken (wire env)" shows "cuts env (send env b) (send (working env) b)"
proof -
  have "wire env (w_calls s) = Some 0" if "broken env s" for s
    using that assms by (auto simp: broken_def stays_broken_def)
  then have "steps (stuck env) (send env b)"
    by (auto simp: steps_def stuck_def send_def broken_def split: option.split)
  moreover have "steps out_grows (send (working env) b)"
    by (simp add: steps_def out_grows_def send_def working_def)
  ultimately show ?thesis
    by (auto simp: cuts_def send_def working_def broken_def less_Suc_eq take_is_prefix split: option.split)
qed

lemma cuts_pure [intro!]: "cuts env (give x) (give x)" "cuts env (raise e) (raise e)" "cuts env (of_res r) (of_res r)"
  "cuts env get_state get_state"
  unfolding cuts_def by (simp_all add: stuck.steps_pure grow.steps_pure act_simps)

lemma cuts_change:
  assumes "\<And>s. w_out (f s) = w_out s" "\<And>s. w_calls (f s) = w_calls s"
  shows "cuts env (change f) (change f)"
  unfolding cuts_def
  by (simp add: stuck.steps_change grow.steps_change stuck_def out_grows_def broken_def assms act_simps)

lemma cuts_and_then:
  assumes m: "cuts env m m'" and f: "\<And>x. cuts env (f x) (f' x)"
  shows "cuts env (and_then m f) (and_then m' f')"
proof -
  have "steps (stuck env) (and_then m f)" "steps out_grows (and_then m' f')"
    using m f by (auto simp: cuts_def intro: stuck.steps_and_then grow.steps_and_then)
  moreover have "and_then m f s = and_then m' f' s \<and> \<not> broken env (snd (and_then m f s))
      \<or> broken env (snd (and_then m f s)) \<and> prefix (w_out (snd (and_then m f s))) (w_out (snd (and_then m' f' s)))"
    if s: "\<not> broken env s" for s
  proof (cases "broken env (snd (m s))")
    case True
    have "stuck env (snd (m s)) (snd (and_then m f s))"
      using f stuck.le_refl by (auto simp: cuts_def steps_def and_then_def split: prod.split sum.split)
    moreover have "out_grows (snd (m' s)) (snd (and_then m' f' s))"
      using f grow.le_refl by (auto simp: cuts_def steps_def and_then_def split: prod.split sum.split)
    ultimately show ?thesis
      using m s True unfolding cuts_def stuck_def out_grows_def by (metis prefix_order.trans)
  next
    case False
    then have "m s = m' s" using m s by (auto simp: cuts_def)
    then show ?thesis using False f
      by (cases "m' s") (auto simp: cuts_def and_then_def split: sum.splits)
  qed
  ultimately show ?thesis by (simp add: cuts_def)
qed

lemmas cuts_rules = cuts_and_then cuts_pure cuts_change

lemma cuts_or_fail: "cuts env m m' \<Longrightarrow> cuts env r r' \<Longrightarrow> cuts env (or_fail m r) (or_fail m' r')"
  unfolding or_fail_def by (intro cuts_and_then) auto

lemma cuts_if: "(b \<Longrightarrow> cuts env m m') \<Longrightarrow> (\<not> b \<Longrightarrow> cuts env n n') \<Longrightarrow>
    cuts env (if b then m else n) (if b then m' else n')"
  by simp

lemma cuts_for_each: "(\<And>x. cuts env (f x) (f' x)) \<Longrightarrow> cuts env (for_each f xs) (for_each f' xs)"
  by (induction xs) (auto intro: cuts_and_then)

lemma working_simps [simp]: "rq_method (working env) = rq_method env" "rq_protocol (working env) = rq_protocol env"
  "version_string (working env) = version_string env" "date_string (working env) = date_string env"
  by (simp_all add: working_def)

lemma cuts_write_encoded:
  assumes sb: "stays_broken (wire env)"
  shows "cuts env (write_encoded env d) (write_encoded (working env) d)"
  unfolding write_encoded_def by (intro cuts_rules cuts_send [OF sb]) simp_all

lemma cuts_write_status:
  assumes sb: "stays_broken (wire env)"
  shows "cuts env (write_status env code m) (write_status (working env) code m)"
  unfolding write_status_def write_val_def working_simps by (intro cuts_rules cuts_write_encoded [OF sb]) simp_all

lemma cuts_write_header:
  assumes sb: "stays_broken (wire env)"
  shows "cuts env (write_header env k v) (write_header (working env) k v)"
  unfolding write_header_def write_val_def
  by (intro cuts_rules cuts_or_fail cuts_if cuts_write_encoded [OF sb] cuts_write_status [OF sb]) simp_all

lemma cuts_end_headers:
  assumes sb: "stays_broken (wire env)"
  shows "cuts env (end_headers env) (end_headers (working env))"
proof -
  have "cuts env (write_missing_header env n v) (write_missing_header (working env) n v)" for n v
    unfolding write_missing_header_def by (intro cuts_rules cuts_if cuts_write_header [OF sb])
  then have "cuts env (write_default_headers env) (write_default_headers (working env))"
    unfolding write_default_headers_def working_simps
    by (intro cuts_rules cuts_or_fail) (auto split: content.split intro!: cuts_rules cuts_write_header [OF sb])
  then show ?thesis
    unfolding end_headers_def write_val_def
    by (intro cuts_rules cuts_or_fail cuts_if cuts_write_encoded [OF sb]) simp_all
qed

lemma cuts_writer_content:
  assumes sb: "stays_broken (wire env)"
  shows "cuts env (writer_content env c) (writer_content (working env) c)"
proof -
  have "cuts env (write_pieces env ps) (write_pieces (working env) ps)" for ps
    by (induction ps) (auto intro: cuts_or_fail cuts_send [OF sb])
  then have f: "cuts env (write_content_file env f) (write_content_file (working env) f)" for f
    unfolding write_content_file_def by (intro cuts_rules cuts_if) simp_all
  have "cuts env (write_raw_content env (Some c)) (write_raw_content (working env) (Some c))"
    unfolding write_raw_content_def write_data_def by (auto split: chunk.split intro: f cuts_write_encoded [OF sb])
  then show ?thesis
    unfolding writer_content_def by (intro cuts_rules cuts_if cuts_write_status [OF sb] cuts_end_headers [OF sb]) simp_all
qed

lemma cuts_write_response:
  assumes sb: "stays_broken (wire env)"
  shows "cuts env (write_response env) (write_response (working env))"
proof -
  have "cuts env (write_status_headers env) (write_status_headers (working env))"
    unfolding write_status_headers_def
    by (intro cuts_rules cuts_for_each cuts_write_status [OF sb] cuts_end_headers [OF sb]) (auto split: prod.split intro: cuts_rules cuts_write_header [OF sb])
  moreover have "cuts env (write_content env) (write_content (working env))"
    unfolding write_content_def write_file_chunk_def write_item_chunk_def close_content_def working_simps
    by (intro cuts_rules cuts_for_each cuts_if cuts_writer_content [OF sb]) simp_all
  ultimately show ?thesis unfolding write_response_def by (intro cuts_rules)
qed

section \<open>What a working connection gets\<close>

text \<open>The action returns \<open>r\<close>, sends \<open>out\<close>, adds header names, and changes no attribute the code reads.\<close>

definition sends :: "'a writing \<Rightarrow> response \<Rightarrow> 'a \<Rightarrow> string \<Rightarrow> string set \<Rightarrow> response \<Rightarrow> bool" where
  "sends m st r out names st' \<longleftrightarrow> m st = (Inr r, st') \<and> w_out st' = w_out st @ out \<and> w_seen st' = w_seen st \<union> names
     \<and> rs_status st' = rs_status st \<and> rs_headers st' = rs_headers st \<and> rs_content st' = rs_content st
     \<and> rs_required st' = rs_required st \<and> rs_head_body st' = rs_head_body st \<and> rs_close st' = rs_close st
     \<and> w_status_written st' = w_status_written st \<and> w_complete st' = w_complete st"

lemma sends_send: "\<exists>st'. sends (send (working env) b) st True b {} st'"
  by (simp add: sends_def send_def working_def)

lemma sends_give: "\<exists>st'. sends (give x) st x [] {} st'"
  by (simp add: sends_def act_simps)

lemma sends_and_then:
  "sends m st x out names st1 \<Longrightarrow> \<exists>st2. sends (f x) st1 r out2 names2 st2 \<Longrightarrow>
     \<exists>st'. sends (and_then m f) st r (out @ out2) (names \<union> names2) st'"
  by (auto simp: sends_def)

lemma sends_or_fail:
  assumes "\<exists>st1. sends m st True out names st1" "\<And>s. \<exists>s'. sends rest s r out2 names2 s'"
  shows "\<exists>st'. sends (or_fail m rest) st r (out @ out2) (names \<union> names2) st'"
  unfolding or_fail_def using assms sends_and_then [where f = "\<lambda>ok. if ok then rest else give False"]
  by (metis (full_types))

lemma sends_or_fail_at:
  "sends m st True out names st1 \<Longrightarrow> sends rest st1 r out2 names2 st2 \<Longrightarrow>
     sends (or_fail m rest) st r (out @ out2) (names \<union> names2) st2"
  by (auto simp: sends_def or_fail_def)

lemma sends_write_encoded:
  assumes "d = Inr b" shows "\<exists>st'. sends (write_encoded (working env) d) st True b {} st'"
  using sends_send [of env b "st\<lparr>w_content_written := True\<rparr>"]
  by (auto simp: write_encoded_def assms and_then_def act_simps sends_def)

lemma sends_write_val: "encode_val v = Inr b \<Longrightarrow> \<exists>st'. sends (write_val (working env) v) st True b {} st'"
  unfolding write_val_def by (rule sends_write_encoded)

lemma encode_val_bytes [simp]: "encode_val (PBytes b) = Inr b"
  by (simp add: encode_val_def)

lemma encode_val_ascii:
  assumes "is_ascii s" shows "encode_val (PStr s) = Inr s"
proof -
  have "rmap (\<lambda>c. of_option UnicodeError (utf8_point c)) (text_of s) = Inr (map (\<lambda>c. [of_char c]) s)"
    using assms by (induction s) (simp_all add: is_ascii_def text_of_def utf8_point_def)
  moreover have "\<not> list_ex is_surrogate (text_of s)"
    using assms by (induction s) (auto simp: is_ascii_def text_of_def is_surrogate_def)
  moreover have "map char_of (concat (map (\<lambda>c. [of_char c :: nat]) s)) = s" by (induction s) simp_all
  ultimately show ?thesis by (simp add: encode_val_def encode_def utf8_encode_def)
qed

definition header_line :: "string \<times> string \<Rightarrow> string" where
  "header_line = (\<lambda>(k, v). k @ '': '' @ v @ CRLF)"

lemma sends_write_header:
  assumes "w_status_written st" "rbind (val_lower name) encode_val = Inr n" "encode_val name = Inr nb"
    "encode_val (case v of PInt i \<Rightarrow> PStr (int_str i) | _ \<Rightarrow> v) = Inr vb"
  shows "\<exists>st'. sends (write_header (working env) name v) st True (header_line (nb, vb)) {n} st'"
proof -
  let ?st = "st\<lparr>w_seen := insert n (w_seen st)\<rparr>"
  have crlf: "encode_val (PBytes CRLF) = Inr CRLF" "encode_val (PBytes '': '') = Inr '': ''" by simp_all
  have "\<exists>st'. sends (or_fail (write_val (working env) name) (or_fail (write_val (working env) (PBytes '': ''))
         (or_fail (write_val (working env) (case v of PInt i \<Rightarrow> PStr (int_str i) | _ \<Rightarrow> v))
           (write_val (working env) (PBytes CRLF))))) ?st True (nb @ '': '' @ vb @ CRLF) ({} \<union> ({} \<union> ({} \<union> {}))) st'"
    by (intro sends_or_fail sends_write_val assms crlf)
  then show ?thesis
    using assms(1,2) by (auto simp: write_header_def header_line_def and_then_def act_simps sends_def)
qed

lemma lower_names [simp]:
  "py_lower ''Server'' = ''server''" "py_lower ''Date'' = ''date''" "py_lower ''content-length'' = ''content-length''"
  "py_lower ''Content-Length'' = ''content-length''"
  by code_simp+

lemma ascii_names [simp]:
  "is_ascii ''Server''" "is_ascii ''Date''" "is_ascii ''Content-Length''" "is_ascii CRLF" "is_ascii ''server''"
  "is_ascii ''date''" "is_ascii ''content-length''"
  by (simp_all add: is_ascii_def CRLF_def)

lemma latin1_lower_ascii: "is_ascii s \<Longrightarrow> map latin1_lower s = py_lower s"
  by (induction s) (auto simp: is_ascii_def py_lower_def latin1_lower_def lower_char_def Let_def)

lemma is_ascii_py_lower: "is_ascii s \<Longrightarrow> is_ascii (py_lower s)"
  by (induction s) (auto simp: is_ascii_def py_lower_def of_char_lower_char is_upper_def)

lemma ascii_name: "is_ascii n \<Longrightarrow> rbind (val_lower (PStr n)) encode_val = Inr (py_lower n)"
  by (simp add: val_lower_def latin1_lower_ascii encode_val_ascii is_ascii_py_lower)

lemma is_ascii_int_str: "is_ascii (int_str i)"
proof -
  have "is_ascii (nat_str n)" for n
    using nat_str_digits by (fastforce simp: is_ascii_def list_all_iff is_digit_def)
  then show ?thesis by (auto simp: int_str_def is_ascii_def)
qed

lemma sends_missing_header:
  assumes "w_status_written st" "is_ascii name"
    "encode_val (case v of PInt i \<Rightarrow> PStr (int_str i) | _ \<Rightarrow> v) = Inr vb"
  shows "\<exists>st'. sends (write_missing_header (working env) name v) st True
      (if py_lower name \<in> w_seen st then [] else header_line (name, vb)) {py_lower name} st'"
proof (cases "py_lower name \<in> w_seen st")
  case True
  then show ?thesis by (auto simp: write_missing_header_def seen_header_def sends_def and_then_def act_simps)
next
  case False
  then show ?thesis
    using sends_write_header [OF assms(1) ascii_name [OF assms(2)] encode_val_ascii [OF assms(2)] assms(3), of env]
    by (auto simp: write_missing_header_def seen_header_def and_then_def act_simps sends_def)
qed

text \<open>The headers the server adds when the response does not have them.\<close>

definition added_headers :: "server_env \<Rightarrow> string set \<Rightarrow> nat \<Rightarrow> (string \<times> string) list" where
  "added_headers env names n =
     filter (\<lambda>(k, _). py_lower k \<notin> names)
       [(''Server'', version_string env), (''Date'', date_string env), (''Content-Length'', int_str (int n))]"

lemma sends_default_headers:
  assumes "w_status_written st" "rs_content st = CData d" "encode d = Inr body"
    "is_ascii (version_string env)" "is_ascii (date_string env)"
  shows "\<exists>st'. sends (write_default_headers (working env)) st True
      (concat (map header_line (added_headers env (w_seen st) (length body)))) {''server'', ''date'', ''content-length''} st'"
proof -
  let ?line = "\<lambda>k v. if py_lower k \<in> w_seen st then [] else header_line (k, v)"
  obtain st1 where s1: "sends (write_missing_header (working env) ''Server'' (PStr (version_string (working env)))) st True
      (?line ''Server'' (version_string env)) {''server''} st1"
    using sends_missing_header [of st "''Server''" "PStr (version_string env)" "version_string env" env] assms(1,4)
    by (simp add: encode_val_ascii) blast
  then have f1: "w_status_written st1" "w_seen st1 = insert ''server'' (w_seen st)" "rs_content st1 = CData d"
    using assms(1,2) by (simp_all add: sends_def)
  obtain st2 where s2: "sends (write_missing_header (working env) ''Date'' (PStr (date_string (working env)))) st1 True
      (?line ''Date'' (date_string env)) {''date''} st2"
    using sends_missing_header [of st1 "''Date''" "PStr (date_string env)" "date_string env" env] f1 assms(5)
    by (simp add: encode_val_ascii) blast
  then have f2: "w_status_written st2" "w_seen st2 = insert ''date'' (w_seen st1)" "rs_content st2 = CData d"
    using f1 by (simp_all add: sends_def)
  have "\<exists>st3. sends (if seen_header ''content-length'' st2 then give True
         else and_then (of_res (encode d)) (\<lambda>b. write_header (working env) (PStr ''Content-Length'') (PInt (int (length b)))))
       st2 True (?line ''Content-Length'' (int_str (int (length body)))) {''content-length''} st3"
    using sends_missing_header [OF f2(1), of "''Content-Length''" "PInt (int (length body))" "int_str (int (length body))" env] f1 f2
    by (cases "''content-length'' \<in> w_seen st")
      (simp_all add: write_missing_header_def seen_header_def encode_val_ascii is_ascii_int_str assms(3)
        sends_def and_then_get_state)
  then obtain st3 where s3: "sends (and_then get_state (\<lambda>st. case rs_content st of
        CData d \<Rightarrow> if seen_header ''content-length'' st then give True
          else and_then (of_res (encode d)) (\<lambda>b. write_header (working env) (PStr ''Content-Length'') (PInt (int (length b))))
      | _ \<Rightarrow> give True)) st2 True (?line ''Content-Length'' (int_str (int (length body)))) {''content-length''} st3"
    using f2(3) by (auto simp: sends_def and_then_def act_simps)
  have "concat (map header_line (added_headers env (w_seen st) (length body))) =
      ?line ''Server'' (version_string env) @ ?line ''Date'' (date_string env)
      @ ?line ''Content-Length'' (int_str (int (length body)))"
    by (simp add: added_headers_def)
  moreover have "sends (write_default_headers (working env)) st True
      (?line ''Server'' (version_string env) @ ?line ''Date'' (date_string env) @ ?line ''Content-Length'' (int_str (int (length body))))
      ({''server''} \<union> ({''date''} \<union> {''content-length''})) st3"
    unfolding write_default_headers_def by (rule sends_or_fail_at [OF s1 sends_or_fail_at [OF s2 s3]])
  ultimately show ?thesis by (intro exI [of _ st3]) (simp add: insert_commute)
qed

lemma sends_header_items:
  "w_status_written st \<Longrightarrow>
     \<exists>st'. sends (for_each (\<lambda>(k, v). and_then (write_header (working env) k v) (\<lambda>_. give ()))
                   (map (\<lambda>(k, v). (PBytes k, PBytes v)) items)) st ()
            (concat (map header_line items)) ((py_lower \<circ> fst) ` set items) st'"
proof (induction items arbitrary: st)
  case (Cons kv items)
  obtain k v where kv: "kv = (k, v)" by (cases kv)
  have "rbind (val_lower (PBytes k)) encode_val = Inr (py_lower k)" by (simp add: val_lower_def)
  then obtain st1 where s1: "sends (write_header (working env) (PBytes k) (PBytes v)) st True (header_line (k, v)) {py_lower k} st1"
    using sends_write_header [OF Cons.prems, of "PBytes k" "py_lower k" k "PBytes v" v env] by auto
  have "sends (give ()) st1 () [] {} st1" by (simp add: sends_def give_def)
  then obtain st2 where s2: "sends (and_then (write_header (working env) (PBytes k) (PBytes v)) (\<lambda>_. give ())) st ()
      (header_line (k, v)) {py_lower k} st2"
    using sends_and_then [OF s1, of "\<lambda>_. give ()" "()" "[]" "{}"] by auto
  then have "w_status_written st2" using Cons.prems by (simp add: sends_def)
  from Cons.IH [OF this] show ?case
    using sends_and_then [OF s2] by (simp add: kv)
qed (simp add: sends_give)

definition status_text :: "response \<Rightarrow> string res" where
  "status_text st = iso_encode_val
     (case snd (rs_status st) of None \<Rightarrow> PStr (default_message (fst (rs_status st))) | Some m \<Rightarrow> m)"

lemma sends_end_headers:
  assumes "w_status_written st" "rs_content st = CData d" "encode d = Inr body" "rs_required st"
    "is_ascii (version_string env)" "is_ascii (date_string env)"
  shows "\<exists>st'. end_headers (working env) st = (Inr True, st') \<and> w_complete st'
     \<and> w_out st' = w_out st @ concat (map header_line (added_headers env (w_seen st) (length body))) @ CRLF
     \<and> w_status_written st' \<and> rs_content st' = CData d \<and> rs_head_body st' = rs_head_body st \<and> rs_close st' = rs_close st"
proof -
  obtain st1 where s1: "sends (write_default_headers (working env)) st True
      (concat (map header_line (added_headers env (w_seen st) (length body)))) {''server'', ''date'', ''content-length''} st1"
    using sends_default_headers [OF assms(1,2,3,5,6)] by blast
  obtain st2 where s2: "sends (write_val (working env) (PStr CRLF)) st1 True CRLF {} st2"
    using sends_write_val [OF encode_val_ascii, of CRLF] by auto
  have "end_headers (working env) st =
      (Inr True, st2\<lparr>rs_close := rs_close st2 \<or> \<not> seen_header ''content-length'' st2, w_complete := True\<rparr>)"
    using s1 s2 assms(4)
    by (simp add: end_headers_def and_then_get_state or_fail_def and_then_change act_simps sends_def)
  then show ?thesis using s1 s2 assms(1,2) by (simp add: sends_def seen_header_def)
qed

text \<open>
  The status line and the headers, for any headers that can be sent and any content: \<open>extra\<close> is what
  \<open>end_headers\<close> adds, and \<open>closing\<close> whether it closes the connection.
\<close>

definition status_line :: "server_env \<Rightarrow> response \<Rightarrow> string \<Rightarrow> string" where
  "status_line env st msg = rq_protocol env @ '' '' @ int_str (fst (rs_status st)) @ '' '' @ msg @ CRLF"

definition ends_headers :: "server_env \<Rightarrow> response \<Rightarrow> string \<Rightarrow> bool \<Rightarrow> response \<Rightarrow> bool" where
  "ends_headers env st extra closing st' \<longleftrightarrow> end_headers (working env) st = (Inr True, st') \<and> w_complete st'
     \<and> w_out st' = w_out st @ extra \<and> w_status_written st' \<and> rs_content st' = rs_content st
     \<and> rs_head_body st' = rs_head_body st \<and> rs_close st' = (rs_close st \<or> closing)"

lemma headers_sent:
  assumes "status_text st = Inr msg" and "rs_required st" and "w_seen st = {}"
    and items: "\<And>s. w_status_written s \<Longrightarrow> \<exists>s'. sends (for_each (\<lambda>(k, v). and_then (write_header (working env) k v) (\<lambda>_. give ()))
        (header_items (rs_headers st))) s () hs names s'"
    and ends: "\<And>s. w_status_written s \<Longrightarrow> w_seen s = names \<Longrightarrow> rs_content s = rs_content st \<Longrightarrow> rs_required s \<Longrightarrow>
        \<exists>s'. ends_headers env s extra closing s'"
  shows "\<exists>st3. write_status_headers (working env) st = (Inr (), st3) \<and> w_out st3 = w_out st @ status_line env st msg @ hs @ extra
     \<and> w_complete st3 \<and> w_status_written st3 \<and> rs_content st3 = rs_content st \<and> rs_head_body st3 = rs_head_body st
     \<and> rs_close st3 = (rs_close st \<or> closing)"
proof -
  let ?line = "status_line env st msg"
  obtain st1 where s1: "sends (write_val (working env) (PBytes ?line)) st True ?line {} st1"
    using sends_write_val [of "PBytes ?line" ?line env st] by auto
  let ?st1 = "st1\<lparr>w_status_written := True\<rparr>"
  have "write_status (working env) (fst (rs_status st)) (snd (rs_status st)) =
      and_then (write_val (working env) (PBytes ?line)) (\<lambda>_. change (\<lambda>st. st\<lparr>w_status_written := True\<rparr>))"
    using assms(1) unfolding write_status_def status_text_def status_line_def by simp
  then have status: "write_status (working env) (fst (rs_status st)) (snd (rs_status st)) st = (Inr (), ?st1)"
    using s1 by (simp add: sends_def act_simps)
  obtain st2 where s2: "sends (for_each (\<lambda>(k, v). and_then (write_header (working env) k v) (\<lambda>_. give ()))
        (header_items (rs_headers st))) ?st1 () hs names st2"
    using items [of ?st1] by auto
  have st2: "w_status_written st2" "w_seen st2 = names" "rs_content st2 = rs_content st" "rs_required st2"
    "rs_head_body st2 = rs_head_body st" "rs_close st2 = rs_close st" "w_out st2 = w_out st @ ?line @ hs"
    using s1 s2 assms(2,3) by (simp_all add: sends_def)
  obtain st3 where e: "ends_headers env st2 extra closing st3" using ends [OF st2(1-4)] by blast
  have "write_status_headers (working env) st = (Inr (), st3)"
    using status s2 e by (simp add: write_status_headers_def and_then_get_state sends_def ends_headers_def give_def)
  then show ?thesis using e st2 by (simp add: ends_headers_def)
qed

lemma sends_object_headers:
  "w_status_written s \<Longrightarrow> \<exists>s'. sends (for_each (\<lambda>(k, v). and_then (write_header (working env) k v) (\<lambda>_. give ()))
      (header_items (HObject h))) s () (concat (map header_line (rh_items h))) ((py_lower \<circ> fst) ` set (rh_items h)) s'"
  using sends_header_items [of s env "rh_items h"] by (simp add: header_items_def)

lemma data_ends_headers:
  assumes "w_status_written s" "rs_content s = CData d" "encode d = Inr body" "rs_required s"
    "is_ascii (version_string env)" "is_ascii (date_string env)"
  shows "\<exists>s'. ends_headers env s (concat (map header_line (added_headers env (w_seen s) (length body))) @ CRLF) False s'"
  using sends_end_headers [OF assms] assms(2) by (simp add: ends_headers_def)

lemma data_content_sent:
  assumes "rs_content st = CData d" "encode d = Inr body" "w_complete st" "w_status_written st"
  shows "\<exists>st'. write_content (working env) st = (Inr (), st')
     \<and> w_out st' = w_out st @ (if rq_method env = ''HEAD'' \<and> \<not> rs_head_body st then [] else body) \<and> rs_close st' = rs_close st"
proof -
  have "iter_content (CData d) = [Inr (Plain (DBytes body))]"
    using assms(2) by (cases d) (simp_all add: iter_content_def encode_def)
  moreover obtain st4 where s4: "sends (write_encoded (working env) (Inr body)) st True body {} st4"
    using sends_write_encoded [OF refl] by blast
  moreover have "write_item_chunk (working env) (Inr (Plain (DBytes body))) st = (Inr (), st4)"
    using s4 assms by (simp add: write_item_chunk_def writer_content_def write_raw_content_def write_data_def encode_def
        and_then_get_state sends_def give_def)
  ultimately show ?thesis
    using assms(1) by (auto simp: write_content_def and_then_get_state is_file_def give_def working_def sends_def)
qed

lemma data_response_sent:
  assumes "rs_headers st = HObject h" and "rs_content st = CData d" and "encode d = Inr body"
    and "status_text st = Inr msg" and "rs_required st" and "w_seen st = {}"
    and "is_ascii (version_string env)" and "is_ascii (date_string env)"
  shows "\<exists>st'. write_response (working env) st = (Inr (), st')
     \<and> w_out st' = w_out st @ rq_protocol env @ '' '' @ int_str (fst (rs_status st)) @ '' '' @ msg @ CRLF
         @ concat (map header_line (rh_items h @ added_headers env ((py_lower \<circ> fst) ` set (rh_items h)) (length body)))
         @ CRLF @ (if rq_method env = ''HEAD'' \<and> \<not> rs_head_body st then [] else body)
     \<and> rs_close st' = rs_close st"
proof -
  have items: "\<And>s. w_status_written s \<Longrightarrow> \<exists>s'. sends (for_each (\<lambda>(k, v). and_then (write_header (working env) k v) (\<lambda>_. give ()))
        (header_items (rs_headers st))) s () (concat (map header_line (rh_items h))) ((py_lower \<circ> fst) ` set (rh_items h)) s'"
    using sends_object_headers by (simp add: assms(1))
  obtain st3 where "write_status_headers (working env) st = (Inr (), st3)"
    "w_out st3 = w_out st @ status_line env st msg @ concat (map header_line (rh_items h))
       @ concat (map header_line (added_headers env ((py_lower \<circ> fst) ` set (rh_items h)) (length body))) @ CRLF"
    "w_complete st3" "w_status_written st3" "rs_content st3 = CData d" "rs_head_body st3 = rs_head_body st" "rs_close st3 = rs_close st"
    using headers_sent [OF assms(4-6) items, of "concat (map header_line (added_headers env ((py_lower \<circ> fst) ` set (rh_items h)) (length body))) @ CRLF" False]
      data_ends_headers [OF _ _ assms(3) _ assms(7,8)] assms(2) by force
  then show ?thesis
    using data_content_sent [of st3 d body env] assms(3) by (auto simp: write_response_def status_line_def)
qed

text \<open>
  C3: what a client receives: on a working connection the response is the status line, the headers of the
  handler in order, then \<open>Server\<close>, \<open>Date\<close> and \<open>Content-Length\<close> unless the handler set them, an empty line and
  the encoded body, which is left out for HEAD. The connection is not closed for want of a length.
\<close>

theorem response_on_the_wire:
  assumes "rs_headers st = HObject h" and "rs_content st = CData d" and "encode d = Inr body"
    and "status_text st = Inr msg" and "rs_required st" and "w_seen st = {}"
    and "is_ascii (version_string env)" and "is_ascii (date_string env)"
  shows "\<exists>st'. write_response (working env) st = (Inr (), st')
     \<and> w_out st' = w_out st @ rq_protocol env @ '' '' @ int_str (fst (rs_status st)) @ '' '' @ msg @ CRLF
         @ concat (map header_line (rh_items h @ added_headers env ((py_lower \<circ> fst) ` set (rh_items h)) (length body)))
         @ CRLF @ (if rq_method env = ''HEAD'' \<and> \<not> rs_head_body st then [] else body)
     \<and> rs_close st' = rs_close st"
  using assms by (rule data_response_sent)

text \<open>An error response: its headers are a list.\<close>

lemma sends_list_headers:
  "w_status_written s \<Longrightarrow> list_all (\<lambda>(k, v). is_ascii k \<and> (case v of PStr t \<Rightarrow> is_ascii t | _ \<Rightarrow> True)) items \<Longrightarrow>
   \<exists>s'. sends (for_each (\<lambda>(k, v). and_then (write_header (working env) k v) (\<lambda>_. give ())) (map (\<lambda>(k, v). (PStr k, v)) items)) s ()
      (concat (map (\<lambda>(k, v). header_line (k, maybe_encode v)) items)) ((py_lower \<circ> fst) ` set items) s'"
proof (induction items arbitrary: s)
  case (Cons kv items)
  obtain k v where kv: "kv = (k, v)" by (cases kv)
  have k: "is_ascii k" and v: "case v of PStr t \<Rightarrow> is_ascii t | _ \<Rightarrow> True" using Cons.prems by (auto simp: kv)
  have "encode_val (case v of PInt i \<Rightarrow> PStr (int_str i) | _ \<Rightarrow> v) = Inr (maybe_encode v)"
    using v by (cases v) (simp_all add: encode_val_ascii is_ascii_int_str)
  then obtain s1 where s1: "sends (write_header (working env) (PStr k) v) s True (header_line (k, maybe_encode v)) {py_lower k} s1"
    using sends_write_header [OF Cons.prems(1) ascii_name [OF k] encode_val_ascii [OF k], of v "maybe_encode v" env] by auto
  have "sends (give ()) s1 () [] {} s1" by (simp add: sends_def give_def)
  then obtain s2 where s2: "sends (and_then (write_header (working env) (PStr k) v) (\<lambda>_. give ())) s ()
      (header_line (k, maybe_encode v)) {py_lower k} s2"
    using sends_and_then [OF s1, of "\<lambda>_. give ()" "()" "[]" "{}"] by auto
  then have "w_status_written s2" using Cons.prems(1) by (simp add: sends_def)
  from Cons.IH [OF this] Cons.prems(2) show ?case using sends_and_then [OF s2] by (simp add: kv)
qed (simp add: sends_give)

lemma list_response_sent:
  assumes "rs_headers st = HList (map (\<lambda>(k, v). (PStr k, v)) items)"
    and "list_all (\<lambda>(k, v). is_ascii k \<and> (case v of PStr t \<Rightarrow> is_ascii t | _ \<Rightarrow> True)) items"
    and "rs_content st = CData d" and "encode d = Inr body"
    and "status_text st = Inr msg" and "rs_required st" and "w_seen st = {}"
    and "is_ascii (version_string env)" and "is_ascii (date_string env)"
  shows "\<exists>st'. write_response (working env) st = (Inr (), st')
     \<and> w_out st' = w_out st @ status_line env st msg @ concat (map (\<lambda>(k, v). header_line (k, maybe_encode v)) items)
         @ concat (map header_line (added_headers env ((py_lower \<circ> fst) ` set items) (length body)))
         @ CRLF @ (if rq_method env = ''HEAD'' \<and> \<not> rs_head_body st then [] else body)
     \<and> rs_close st' = rs_close st"
proof -
  have items: "\<And>s. w_status_written s \<Longrightarrow> \<exists>s'. sends (for_each (\<lambda>(k, v). and_then (write_header (working env) k v) (\<lambda>_. give ()))
        (header_items (rs_headers st))) s () (concat (map (\<lambda>(k, v). header_line (k, maybe_encode v)) items)) ((py_lower \<circ> fst) ` set items) s'"
    using sends_list_headers [OF _ assms(2)] by (simp add: assms(1) header_items_def)
  obtain st3 where "write_status_headers (working env) st = (Inr (), st3)"
    "w_out st3 = w_out st @ status_line env st msg @ concat (map (\<lambda>(k, v). header_line (k, maybe_encode v)) items)
       @ concat (map header_line (added_headers env ((py_lower \<circ> fst) ` set items) (length body))) @ CRLF"
    "w_complete st3" "w_status_written st3" "rs_content st3 = CData d" "rs_head_body st3 = rs_head_body st" "rs_close st3 = rs_close st"
    using headers_sent [OF assms(5-7) items, of "concat (map header_line (added_headers env ((py_lower \<circ> fst) ` set items) (length body))) @ CRLF" False]
      data_ends_headers [OF _ _ assms(4) _ assms(8,9)] assms(3) by force
  then show ?thesis
    using data_content_sent [of st3 d body env] assms(4) by (auto simp: write_response_def)
qed


definition demo_server :: server_env where
  "demo_server = \<lparr>rq_method = ''GET'', rq_protocol = ''HTTP/1.1'', version_string = ''S'', date_string = ''D'',
     wire = (\<lambda>i. if i < 2 then None else Some 0)\<rparr>"

theorem response_on_the_wire_witness:
  "\<exists>st'. write_response (working demo_server)
        (new_response\<lparr>rs_headers := HObject (rh_update [(PStr ''X'', PStr ''1'')] []), rs_content := CData (DBytes ''hi'')\<rparr>)
      = (Inr (), st')
    \<and> w_out st' = ''HTTP/1.1 200 OK'' @ CRLF @ ''X: 1'' @ CRLF @ ''Server: S'' @ CRLF @ ''Date: D'' @ CRLF
        @ ''Content-Length: 2'' @ CRLF @ CRLF @ ''hi''"
proof -
  let ?st = "new_response\<lparr>rs_headers := HObject (rh_update [(PStr ''X'', PStr ''1'')] []), rs_content := CData (DBytes ''hi'')\<rparr>"
  have items: "rh_items (rh_update [(PStr ''X'', PStr ''1'')] []) = [(''X'', ''1'')]"
    by (simp add: rh_update_def rh_append_def rh_set_def rh_items_def Let_def od_get_def)
  have x: "py_lower ''X'' = ''x''" by code_simp
  have two: "int_str 2 = ''2''" by code_simp
  have code: "int_str 200 = ''200''" by code_simp
  have ok: "default_message 200 = ''OK''" by (simp add: default_message_def response_codes_def)
  let ?h = "rh_update [(PStr ''X'', PStr ''1'')] []"
  have p: "rs_headers ?st = HObject ?h" "rs_content ?st = CData (DBytes ''hi'')" "encode (DBytes ''hi'') = Inr ''hi''"
    "status_text ?st = Inr ''OK''" "rs_required ?st" "w_seen ?st = {}"
    "is_ascii (version_string demo_server)" "is_ascii (date_string demo_server)"
    by (simp_all add: new_response_def encode_def status_text_def iso_encode_val_def demo_server_def ok is_ascii_def)
  have eq: "rh_items ?h @ added_headers demo_server ((py_lower \<circ> fst) ` set (rh_items ?h)) (length ''hi'')
      = [(''X'', ''1''), (''Server'', ''S''), (''Date'', ''D''), (''Content-Length'', ''2'')]"
    by (simp add: items x two added_headers_def demo_server_def)
  show ?thesis
    using response_on_the_wire [OF p, unfolded eq]
    by (elim exE) (auto simp: header_line_def new_response_def demo_server_def code)
qed


end
