(* ===== verification/Response_Parts.thy ===== *)
theory Response_Parts
  imports Response_Writer
begin

text \<open>
  The remaining operations of wptserve's \<open>Response\<close>: cookies, error responses, and the multipart bodies of
  byte ranges. Cookies are rendered by the standard library's \<open>Morsel\<close>, modelled here; its parser is a
  parameter.
\<close>

section \<open>Status\<close>

text \<open>What \<open>set_status\<close> stores can always be written.\<close>

lemma set_status_writable:
  assumes "set_status v st = (Inr (), st')" shows "\<exists>m. status_text st' = Inr m"
proof -
  have "\<exists>m. iso_encode_val (status_message v) = Inr m" for v
    by (auto simp: status_message_def iso_encode_val_def split: option.split pyval.split)
  then show ?thesis using assms
    by (auto simp: set_status_def status_text_def iso_encode_val_def act_defs
        split: status_value.splits option.splits list.splits sum.splits)
qed

section \<open>Error responses\<close>

text \<open>\<open>json.dumps\<close> of a text: everything but printable ASCII is escaped, with surrogate pairs.\<close>

definition hex_char :: "nat \<Rightarrow> nat" where
  "hex_char d = (if d < 10 then 48 + d else 87 + d)"

definition hex4 :: "nat \<Rightarrow> ustr" where
  "hex4 n = map hex_char [n div 4096 mod 16, n div 256 mod 16, n div 16 mod 16, n mod 16]"

definition json_escape :: "nat \<Rightarrow> ustr" where
  "json_escape c =
     (if c = 34 then cp [CHR 0x5C, CHR 0x22] else if c = 92 then cp [CHR 0x5C, CHR 0x5C]
      else if c = 10 then cp [CHR 0x5C, CHR ''n''] else if c = 13 then cp [CHR 0x5C, CHR ''r'']
      else if c = 9 then cp [CHR 0x5C, CHR ''t''] else if c = 12 then cp [CHR 0x5C, CHR ''f'']
      else if c = 8 then cp [CHR 0x5C, CHR ''b'']
      else if 32 \<le> c \<and> c \<le> 126 then [c]
      else if c < 65536 then cp [CHR 0x5C, CHR ''u''] @ hex4 c
      else cp [CHR 0x5C, CHR ''u''] @ hex4 (55296 + (c - 65536) div 1024 mod 1024)
           @ cp [CHR 0x5C, CHR ''u''] @ hex4 (56320 + (c - 65536) mod 1024))"

definition json_text :: "ustr \<Rightarrow> ustr" where
  "json_text t = cp [CHR 0x22] @ concat (map json_escape t) @ cp [CHR 0x22]"

text \<open>
  The error given to \<open>set_error\<close>: none, a text, or an exception, by its text and the two renderings of its
  traceback.
\<close>

datatype error_value = NoError | ErrorText ustr | ErrorExc (err_text: ustr) (err_frame: ustr) (err_trace: ustr)

definition format_server_error :: "bool \<Rightarrow> ustr \<Rightarrow> error_value \<Rightarrow> ustr" where
  "format_server_error suppress url err =
     (let suffix = (case err of
          NoError \<Rightarrow> cp ''<no traceback>''
        | ErrorText t \<Rightarrow> t
        | ErrorExc _ frame trace \<Rightarrow> if suppress then frame else trace)
      in cp ''Internal server error loading '' @ url @ cp '':'' @ [10] @ cp ''  '' @ suffix)"

definition error_message :: "bool \<Rightarrow> ustr \<Rightarrow> int \<Rightarrow> error_value \<Rightarrow> ustr" where
  "error_message suppress url code err =
     (if 500 \<le> code \<and> code < 600 then format_server_error suppress url err
      else (case err of NoError \<Rightarrow> [] | ErrorText t \<Rightarrow> t | ErrorExc t _ _ \<Rightarrow> t))"

definition error_json :: "int \<Rightarrow> ustr \<Rightarrow> ustr" where
  "error_json code message =
     cp ''{'' @ json_text (cp ''error'') @ cp '': {'' @ json_text (cp ''code'') @ cp '': '' @ cp (int_str code)
     @ cp '', '' @ json_text (cp ''message'') @ cp '': '' @ json_text message @ cp ''}}''"

definition set_error :: "bool \<Rightarrow> ustr \<Rightarrow> int \<Rightarrow> error_value \<Rightarrow> unit writing" where
  "set_error suppress url code err =
     (let data = error_json code (error_message suppress url code err)
      in and_then (set_status (StNum code)) (\<lambda>_.
           change (\<lambda>st. st\<lparr>
             rs_headers := HList [(PStr ''Content-Type'', PStr ''application/json''),
                                  (PStr ''Content-Length'', PInt (int (length data)))],
             rs_content := CData (DText data)\<rparr>)))"

definition printable :: "nat \<Rightarrow> bool" where
  "printable c \<longleftrightarrow> 32 \<le> c \<and> c \<le> 126"

lemma printable_hex4: "list_all printable (hex4 n)"
proof -
  have "printable (hex_char d)" if "d < 16" for d using that by (auto simp: printable_def hex_char_def)
  then show ?thesis by (simp add: hex4_def)
qed

lemma printable_json_escape: "list_all printable (json_escape c)"
  using printable_hex4 by (auto simp: json_escape_def cp_def printable_def)

lemma printable_json_text: "list_all printable (json_text t)"
  using printable_json_escape
  by (induction t) (auto simp: json_text_def cp_def printable_def list_all_iff)

lemma encode_printable:
  assumes "list_all printable t" shows "encode (DText t) = Inr (map char_of t)"
proof -
  have "rmap (\<lambda>c. of_option UnicodeError (utf8_point c)) t = Inr (map (\<lambda>c. [c]) t)"
    using assms by (induction t) (simp_all add: printable_def utf8_point_def)
  moreover have "\<not> list_ex is_surrogate t"
    using assms by (induction t) (auto simp: printable_def is_surrogate_def)
  moreover have "concat (map (\<lambda>c. [c]) t) = t" by (induction t) simp_all
  ultimately show ?thesis by (simp add: encode_def utf8_encode_def)
qed

lemma printable_int_str: "list_all printable (cp (int_str i))"
proof -
  have "list_all printable (cp (nat_str n))" for n
    using nat_str_digits by (fastforce simp: list_all_iff printable_def cp_def is_digit_def)
  then show ?thesis by (auto simp: int_str_def cp_def printable_def)
qed

lemma printable_error_json: "list_all printable (error_json code message)"
proof -
  have "list_all printable (cp s)" if "s \<in> {''{'', '': {'', '': '', '', '', ''}}''}" for s
    using that by (auto simp: cp_def printable_def)
  then show ?thesis by (simp add: error_json_def printable_json_text printable_int_str)
qed

lemma set_error_sets:
  "\<exists>d body n. set_error suppress url code err st =
      (Inr (), st\<lparr>rs_status := (code, None),
         rs_headers := HList [(PStr ''Content-Type'', PStr ''application/json''), (PStr ''Content-Length'', PInt n)],
         rs_content := CData d\<rparr>)
    \<and> encode d = Inr body \<and> n = int (length body) \<and> list_all (printable \<circ> of_char) body"
proof -
  let ?data = "error_json code (error_message suppress url code err)"
  have "encode (DText ?data) = Inr (map char_of ?data)"
    by (rule encode_printable [OF printable_error_json])
  moreover have "list_all (printable \<circ> of_char) (map char_of ?data :: string)"
    using printable_error_json [of code "error_message suppress url code err"]
    by (auto simp: list_all_iff printable_def)
  ultimately show ?thesis
    by (intro exI [of _ "DText ?data"] exI [of _ "map char_of ?data"] exI [of _ "int (length ?data)"])
      (simp add: set_error_def Let_def set_status_def and_then_change act_simps)
qed

text \<open>
  C30: an error response announces exactly the bytes it sends: the body is printable ASCII whatever the
  message contains, and \<open>Content-Length\<close>, counted in characters, is its number of bytes.
\<close>

theorem error_length_is_exact:
  "\<exists>d body n. set_error suppress url code err st =
      (Inr (), st\<lparr>rs_status := (code, None),
         rs_headers := HList [(PStr ''Content-Type'', PStr ''application/json''), (PStr ''Content-Length'', PInt n)],
         rs_content := CData d\<rparr>)
    \<and> encode d = Inr body \<and> n = int (length body) \<and> list_all (printable \<circ> of_char) body"
  by (rule set_error_sets)

section \<open>Cookies\<close>

record date =
  dt_year :: int
  dt_month :: nat
  dt_day :: nat
  dt_hour :: nat
  dt_minute :: nat
  dt_second :: nat

definition two_digits :: "nat \<Rightarrow> string" where
  "two_digits n = (if n < 10 then ''0'' else []) @ nat_str n"

definition month_names :: "string list" where
  "month_names = [''jan'', ''feb'', ''mar'', ''apr'', ''may'', ''jun'', ''jul'', ''aug'', ''sep'', ''oct'', ''nov'', ''dec'']"

text \<open>Months are numbered from 1; other numbers do not occur in a \<open>datetime\<close>.\<close>

definition expires_text :: "date \<Rightarrow> string res" where
  "expires_text d =
     (if 1 \<le> dt_month d \<and> dt_month d \<le> length month_names
      then Inr (two_digits (dt_day d) @ '' '' @ month_names ! (dt_month d - 1) @ '' '' @ int_str (dt_year d) @ '' ''
                @ two_digits (dt_hour d) @ '':'' @ two_digits (dt_minute d) @ '':'' @ two_digits (dt_second d) @ '' GMT'')
      else Inl KeyError)"

text \<open>\<open>expires\<close> is a date or an interval in seconds from now; \<open>max_age\<close> counts seconds.\<close>

datatype expiry = AtDate date | AfterSeconds int

record cookie_args =
  ck_path :: "string option"
  ck_domain :: "string option"
  ck_max_age :: "int option"
  ck_expires :: "expiry option"
  ck_samesite :: "string option"
  ck_secure :: bool
  ck_httponly :: bool
  ck_comment :: "string option"

definition default_cookie :: cookie_args where
  "default_cookie = \<lparr>ck_path = Some ''/'', ck_domain = None, ck_max_age = None, ck_expires = None, ck_samesite = None,
     ck_secure = False, ck_httponly = False, ck_comment = None\<rparr>"

definition legal_char :: "char \<Rightarrow> bool" where
  "legal_char c \<longleftrightarrow> is_upper c \<or> is_lower c \<or> is_digit c \<or> c \<in> set ([CHR 0x27, CHR 0x60] @ ''!#$%&*+-.^_|~:'')"

definition legal_key :: "string \<Rightarrow> bool" where
  "legal_key s \<longleftrightarrow> s \<noteq> [] \<and> list_all legal_char s"

definition unescaped_char :: "char \<Rightarrow> bool" where
  "unescaped_char c \<longleftrightarrow> legal_char c \<or> c \<in> set '' ()/<=>?@[]{}''"

definition octal3 :: "char \<Rightarrow> string" where
  "octal3 c = (let n = of_char c :: nat
     in CHR 0x5C # map digit_char [n div 64, n div 8 mod 8, n mod 8])"

definition cookie_quote :: "string \<Rightarrow> string" where
  "cookie_quote s =
     (if legal_key s then s
      else [CHR 0x22] @ concat (map (\<lambda>c.
              if c = CHR 0x22 \<or> c = CHR 0x5C then [CHR 0x5C, c]
              else if unescaped_char c then [c] else octal3 c) s) @ [CHR 0x22])"

definition reserved_keys :: "string list" where
  "reserved_keys = [''expires'', ''path'', ''comment'', ''domain'', ''max-age'', ''secure'', ''httponly'', ''version'', ''samesite'']"

text \<open>\<open>Morsel.set\<close> and \<open>OutputString\<close>: the attributes that are set and not empty, sorted by key.\<close>

definition morsel_output :: "string \<Rightarrow> string \<Rightarrow> string option \<Rightarrow> string option \<Rightarrow> cookie_args \<Rightarrow> string res" where
  "morsel_output name val expires max_age a =
     (if py_lower name \<in> set reserved_keys \<or> \<not> legal_key name then Inl (GenericException ''CookieError'')
      else let attr = (\<lambda>key v. case v of None \<Rightarrow> [] | Some x \<Rightarrow> if x = [] then [] else [key @ ''='' @ x])
           in Inr (join_with ''; ''
             ([name @ ''='' @ val]
              @ (case ck_comment a of None \<Rightarrow> [] | Some x \<Rightarrow> if x = [] then [] else [''Comment='' @ cookie_quote x])
              @ attr ''Domain'' (ck_domain a) @ attr ''expires'' expires
              @ (if ck_httponly a then [''HttpOnly''] else [])
              @ attr ''Max-Age'' max_age @ attr ''Path'' (ck_path a) @ attr ''SameSite'' (ck_samesite a)
              @ (if ck_secure a then [''Secure''] else []))))"

definition header_object :: "response \<Rightarrow> resp_headers res" where
  "header_object st = (case rs_headers st of HObject h \<Rightarrow> Inr h | HList _ \<Rightarrow> Inl AttributeError)"

definition set_cookie ::
  "(int \<Rightarrow> date) \<Rightarrow> string \<Rightarrow> string option \<Rightarrow> cookie_args \<Rightarrow> unit writing" where
  "set_cookie from_now name val a =
     (let max_age = (if val = None then Some 0 else ck_max_age a);
          expires = (if val = None then Some (AfterSeconds (- 86400)) else ck_expires a);
          val' = (case val of None \<Rightarrow> [] | Some v \<Rightarrow> v)
      in and_then (of_res (case expires of
             None \<Rightarrow> Inr None
           | Some e \<Rightarrow> rbind (expires_text (case e of AtDate d \<Rightarrow> d | AfterSeconds n \<Rightarrow> from_now n)) (\<lambda>t. Inr (Some t))))
         (\<lambda>expires'. and_then (of_res (morsel_output name val' expires' (map_option int_str max_age) a))
         (\<lambda>cookie. and_then get_state
         (\<lambda>st. and_then (of_res (header_object st))
         (\<lambda>h. change (\<lambda>st. st\<lparr>rs_headers := HObject (rh_append (PStr ''Set-Cookie'') (PStr cookie) h)\<rparr>))))))"

definition delete_cookie :: "(int \<Rightarrow> date) \<Rightarrow> string \<Rightarrow> string option \<Rightarrow> string option \<Rightarrow> unit writing" where
  "delete_cookie from_now name path domain =
     set_cookie from_now name None (default_cookie\<lparr>ck_path := path, ck_domain := domain, ck_max_age := Some 0,
       ck_expires := Some (AfterSeconds (- 86400))\<rparr>)"

text \<open>
  \<open>unset_cookie\<close>: \<open>parse\<close> is \<open>BaseCookie\<close> loading all cookies, a dictionary from names to rendered cookies. The
  remaining cookies are appended with one argument, a pair, instead of two.
\<close>

fun keep_others :: "string \<Rightarrow> (string \<times> string) list \<Rightarrow> unit writing" where
  "keep_others name [] = give ()"
| "keep_others name ((key, output) # ms) =
     (if key \<noteq> name then raise TypeError else keep_others name ms)"

definition unset_cookie :: "(string list \<Rightarrow> (string, string) odict) \<Rightarrow> string \<Rightarrow> unit writing" where
  "unset_cookie parse name =
     and_then get_state (\<lambda>st.
     and_then (of_res (header_object st)) (\<lambda>h.
       let cookies = parse (rh_get h (PStr ''Set-Cookie'') None)
       in if name \<notin> set (od_keys cookies) then give ()
          else and_then (of_res (rh_delitem (PStr ''Set-Cookie'') h)) (\<lambda>h'.
               and_then (change (\<lambda>st. st\<lparr>rs_headers := HObject h'\<rparr>)) (\<lambda>_. keep_others name cookies))))"

text \<open>
  \<open>unset_cookie\<close> only works for a response's single cookie: if another cookie is set as well, the call
  removes every \<open>Set-Cookie\<close> header and then raises a \<open>TypeError\<close>.
\<close>

theorem unset_cookie_loses_others:
  assumes "rs_headers st = HObject h" and "rh_contains h (PStr ''Set-Cookie'')"
    and "od_get (parse (rh_get h (PStr ''Set-Cookie'') None)) name \<noteq> None"
    and "od_get (parse (rh_get h (PStr ''Set-Cookie'') None)) other \<noteq> None" and "other \<noteq> name"
  shows "\<exists>h'. unset_cookie parse name st = (Inl TypeError, st\<lparr>rs_headers := HObject h'\<rparr>)
     \<and> rh_delitem (PStr ''Set-Cookie'') h = Inr h'"
proof -
  let ?c = "parse (rh_get h (PStr ''Set-Cookie'') None)"
  have in_keys: "name \<in> set (od_keys ?c)" "other \<in> set (od_keys ?c)"
    using assms(3,4) by (simp_all add: od_get_None_iff)
  have "keep_others name c s = (Inl TypeError, s)" if "other \<in> set (od_keys c)" for c s
    using that assms(5) by (induction c) (force simp: od_keys_def raise_def)+
  moreover obtain h' where "rh_delitem (PStr ''Set-Cookie'') h = Inr h'"
    using assms(2) by (auto simp: rh_delitem_def rh_contains_def Let_def split: option.splits)
  ultimately show ?thesis
    using in_keys assms(1)
    by (simp add: unset_cookie_def and_then_get_state header_object_def Let_def and_then_change)
qed

section \<open>Multipart bodies\<close>

record part =
  pt_headers :: resp_headers
  pt_data :: string

record multipart =
  mp_items :: "part list"
  mp_boundary :: string
  mp_default :: "string option"

text \<open>\<open>MultipartPart\<close>: a \<open>content-type\<close> among the headers replaces the given one.\<close>

definition mk_part :: "string \<Rightarrow> string option \<Rightarrow> (string \<times> pyval) list \<Rightarrow> part" where
  "mk_part data content_type headers =
     (let h0 = (case content_type of None \<Rightarrow> [] | Some t \<Rightarrow> rh_set (PStr ''Content-Type'') (PStr t) [])
      in \<lparr>pt_headers = fold (\<lambda>(n, v) h. (if py_lower n = ''content-type'' then rh_set else rh_append) (PBytes n) v h) headers h0,
          pt_data = data\<rparr>)"

definition part_to_bytes :: "part \<Rightarrow> string" where
  "part_to_bytes p =
     join_with CRLF (map (\<lambda>(k, v). k @ '': '' @ v) (rh_items (pt_headers p)) @ [[], pt_data p])"

definition mk_multipart :: "string \<Rightarrow> string option \<Rightarrow> string option \<Rightarrow> multipart" where
  "mk_multipart uuid boundary default_type =
     \<lparr>mp_items = [], mp_boundary = (case boundary of None \<Rightarrow> uuid | Some b \<Rightarrow> b), mp_default = default_type\<rparr>"

definition append_part :: "string \<Rightarrow> string option \<Rightarrow> (string \<times> pyval) list \<Rightarrow> multipart \<Rightarrow> multipart" where
  "append_part data content_type headers m =
     m\<lparr>mp_items := mp_items m @
        [mk_part data (case content_type of None \<Rightarrow> mp_default m | Some t \<Rightarrow> Some t) headers]\<rparr>"

definition multipart_call :: "multipart \<Rightarrow> string res" where
  "multipart_call m =
     (if \<not> is_ascii (mp_boundary m) then Inl UnicodeError
      else let boundary = ''--'' @ mp_boundary m;
               rv = [[], boundary] @ concat (map (\<lambda>p. [part_to_bytes p, boundary]) (mp_items m))
           in Inr (join_with CRLF (butlast rv @ [last rv @ ''--''])))"

text \<open>Iterating the content gives the object itself, a callable.\<close>

definition multipart_content :: "multipart \<Rightarrow> content" where
  "multipart_content m = CItems [Call (rbind (multipart_call m) (\<lambda>b. Inr (Some (Plain (DBytes b)))))]"

lemma multipart_call_eq:
  assumes "is_ascii (mp_boundary m)"
  shows "multipart_call m = Inr (concat (map (\<lambda>p. CRLF @ ''--'' @ mp_boundary m @ CRLF @ part_to_bytes p) (mp_items m))
     @ CRLF @ ''--'' @ mp_boundary m @ ''--'')"
proof -
  let ?b = "''--'' @ mp_boundary m"
  have "join_with CRLF (butlast (x # ?b # concat (map (\<lambda>p. [part_to_bytes p, ?b]) ps))
      @ [last (x # ?b # concat (map (\<lambda>p. [part_to_bytes p, ?b]) ps)) @ ''--''])
    = x @ concat (map (\<lambda>p. CRLF @ ?b @ CRLF @ part_to_bytes p) ps) @ CRLF @ ?b @ ''--''" for x ps
  proof (induction ps arbitrary: x)
    case (Cons p ps)
    show ?case using Cons [of "part_to_bytes p"] by simp
  qed simp
  from this [of "[]" "mp_items m"] show ?thesis using assms by (simp add: multipart_call_def Let_def)
qed

theorem unset_cookie_loses_others_witness:
  "\<exists>h'. unset_cookie (\<lambda>_. [(''a'', ''a=1''), (''b'', ''b=2'')]) ''a''
      (new_response\<lparr>rs_headers := HObject (rh_update [(PStr ''Set-Cookie'', PStr ''a=1''), (PStr ''Set-Cookie'', PStr ''b=2'')] [])\<rparr>)
    = (Inl TypeError, new_response\<lparr>rs_headers := HObject h'\<rparr>) \<and> h' = []"
proof -
  let ?h = "rh_update [(PStr ''Set-Cookie'', PStr ''a=1''), (PStr ''Set-Cookie'', PStr ''b=2'')] []"
  let ?st = "new_response\<lparr>rs_headers := HObject ?h\<rparr>"
  have "rh_contains ?h (PStr ''Set-Cookie'')" "rh_delitem (PStr ''Set-Cookie'') ?h = Inr []"
    by code_simp+
  then show ?thesis
    using unset_cookie_loses_others [of ?st ?h "\<lambda>_. [(''a'', ''a=1''), (''b'', ''b=2'')]" "''a''" "''b''"]
    by (simp add: od_get_def)
qed

end
