(* ===== verification/Input_File.thy ===== *)
theory Input_File
  imports Py_Effects
begin

text \<open>
  \<open>InputFile\<close> of wptserve's request.py: a seekable view of the request body. What was read from the
  connection is kept in a buffer with a position of its own. The connection is the list of the bytes it
  will still give; a read at its end is short.
\<close>

record input_file =
  in_stream :: string
  in_length :: int
  in_pos :: int
  in_buf :: string
  in_bufpos :: int
  in_closed :: bool

type_synonym 'a reading = "(exc, input_file, 'a) act"

definition new_input_file :: "string \<Rightarrow> int \<Rightarrow> input_file" where
  "new_input_file rfile len =
     \<lparr>in_stream = rfile, in_length = len, in_pos = 0, in_buf = [], in_bufpos = 0, in_closed = False\<rparr>"

definition in_close :: "unit reading" where
  "in_close = change (\<lambda>f. f\<lparr>in_closed := True\<rparr>)"

definition check :: "bool \<Rightarrow> ('s \<Rightarrow> 's) \<Rightarrow> (exc, 's, unit) act" where
  "check b f = (if b then change f else raise AssertionError)"

text \<open>The property \<open>_buf_position\<close>: the position of the buffer, which must not be past the file's.\<close>

definition buf_position :: "int reading" where
  "buf_position = and_then get_state (\<lambda>f.
     if in_closed f then raise ValueError
     else if in_bufpos f \<le> in_pos f then give (in_bufpos f) else raise AssertionError)"

text \<open>\<open>read\<close> of a file with a number of bytes, all of them if negative.\<close>

definition py_read :: "int \<Rightarrow> 'a list \<Rightarrow> 'a list" where
  "py_read n s = (if n < 0 then s else take (nat n) s)"

definition buf_rest :: "input_file \<Rightarrow> string" where
  "buf_rest f = drop (nat (in_bufpos f)) (in_buf f)"

definition read_buffer :: "int \<Rightarrow> string reading" where
  "read_buffer n = and_then get_state (\<lambda>f.
     let d = py_read n (buf_rest f)
     in and_then (change (\<lambda>f. f\<lparr>in_bufpos := in_bufpos f + int (length d)\<rparr>)) (\<lambda>_. give d))"

text \<open>Reading \<open>n\<close> bytes of the connection and writing them to the buffer.\<close>

definition read_stream :: "int \<Rightarrow> string reading" where
  "read_stream n = and_then get_state (\<lambda>f.
     let d = py_read n (in_stream f); p = nat (in_bufpos f)
     in and_then (change (\<lambda>f. f\<lparr>in_stream := drop (length d) (in_stream f),
                             in_buf := take p (in_buf f) @ d @ drop (p + length d) (in_buf f),
                             in_bufpos := in_bufpos f + int (length d), in_pos := in_pos f + n\<rparr>))
          (\<lambda>_. give d))"

text \<open>\<open>assert bytes_remaining == 0 or self._buf_position == self._file_position\<close>.\<close>

definition assert_in_sync :: "int \<Rightarrow> unit reading" where
  "assert_in_sync rem = and_then get_state (\<lambda>f.
     if rem = 0 \<or> in_bufpos f = in_pos f then give () else raise AssertionError)"

definition in_read :: "int \<Rightarrow> string reading" where
  "in_read bytes =
     and_then buf_position (\<lambda>bp.
     and_then get_state (\<lambda>f.
       let n = (if bytes < 0 then in_length f - bp else bytes);
           rem = min n (in_length f - bp)
       in if rem = 0 then give []
          else let k = (if bp \<noteq> in_pos f then min rem (in_pos f - bp) else 0)
               in and_then (if bp \<noteq> in_pos f then read_buffer k else give []) (\<lambda>old_data.
                  and_then (assert_in_sync (rem - k)) (\<lambda>_.
                  and_then (read_stream (rem - k)) (\<lambda>new_data.
                  and_then (assert_in_sync (rem - k)) (\<lambda>_.
                    give (old_data @ new_data)))))))"

definition in_tell :: "int reading" where
  "in_tell = buf_position"

definition in_seek :: "int \<Rightarrow> unit reading" where
  "in_seek offset = and_then get_state (\<lambda>f.
     if offset > in_length f \<or> offset < 0 then raise ValueError
     else if offset \<le> in_pos f
     then if in_closed f then raise ValueError else change (\<lambda>f. f\<lparr>in_bufpos := offset\<rparr>)
     else and_then (in_read (offset - in_pos f)) (\<lambda>_. give ()))"

section \<open>Lines\<close>

definition LF :: char where
  "LF = CHR 0x0A"

fun upto_newline :: "string \<Rightarrow> string" where
  "upto_newline [] = []"
| "upto_newline (c # cs) = (if c = LF then [c] else c # upto_newline cs)"

text \<open>\<open>readline(n)\<close> of the buffer.\<close>

definition read_buffer_line :: "int \<Rightarrow> string reading" where
  "read_buffer_line n = and_then get_state (\<lambda>f.
     let d = py_read n (upto_newline (buf_rest f))
     in and_then (change (\<lambda>f. f\<lparr>in_bufpos := in_bufpos f + int (length d)\<rparr>)) (\<lambda>_. give d))"

text \<open>
  The loop reads two bytes at a time until a newline, the end or the limit, and gives the line. It is
  partial: \<open>None\<close> stands for a loop that does not end.
\<close>

partial_function (option) line_loop :: "int \<Rightarrow> string \<Rightarrow> input_file \<Rightarrow> ((exc + string) \<times> input_file) option" where
  "line_loop max_bytes buf f =
     (case in_read (min 2 max_bytes) f of
        (Inl e, f') \<Rightarrow> Some (Inl e, f')
      | (Inr readahead, f') \<Rightarrow>
          (let m = max_bytes - int (length readahead); buf' = buf @ upto_newline readahead
           in if LF \<in> set readahead \<or> readahead = [] \<or> m = 0 then Some (Inr buf', f')
              else line_loop m buf' f'))"

definition in_readline :: "int option \<Rightarrow> input_file \<Rightarrow> ((exc + string) \<times> input_file) option" where
  "in_readline max_bytes f =
     (case and_then buf_position (\<lambda>bp. give (case max_bytes of None \<Rightarrow> in_length f - bp | Some m \<Rightarrow> m)) f of
        (Inl e, f') \<Rightarrow> Some (Inl e, f')
      | (Inr m, _) \<Rightarrow>
          (case (if in_bufpos f < in_pos f then read_buffer_line m f else give [] f) of
             (Inl e, f') \<Rightarrow> Some (Inl e, f')
           | (Inr data, f1) \<Rightarrow>
               if in_bufpos f < in_pos f \<and> (data \<noteq> [] \<and> last data = LF \<or> int (length data) = m) then Some (Inr data, f1)
               else if in_bufpos f1 \<noteq> in_pos f1 then Some (Inl AssertionError, f1)
               else (case line_loop (m - int (length data)) [] f1 of
                       None \<Rightarrow> None
                     | Some (Inl e, f2) \<Rightarrow> Some (Inl e, f2)
                     | Some (Inr new_data, f2) \<Rightarrow>
                         (case in_seek (in_pos f1 + int (length new_data)) f2 of
                            (Inl e, f3) \<Rightarrow> Some (Inl e, f3)
                          | (Inr _, f3) \<Rightarrow> Some (Inr (data @ new_data), f3)))))"

partial_function (option) in_readlines :: "string list \<Rightarrow> input_file \<Rightarrow> ((exc + string list) \<times> input_file) option" where
  "in_readlines rv f =
     (case in_readline None f of
        None \<Rightarrow> None
      | Some (Inl e, f') \<Rightarrow> Some (Inl e, f')
      | Some (Inr data, f') \<Rightarrow> if data \<noteq> [] then in_readlines (rv @ [data]) f' else Some (Inr rv, f'))"

text \<open>\<open>__next__\<close>: the next line, \<open>None\<close> for \<open>StopIteration\<close>.\<close>

definition in_next :: "input_file \<Rightarrow> ((exc + string option) \<times> input_file) option" where
  "in_next f = map_option (\<lambda>(r, f'). (case r of Inl e \<Rightarrow> Inl e | Inr d \<Rightarrow> Inr (if d \<noteq> [] then Some d else None), f'))
     (in_readline None f)"

text \<open>\<open>Request.body\<close>: the whole body, whatever was read before, with the position as it was.\<close>

definition request_body :: "string reading" where
  "request_body =
     and_then in_tell (\<lambda>pos.
     and_then (in_seek 0) (\<lambda>_.
     and_then (in_read (- 1)) (\<lambda>body.
     and_then (in_seek pos) (\<lambda>_. give body))))"

section \<open>The view\<close>

text \<open>The file is open at position \<open>p\<close> of the body \<open>B\<close>, which the connection gives in full, \<open>q\<close> bytes of it read.\<close>

definition view :: "string \<Rightarrow> nat \<Rightarrow> nat \<Rightarrow> input_file \<Rightarrow> bool" where
  "view B p q f \<longleftrightarrow> \<not> in_closed f \<and> in_length f = int (length B) \<and> in_bufpos f = int p \<and> in_pos f = int q
     \<and> p \<le> q \<and> q \<le> length B \<and> in_buf f = take q B \<and> (\<exists>extra. in_stream f = drop q B @ extra)"

lemma view_new: "length B \<le> length rfile \<Longrightarrow> take (length B) rfile = B \<Longrightarrow>
    view B 0 0 (new_input_file rfile (int (length B)))"
  by (auto simp: view_def new_input_file_def) (metis append_take_drop_id)

lemma buf_position_view: "view B p q f \<Longrightarrow> buf_position f = (Inr (int p), f)"
  by (simp add: buf_position_def and_then_get_state view_def give_def)

definition read_size :: "int \<Rightarrow> string \<Rightarrow> nat \<Rightarrow> nat" where
  "read_size n B p = (if n < 0 then length B - p else min (nat n) (length B - p))"

lemma read_stream_view:
  assumes "view B q q f" and "n \<le> length B - q"
  shows "\<exists>f'. read_stream (int n) f = (Inr (take n (drop q B)), f') \<and> view B (q + n) (q + n) f'"
proof -
  obtain extra where x: "in_stream f = drop q B @ extra" using assms(1) by (auto simp: view_def)
  have q: "q \<le> length B" "q + n \<le> length B" using assms by (auto simp: view_def)
  have d: "py_read (int n) (in_stream f) = take n (drop q B)" using assms(2) by (simp add: py_read_def x)
  have "take q B @ take n (drop q B) = take (q + n) B" by (simp add: take_add)
  moreover have "drop n (in_stream f) = drop (q + n) B @ extra" using assms(2) by (simp add: x add.commute)
  ultimately show ?thesis using assms q
    by (auto simp: read_stream_def and_then_get_state and_then_change d Let_def view_def give_def min_absorb2)
qed

lemma in_read_view:
  assumes "view B p q f"
  shows "\<exists>f'. in_read n f = (Inr (take (read_size n B p) (drop p B)), f')
     \<and> view B (p + read_size n B p) (max q (p + read_size n B p)) f'"
proof -
  let ?m = "read_size n B p"
  have v: "p \<le> q" "q \<le> length B" "in_length f = int (length B)" "in_pos f = int q" using assms by (auto simp: view_def)
  have rem: "min (if n < 0 then in_length f - int p else n) (in_length f - int p) = int ?m"
    using v by (auto simp: read_size_def min_def)
  have m: "p + ?m \<le> length B" using v by (auto simp: read_size_def)
  show ?thesis
  proof (cases "?m = 0")
    case True
    then show ?thesis using assms rem v
      by (auto simp: in_read_def buf_position_view and_then_get_state Let_def give_def max_absorb1)
  next
    case False
    let ?k = "min ?m (q - p)"
    have k: "(if int p \<noteq> in_pos f then min (int ?m) (in_pos f - int p) else 0) = int ?k" using v by auto
    let ?f1 = "f\<lparr>in_bufpos := int (p + ?k)\<rparr>"
    have "take ?k (drop p (take q B)) = take ?k (drop p B)" by (simp add: drop_take)
    then have old: "(if int p \<noteq> in_pos f then read_buffer (int ?k) else give []) f = (Inr (take ?k (drop p B)), ?f1)"
      using assms v by (auto simp: read_buffer_def and_then_get_state and_then_change Let_def buf_rest_def py_read_def
          view_def give_def min_def)
    have v1: "view B (p + ?k) q ?f1" using assms by (auto simp: view_def)
    have sync: "assert_in_sync (int ?m - int ?k) ?f1 = (Inr (), ?f1)"
      using v by (auto simp: assert_in_sync_def and_then_get_state give_def min_def)
    obtain f2 where f2: "read_stream (int (?m - ?k)) ?f1 = (Inr (take (?m - ?k) (drop (p + ?k) B)), f2)"
      "view B (p + ?m) (max q (p + ?m)) f2" "assert_in_sync (int (?m - ?k)) f2 = (Inr (), f2)"
    proof (cases "?m \<le> q - p")
      case True
      then have "view B (p + ?m) (max q (p + ?m)) ?f1" using v1 v by (auto simp: min_absorb1 max_absorb1)
      moreover have "read_stream 0 ?f1 = (Inr [], ?f1)"
        by (simp add: read_stream_def and_then_get_state and_then_change Let_def py_read_def give_def)
      ultimately show ?thesis using that True
        by (simp add: min_absorb1 assert_in_sync_def and_then_get_state give_def)
    next
      case False
      then have k: "?k = q - p" by simp
      then have "view B q q ?f1" using v1 v by simp
      moreover have "?m - ?k \<le> length B - q" using m v by (simp add: k)
      ultimately obtain f2
        where r2: "read_stream (int (?m - ?k)) ?f1 = (Inr (take (?m - ?k) (drop q B)), f2)"
          and v2: "view B (q + (?m - ?k)) (q + (?m - ?k)) f2"
        using read_stream_view [of B q ?f1 "?m - ?k"] by blast
      have e: "q + (?m - ?k) = p + ?m" "max q (p + ?m) = p + ?m" "p + ?k = q" using False k v by auto
      have "assert_in_sync (int (?m - ?k)) f2 = (Inr (), f2)"
        using v2 by (simp add: assert_in_sync_def and_then_get_state give_def view_def)
      then show ?thesis using that r2 v2 unfolding e by blast
    qed
    have "take ?k (drop p B) @ take (?m - ?k) (drop (p + ?k) B) = take ?m (drop p B)"
      by (metis drop_drop add.commute le_add_diff_inverse min.cobounded1 take_add)
    moreover have d: "int ?m - int ?k = int (?m - ?k)" by simp
    have "in_read n f = give (take ?k (drop p B) @ take (?m - ?k) (drop (p + ?k) B)) f2"
      unfolding in_read_def
      by (rule and_then_eqI, rule buf_position_view [OF assms],
          use False in \<open>simp only: and_then_get_state Let_def rem k d of_nat_eq_0_iff if_False\<close>,
          rule and_then_eqI, rule old, rule and_then_eqI, rule sync [unfolded d], rule and_then_eqI, rule f2(1),
          rule and_then_eqI, rule f2(3), rule refl)
    ultimately show ?thesis using f2(2) by (simp add: give_def)
  qed
qed

lemma in_seek_view:
  assumes "view B p q f" and "k \<le> q"
  shows "in_seek (int k) f = (Inr (), f\<lparr>in_bufpos := int k\<rparr>) \<and> view B k q (f\<lparr>in_bufpos := int k\<rparr>)"
  using assms by (simp add: in_seek_def and_then_get_state view_def act_simps)

text \<open>
  C20: \<open>InputFile\<close> reads like a file over the body: whatever was read, sought and buffered before, \<open>read\<close>
  gives the bytes of the body from the current position, as many as asked for and there are, and moves the
  position behind them; no assertion fails.
\<close>

theorem input_file_reads_body:
  assumes "view B p q f"
  shows "\<exists>f' d q'. in_read n f = (Inr d, f') \<and> view B (p + length d) q' f'
     \<and> d = (if n < 0 then drop p B else take (nat n) (drop p B))"
proof -
  have "length (take (read_size n B p) (drop p B)) = read_size n B p" by (simp add: read_size_def)
  moreover have "take (read_size n B p) (drop p B) = (if n < 0 then drop p B else take (nat n) (drop p B))"
    by (auto simp: read_size_def min_def)
  ultimately show ?thesis using in_read_view [OF assms, of n] by metis
qed

text \<open>
  the request's body is complete and leaves the position of the input where it was, however much of it
  a handler has read before.
\<close>

theorem request_body_complete:
  assumes "view B p q f"
  shows "\<exists>f'. request_body f = (Inr B, f') \<and> view B p (length B) f'"
proof -
  let ?f0 = "f\<lparr>in_bufpos := 0\<rparr>"
  have s0: "in_seek 0 f = (Inr (), ?f0)" and v0: "view B 0 q ?f0" using in_seek_view [OF assms, of 0] by auto
  have q: "q \<le> length B" "p \<le> q" using assms by (auto simp: view_def)
  obtain f1 where r: "in_read (- 1) ?f0 = (Inr B, f1)" "view B (length B) (length B) f1"
    using in_read_view [OF v0, of "- 1"] q by (auto simp: read_size_def max_absorb2)
  have "in_seek (int p) f1 = (Inr (), f1\<lparr>in_bufpos := int p\<rparr>) \<and> view B p (length B) (f1\<lparr>in_bufpos := int p\<rparr>)"
    using in_seek_view [OF r(2)] q by simp
  then show ?thesis
    using s0 r(1) buf_position_view [OF assms] by (simp add: request_body_def in_tell_def give_def)
qed

text \<open>
  seeking forward goes wrong after seeking back: to reach a position that was not read yet, \<open>seek\<close> reads
  as many bytes as are missing behind what was read, but from the current position, so it ends before the
  position asked for.
\<close>

theorem seek_forward_falls_short:
  assumes "view B p q f" and "p < q" and "q < k" and "k \<le> length B"
  shows "\<exists>f'. in_seek (int k) f = (Inr (), f') \<and> in_tell f' = (Inr (int (k - (q - p))), f') \<and> k - (q - p) < k"
proof -
  have "in_pos f = int q" "in_length f = int (length B)" using assms(1) by (auto simp: view_def)
  moreover obtain f' where r: "in_read (int k - int q) f = (Inr (take (read_size (int k - int q) B p) (drop p B)), f')"
    "view B (p + read_size (int k - int q) B p) (max q (p + read_size (int k - int q) B p)) f'"
    using in_read_view [OF assms(1)] by blast
  moreover have "p + read_size (int k - int q) B p = k - (q - p)" using assms(2-4) by (simp add: read_size_def)
  ultimately show ?thesis
    using assms(2-4) buf_position_view by (auto simp: in_seek_def and_then_get_state in_tell_def give_def)
qed

lemma upto_newline_take: "LF \<in> set (take r s) \<Longrightarrow> upto_newline (take r s) = upto_newline s"
  by (induction s arbitrary: r) (auto simp: take_Cons' split: if_splits)

lemma upto_newline_split: "LF \<notin> set a \<Longrightarrow> upto_newline (a @ b) = a @ upto_newline b"
  by (induction a) auto

lemma upto_newline_none: "LF \<notin> set a \<Longrightarrow> upto_newline a = a"
  using upto_newline_split [of a "[]"] by simp

lemma length_upto_newline: "length (upto_newline s) \<le> length s"
  by (induction s) auto

lemma last_upto_newline: "LF \<in> set s \<Longrightarrow> upto_newline s \<noteq> [] \<and> last (upto_newline s) = LF"
  by (induction s) auto

lemma line_loop_view:
  assumes "view B p p f" and "0 \<le> m"
  shows "\<exists>f' q. line_loop m buf f = Some (Inr (buf @ take (nat m) (upto_newline (drop p B))), f')
     \<and> view B q q f' \<and> p + length (take (nat m) (upto_newline (drop p B))) \<le> q"
  using assms
proof (induction "length B - p" arbitrary: p f m buf rule: less_induct)
  case less
  let ?s = "drop p B"
  define r where "r = read_size (min 2 m) B p"
  have r: "r \<le> nat m" "r \<le> length ?s" using less.prems(2) by (auto simp: r_def read_size_def)
  have p: "p \<le> length B" using less.prems(1) by (simp add: view_def)
  obtain f1 where f1: "in_read (min 2 m) f = (Inr (take r ?s), f1)" "view B (p + r) (p + r) f1"
    using in_read_view [OF less.prems(1), of "min 2 m"] by (auto simp: r_def max_absorb2)
  have len: "length (take r ?s) = r" using r(2) by simp
  have step: "line_loop m buf f =
      (if LF \<in> set (take r ?s) \<or> take r ?s = [] \<or> m - int r = 0 then Some (Inr (buf @ upto_newline (take r ?s)), f1)
       else line_loop (m - int r) (buf @ upto_newline (take r ?s)) f1)"
    by (subst line_loop.simps) (simp only: f1(1) prod.case sum.case Let_def len)
  show ?case
  proof (cases "LF \<in> set (take r ?s)")
    case True
    then have u: "upto_newline (take r ?s) = upto_newline ?s" by (rule upto_newline_take)
    then have "length (upto_newline ?s) \<le> r" using length_upto_newline [of "take r ?s"] len by simp
    then show ?thesis using step True u f1(2) r(1) by (intro exI [of _ f1] exI [of _ "p + r"]) simp
  next
    case False
    have u: "upto_newline ?s = take r ?s @ upto_newline (drop r ?s)"
      using upto_newline_split [OF False, of "drop r ?s"] unfolding append_take_drop_id .
    show ?thesis
    proof (cases "take r ?s = [] \<or> m - int r = 0")
      case True
      have "take (nat m) (upto_newline ?s) = take r ?s"
      proof (cases "m - int r = 0")
        case True
        then have "nat m = r" by simp
        then show ?thesis using u len by simp
      next
        case m: False
        then have "take r ?s = []" using True by simp
        then have "r = 0" using len by (metis list.size(3))
        then have "m = 0 \<or> length ?s = 0" using less.prems(2) p by (auto simp: r_def read_size_def split: if_splits)
        then show ?thesis using m \<open>r = 0\<close> by auto
      qed
      then show ?thesis
        using step True upto_newline_none [OF False] f1(2) len by (intro exI [of _ f1] exI [of _ "p + r"]) auto
    next
      case more: False
      then have m: "0 \<le> m - int r" "0 < r" using r(1) less.prems(2) len by auto
      then have "length B - (p + r) < length B - p" using r(2) by simp
      from less.hyps [OF this f1(2) m(1), of "buf @ take r ?s"] obtain f' q where
        l: "line_loop (m - int r) (buf @ take r ?s) f1
          = Some (Inr ((buf @ take r ?s) @ take (nat (m - int r)) (upto_newline (drop (p + r) B))), f')"
        "view B q q f'" "p + r + length (take (nat (m - int r)) (upto_newline (drop (p + r) B))) \<le> q" by blast
      have "nat m = r + nat (m - int r)" using m r(1) less.prems(2) by simp
      then have t: "take (nat m) (upto_newline ?s) = take r ?s @ take (nat (m - int r)) (upto_newline (drop (p + r) B))"
        using len by (simp add: u add.commute)
      then show ?thesis
        using step False more l upto_newline_none [OF False] len by (intro exI [of _ f'] exI [of _ q]) simp
    qed
  qed
qed

text \<open>What the buffer gives of the line: all of it, or everything that was read, and then the rest follows.\<close>

lemma buffered_line:
  assumes "p \<le> q" "q \<le> length B" "0 \<le> M"
  defines "data \<equiv> take (nat M) (upto_newline (take (q - p) (drop p B)))"
  shows "(if data \<noteq> [] \<and> last data = LF \<or> int (length data) = M then data = take (nat M) (upto_newline (drop p B))
     else length data = q - p \<and> int (length data) < M
       \<and> take (nat M) (upto_newline (drop p B)) = data @ take (nat (M - int (length data))) (upto_newline (drop q B)))"
proof -
  let ?s = "drop p B" and ?t = "take (q - p) (drop p B)"
  show ?thesis
  proof (cases "LF \<in> set ?t")
    case True
    then have u: "upto_newline ?t = upto_newline ?s" by (rule upto_newline_take)
    have "upto_newline ?t \<noteq> []" "last (upto_newline ?t) = LF" using last_upto_newline [OF True] by auto
    moreover have "data = upto_newline ?t \<or> int (length data) = M" using assms(3) by (auto simp: data_def min_def)
    ultimately show ?thesis using u by (auto simp: data_def)
  next
    case False
    then have t: "upto_newline ?t = ?t" by (rule upto_newline_none)
    have "upto_newline (?t @ drop (q - p) ?s) = ?t @ upto_newline (drop (q - p) ?s)" by (rule upto_newline_split [OF False])
    then have u: "upto_newline ?s = ?t @ upto_newline (drop q B)"
      unfolding append_take_drop_id using assms(1) by simp
    have len: "length ?t = q - p" using assms(1,2) by simp
    show ?thesis
    proof (cases "int (length data) = M")
      case True
      then have "nat M \<le> q - p" using t len by (simp add: data_def)
      then show ?thesis using True t u len by (simp add: data_def)
    next
      case more: False
      then have d: "data = ?t" "q - p < nat M" using t len assms(3) by (auto simp: data_def min_def split: if_splits)
      have "last data \<noteq> LF" if "data \<noteq> []" using False d(1) that by (metis last_in_set)
      moreover have "nat M = (q - p) + nat (M - int (q - p))" using d(2) by simp
      then have "take (nat M) (upto_newline ?s) = ?t @ take (nat (M - int (q - p))) (upto_newline (drop q B))"
        using len by (simp add: u)
      ultimately show ?thesis using more d len by auto
    qed
  qed
qed

text \<open>
  C21: \<open>readline\<close> ends and gives the next line of the body, with its newline if it has one, cut at the limit;
  reading two bytes ahead is undone, so the position is behind the line.
\<close>

theorem readline_gives_line:
  assumes "view B p q f" and "0 \<le> m"
  shows "\<exists>f' d q'. in_readline (if limited then Some m else None) f = Some (Inr d, f') \<and> view B (p + length d) q' f'
     \<and> d = (if limited then take (nat m) (upto_newline (drop p B)) else upto_newline (drop p B))"
proof -
  have v: "in_length f = int (length B)" "in_bufpos f = int p" "in_pos f = int q" "p \<le> q" "q \<le> length B" "in_buf f = take q B"
    using assms(1) by (auto simp: view_def)
  define M where "M = (if limited then m else int (length B) - int p)"
  have M: "0 \<le> M" using assms(2) v by (simp add: M_def)
  have "length (upto_newline (drop p B)) \<le> length B - p" using length_upto_newline [of "drop p B"] by simp
  then have goal: "take (nat M) (upto_newline (drop p B))
      = (if limited then take (nat m) (upto_newline (drop p B)) else upto_newline (drop p B))"
    by (auto simp: M_def nat_diff_distrib)
  define data where "data = take (nat M) (upto_newline (take (q - p) (drop p B)))"
  note line = buffered_line [OF v(4,5) M, folded data_def]
  let ?f1 = "f\<lparr>in_bufpos := int (p + length data)\<rparr>"
  have "length data \<le> q - p"
    using length_upto_newline [of "take (q - p) (drop p B)"] v by (simp add: data_def min.coboundedI1)
  then have v1: "view B (p + length data) q ?f1" using assms(1) v by (auto simp: view_def)
  have first: "and_then buf_position (\<lambda>bp. give (case (if limited then Some m else None) of None \<Rightarrow> in_length f - bp | Some m \<Rightarrow> m)) f
      = (Inr M, f)"
    by (rule and_then_eqI, rule buf_position_view [OF assms(1)]) (simp add: M_def v give_def)
  have buffer: "(if in_bufpos f < in_pos f then read_buffer_line M f else give [] f) = (Inr data, ?f1)"
  proof (cases "p < q")
    case True
    then show ?thesis using v M
      by (simp add: read_buffer_line_def and_then_get_state and_then_change Let_def buf_rest_def py_read_def drop_take
          data_def give_def)
  next
    case False
    then have "data = []" using v by (simp add: data_def)
    then show ?thesis using False v by (simp add: give_def)
  qed
  show ?thesis
  proof (cases "in_bufpos f < in_pos f \<and> (data \<noteq> [] \<and> last data = LF \<or> int (length data) = M)")
    case True
    then have "in_readline (if limited then Some m else None) f = Some (Inr data, ?f1)"
      unfolding in_readline_def first prod.case sum.case buffer by simp
    moreover have "data = take (nat M) (upto_newline (drop p B))" using True line by (auto split: if_splits)
    ultimately show ?thesis using v1 goal by metis
  next
    case False
    have all: "length data = q - p \<and> int (length data) \<le> M
        \<and> take (nat M) (upto_newline (drop p B)) = data @ take (nat (M - int (length data))) (upto_newline (drop q B))"
    proof (cases "p < q")
      case True
      then show ?thesis using False line v by (auto split: if_splits)
    next
      case False
      then show ?thesis using v M by (simp add: data_def)
    qed
    then have v2: "view B q q ?f1" using v1 v by simp
    define new where "new = take (nat (M - int (length data))) (upto_newline (drop q B))"
    obtain f2 r where l: "line_loop (M - int (length data)) [] ?f1 = Some (Inr new, f2)" "view B r r f2"
      "q + length new \<le> r"
      using line_loop_view [OF v2, of "M - int (length data)" "[]"] all by (auto simp: new_def)
    let ?f3 = "f2\<lparr>in_bufpos := int (q + length new)\<rparr>"
    have seek: "in_seek (int (q + length new)) f2 = (Inr (), ?f3)" "view B (q + length new) r ?f3"
      using in_seek_view [OF l(2,3)] by auto
    have pos: "in_pos ?f1 + int (length new) = int (q + length new)" using v by simp
    have sync: "(in_bufpos ?f1 \<noteq> in_pos ?f1) = False" using v all by simp
    have "in_readline (if limited then Some m else None) f = Some (Inr (data @ new), ?f3)"
      unfolding in_readline_def first prod.case sum.case buffer
      by (simp only: False sync if_False l(1) option.case prod.case sum.case pos seek(1))
    moreover have "p + length (data @ new) = q + length new" using all v by simp
    moreover note new_def
    ultimately show ?thesis using seek(2) all goal by metis
  qed
qed

definition demo_input :: input_file where
  "demo_input = \<lparr>in_stream = ''gh'', in_length = 8, in_pos = 6, in_buf = [CHR ''a'', CHR ''b'', LF, CHR ''d'', CHR ''e'', CHR ''f''],
     in_bufpos = 1, in_closed = False\<rparr>"

definition demo_body :: string where
  "demo_body = [CHR ''a'', CHR ''b'', LF, CHR ''d'', CHR ''e'', CHR ''f'', CHR ''g'', CHR ''h'']"

lemma demo_view: "view demo_body 1 6 demo_input"
  by (simp add: view_def demo_input_def demo_body_def)

theorem input_file_reads_body_witness:
  "\<exists>f' q'. in_read 6 demo_input = (Inr [CHR ''b'', LF, CHR ''d'', CHR ''e'', CHR ''f'', CHR ''g''], f') \<and> view demo_body 7 q' f'"
  using input_file_reads_body [OF demo_view, of 6] by (simp add: demo_body_def eval_nat_numeral)

theorem request_body_complete_witness:
  "\<exists>f'. request_body demo_input = (Inr demo_body, f') \<and> view demo_body 1 8 f'"
  using request_body_complete [OF demo_view] by (simp add: demo_body_def eval_nat_numeral)

theorem seek_forward_falls_short_witness:
  "\<exists>f'. in_seek 8 demo_input = (Inr (), f') \<and> in_tell f' = (Inr 3, f')"
  using seek_forward_falls_short [OF demo_view, of 8] by (simp add: demo_body_def)

theorem readline_gives_line_witness:
  "\<exists>f' d q'. in_readline None demo_input = Some (Inr d, f') \<and> view demo_body (1 + length d) q' f' \<and> d = [CHR ''b'', LF]"
  using readline_gives_line [OF demo_view, of 0 False] by (simp add: demo_body_def LF_def)

end
