(* ===== verification/Request.thy ===== *)
theory Request
  imports Input_File Http_Headers Wpt_Utils
begin

text \<open>
  \<open>Request\<close> of wptserve's request.py: the URL of a request, its query parameters, form fields, cookies and
  credentials. Texts from the connection are Latin-1; decoded query text may have any code point. The
  standard library functions the class calls are modelled with it: \<open>urlsplit\<close>, \<open>unquote\<close>, \<open>parse_qsl\<close> and
  \<open>b64decode\<close>; the form parser \<open>cgi.FieldStorage\<close> and the cookie parser are parameters.
\<close>

section \<open>URLs\<close>

record url_parts =
  up_scheme :: string
  up_netloc :: string
  up_path :: string
  up_query :: string
  up_fragment :: string

definition scheme_char :: "char \<Rightarrow> bool" where
  "scheme_char c \<longleftrightarrow> is_upper c \<or> is_lower c \<or> is_digit c \<or> c \<in> set ''+-.''"

text \<open>The part before the first character of \<open>cs\<close>, and the part from it on.\<close>

definition break_at :: "string \<Rightarrow> string \<Rightarrow> string \<times> string" where
  "break_at cs s = (takeWhile (\<lambda>c. c \<notin> set cs) s, dropWhile (\<lambda>c. c \<notin> set cs) s)"

definition urlsplit :: "string \<Rightarrow> url_parts res" where
  "urlsplit s =
     (let u0 = filter (\<lambda>c. c \<notin> {CHR 0x09, CHR 0x0A, CHR 0x0D}) (dropWhile (\<lambda>c. (of_char c :: nat) \<le> 32) s);
          (before, after) = break_at '':'' u0;
          has_scheme = (after \<noteq> [] \<and> before \<noteq> [] \<and> (is_upper (hd before) \<or> is_lower (hd before)) \<and> list_all scheme_char before);
          scheme = (if has_scheme then py_lower before else []);
          u1 = (if has_scheme then drop 1 after else u0);
          (netloc, u2) = (if starts_with ''//'' u1 then break_at ''/?#'' (drop 2 u1) else ([], u1));
          (u3, frag) = break_at ''#'' u2;
          (path, query) = break_at ''?'' u3
      in if (CHR ''['' \<in> set netloc) \<noteq> (CHR '']'' \<in> set netloc) then Inl ValueError
         else Inr \<lparr>up_scheme = scheme, up_netloc = netloc, up_path = path, up_query = drop 1 query, up_fragment = drop 1 frag\<rparr>)"

text \<open>What the class reads of the server and of the parsed request head.\<close>

record head =
  hd_scheme :: string
  hd_server_host :: string
  hd_server_port :: int
  hd_protocol :: string
  hd_command :: string
  hd_path :: string
  hd_headers :: raw_headers
  hd_body :: string

record request =
  req_method :: string
  req_protocol :: string
  req_path :: string
  req_url :: string
  req_url_parts :: url_parts
  req_raw_headers :: raw_headers
  req_input :: input_file

definition request_host_port :: "head \<Rightarrow> string \<times> string" where
  "request_host_port h =
     (case raw_get (hd_headers h) ''Host'' of
        None \<Rightarrow> (hd_server_host h, int_str (hd_server_port h))
      | Some host \<Rightarrow>
          (case split_once (CHR '':'') host of [a, b] \<Rightarrow> (a, b) | _ \<Rightarrow> (host, int_str (hd_server_port h))))"

definition request_url :: "head \<Rightarrow> string" where
  "request_url h =
     (if starts_with (hd_scheme h @ ''://'') (hd_path h) then hd_path h
      else (case request_host_port h of (host, port) \<Rightarrow> hd_scheme h @ ''://'' @ host @ '':'' @ port @ hd_path h))"

definition mk_request :: "head \<Rightarrow> request res" where
  "mk_request h =
     rbind (urlsplit (request_url h)) (\<lambda>parts.
     rbind (case raw_get (hd_headers h) ''Content-Length'' of None \<Rightarrow> Inr 0 | Some s \<Rightarrow> of_option ValueError (py_int s)) (\<lambda>len.
       Inr \<lparr>req_method = hd_command h, req_protocol = hd_protocol h, req_path = hd_path h, req_url = request_url h,
            req_url_parts = parts, req_raw_headers = hd_headers h, req_input = new_input_file (hd_body h) len\<rparr>))"

section \<open>Query parameters\<close>

text \<open>Bytes as UTF-8, with the replacement character for each invalid part.\<close>

definition is_cont :: "nat \<Rightarrow> bool" where
  "is_cont b \<longleftrightarrow> 128 \<le> b \<and> b \<le> 191"

text \<open>For a lead byte: the number of bytes that follow, and the range of the first of them.\<close>

definition utf8_lead :: "nat \<Rightarrow> (nat \<times> nat \<times> nat) option" where
  "utf8_lead b =
     (if 194 \<le> b \<and> b \<le> 223 then Some (1, 128, 191)
      else if b = 224 then Some (2, 160, 191)
      else if b = 237 then Some (2, 128, 159)
      else if 225 \<le> b \<and> b \<le> 239 then Some (2, 128, 191)
      else if b = 240 then Some (3, 144, 191)
      else if 241 \<le> b \<and> b \<le> 243 then Some (3, 128, 191)
      else if b = 244 then Some (3, 128, 143)
      else None)"

definition lead_bits :: "nat \<Rightarrow> nat \<Rightarrow> nat" where
  "lead_bits n b = (if n = 1 then b mod 32 else if n = 2 then b mod 16 else b mod 8)"

text \<open>The flag-like argument: the bytes still missing, the allowed range of the next, and the code point so far.\<close>

fun utf8_replace :: "(nat \<times> nat \<times> nat \<times> nat) option \<Rightarrow> nat list \<Rightarrow> ustr" where
  "utf8_replace None [] = []"
| "utf8_replace (Some _) [] = [65533]"
| "utf8_replace None (b # bs) =
     (if b < 128 then b # utf8_replace None bs
      else (case utf8_lead b of
              None \<Rightarrow> 65533 # utf8_replace None bs
            | Some (n, lo, hi) \<Rightarrow> utf8_replace (Some (n, lo, hi, lead_bits n b)) bs))"
| "utf8_replace (Some (n, lo, hi, acc)) (b # bs) =
     (if lo \<le> b \<and> b \<le> hi
      then (if n \<le> 1 then (64 * acc + b mod 64) # utf8_replace None bs
            else utf8_replace (Some (n - 1, 128, 191, 64 * acc + b mod 64)) bs)
      else 65533 # (if b < 128 then b # utf8_replace None bs
                    else (case utf8_lead b of
                            None \<Rightarrow> 65533 # utf8_replace None bs
                          | Some (n', lo', hi') \<Rightarrow> utf8_replace (Some (n', lo', hi', lead_bits n' b)) bs)))"

definition hex_digit :: "nat \<Rightarrow> nat option" where
  "hex_digit c =
     (if 48 \<le> c \<and> c \<le> 57 then Some (c - 48) else if 65 \<le> c \<and> c \<le> 70 then Some (c - 55)
      else if 97 \<le> c \<and> c \<le> 102 then Some (c - 87) else None)"

text \<open>\<open>unquote_to_bytes\<close>: a percent sign with two hexadecimal digits is a byte.\<close>

fun unquote_bytes :: "nat list \<Rightarrow> nat list" where
  "unquote_bytes (p # h # l # cs) =
     (case (if p = 37 then hex_digit h else None, hex_digit l) of
        (Some a, Some b) \<Rightarrow> (16 * a + b) # unquote_bytes cs
      | _ \<Rightarrow> p # unquote_bytes (h # l # cs))"
| "unquote_bytes (c # cs) = c # unquote_bytes cs"
| "unquote_bytes [] = []"

text \<open>\<open>unquote\<close>: runs of ASCII are unquoted and decoded, other characters are kept.\<close>

function unquote_with :: "(nat list \<Rightarrow> ustr) \<Rightarrow> ustr \<Rightarrow> ustr" where
  "unquote_with decode s =
     (if s = [] then []
      else if hd s < 128
      then decode (unquote_bytes (takeWhile (\<lambda>c. c < 128) s)) @ unquote_with decode (dropWhile (\<lambda>c. c < 128) s)
      else hd s # unquote_with decode (tl s))"
  by auto

termination unquote_with
  by (relation "measure (\<lambda>(_, s). length s)")
    (auto simp: neq_Nil_conv less_Suc_eq_le length_dropWhile_le)

declare unquote_with.simps [simp del]

definition unquote :: "ustr \<Rightarrow> ustr" where
  "unquote s = unquote_with (utf8_replace None) s"

definition unquote_latin1 :: "ustr \<Rightarrow> ustr" where
  "unquote_latin1 s = unquote_with id s"

definition plus_to_space :: "ustr \<Rightarrow> ustr" where
  "plus_to_space s = map (\<lambda>c. if c = 43 then 32 else c) s"

text \<open>\<open>parse_qsl\<close> with blank values kept.\<close>

definition parse_qsl :: "ustr \<Rightarrow> (ustr \<times> ustr) list" where
  "parse_qsl q =
     concat (map (\<lambda>nv.
        if nv = [] then []
        else (case split_once 61 nv of
                [n, v] \<Rightarrow> [(unquote_latin1 (plus_to_space n), unquote_latin1 (plus_to_space v))]
              | _ \<Rightarrow> [(unquote_latin1 (plus_to_space nv), [])])) (split_on 38 q))"

definition request_GET :: "request \<Rightarrow> (ustr, ustr) multidict" where
  "request_GET r =
     (let final_query = unquote (map of_char (up_query (req_url_parts r)))
      in md_of_pairs (parse_qsl final_query))"

section \<open>Form fields\<close>

text \<open>A field of \<open>cgi.FieldStorage\<close>: a text, or an upload, which has a file name.\<close>

datatype field = TextField ustr | Upload (file_name: ustr) (file_data: string)

text \<open>The values of the resulting dictionary: encoded texts, and uploads as they are.\<close>

datatype form_value = FormText string | FormUpload ustr string

definition form_value :: "field \<Rightarrow> form_value res" where
  "form_value f = (case f of
     TextField t \<Rightarrow> rbind (isomorphic_encode t) (\<lambda>b. Inr (FormText b))
   | Upload n d \<Rightarrow> if n = [] then Inr (FormText d) else Inr (FormUpload n d))"

text \<open>The fields as \<open>fs\<close> iterates over its keys, each with its list of values; \<open>None\<close> without a list.\<close>

fun add_values :: "string \<Rightarrow> field list \<Rightarrow> (string, form_value) multidict \<Rightarrow> (string, form_value) multidict res" where
  "add_values key [] d = Inr d"
| "add_values key (f # fs) d = rbind (form_value f) (\<lambda>v. add_values key fs (md_add key v d))"

fun add_fields :: "(ustr \<times> field list) list \<Rightarrow> (string, form_value) multidict \<Rightarrow> (string, form_value) multidict res" where
  "add_fields [] d = Inr d"
| "add_fields ((key, vals) # fs) d =
     (if vals = [] then add_fields fs d
      else rbind (isomorphic_encode key) (\<lambda>k. rbind (add_values k vals d) (add_fields fs)))"

definition from_field_storage :: "(ustr \<times> field list) list option \<Rightarrow> (string, form_value) multidict res" where
  "from_field_storage fs = (case fs of None \<Rightarrow> Inr [] | Some l \<Rightarrow> add_fields l [])"

definition request_POST ::
  "(ustr \<times> field list) list option reading \<Rightarrow> (string, form_value) multidict reading" where
  "request_POST field_storage =
     and_then in_tell (\<lambda>pos.
     and_then (in_seek 0) (\<lambda>_.
     and_then field_storage (\<lambda>fs.
     and_then (of_res (from_field_storage fs)) (\<lambda>post.
     and_then (in_seek pos) (\<lambda>_. give post)))))"

section \<open>Credentials\<close>

definition base64_val :: "char \<Rightarrow> nat option" where
  "base64_val c =
     (let n = of_char c :: nat
      in if is_upper c then Some (n - 65) else if is_lower c then Some (n - 71) else if is_digit c then Some (n + 4)
         else if c = CHR ''+'' then Some 62 else if c = CHR ''/'' then Some 63 else None)"

text \<open>
  \<open>b64decode\<close>, which skips other characters: \<open>q\<close> is the position in the group of four, \<open>left\<close> the bits not
  yet given out, and \<open>pads\<close> counts the padding characters in a row.
\<close>

fun b64_loop :: "nat \<Rightarrow> nat \<Rightarrow> nat \<Rightarrow> string \<Rightarrow> string res" where
  "b64_loop q left pads [] = (if q = 0 then Inr [] else Inl ValueError)"
| "b64_loop q left pads (c # cs) =
     (if c = CHR ''='' then
        (if 2 \<le> q then (if 4 \<le> q + pads + 1 then Inr [] else b64_loop q left (pads + 1) cs)
         else b64_loop q left pads cs)
      else (case base64_val c of
              None \<Rightarrow> b64_loop q left pads cs
            | Some v \<Rightarrow>
                if q = 0 then b64_loop 1 v 0 cs
                else if q = 1 then rbind (b64_loop 2 (v mod 16) 0 cs) (\<lambda>r. Inr (char_of (4 * left + v div 16) # r))
                else if q = 2 then rbind (b64_loop 3 (v mod 4) 0 cs) (\<lambda>r. Inr (char_of (16 * left + v div 4) # r))
                else rbind (b64_loop 0 0 0 cs) (\<lambda>r. Inr (char_of (64 * left + v) # r))))"

definition b64decode :: "string \<Rightarrow> string res" where
  "b64decode s = b64_loop 0 0 0 s"

text \<open>\<open>repr\<close> of bytes, in the error message.\<close>

definition hex_text :: "nat \<Rightarrow> char" where
  "hex_text d = char_of (if d < 10 then 48 + d else 87 + d)"

definition bytes_repr :: "string \<Rightarrow> string" where
  "bytes_repr s =
     (let q = (if CHR 0x27 \<in> set s \<and> CHR 0x22 \<notin> set s then CHR 0x22 else CHR 0x27)
      in ''b'' @ [q] @ concat (map (\<lambda>c.
           let n = of_char c :: nat
           in if c = q \<or> n = 92 then [CHR 0x5C, c]
              else if n = 9 then [CHR 0x5C, CHR ''t''] else if n = 10 then [CHR 0x5C, CHR ''n'']
              else if n = 13 then [CHR 0x5C, CHR ''r'']
              else if n < 32 \<or> 127 \<le> n then [CHR 0x5C, CHR ''x'', hex_text (n div 16), hex_text (n mod 16)]
              else [c]) s) @ [q])"

definition decode_basic :: "string \<Rightarrow> (string \<times> string) res" where
  "decode_basic data =
     rbind (b64decode data) (\<lambda>d. case split_once (CHR '':'') d of [u, p] \<Rightarrow> Inr (u, p) | _ \<Rightarrow> Inl ValueError)"

definition authentication :: "req_headers \<Rightarrow> (string option \<times> string option) res" where
  "authentication h =
     (case rq_get h ''authorization'' of
        None \<Rightarrow> Inr (None, None)
      | Some header \<Rightarrow>
          (case split_once (CHR '' '') header of
             [auth_type, data] \<Rightarrow>
               if auth_type = ''Basic'' then rbind (decode_basic data) (\<lambda>(u, p). Inr (Some u, Some p))
               else Inl (HTTPException 400 (''Unsupported authentication scheme '' @ bytes_repr auth_type))
           | _ \<Rightarrow> Inl ValueError))"

section \<open>Round trips\<close>

definition plain :: "char \<Rightarrow> bool" where
  "plain c \<longleftrightarrow> (of_char c :: nat) < 128 \<and> c \<notin> set ''%&+=''"

definition query_string :: "(string \<times> string) list \<Rightarrow> string" where
  "query_string kvs = join_with ''&'' (map (\<lambda>(k, v). k @ ''='' @ v) kvs)"

lemma unquote_bytes_plain: "37 \<notin> set s \<Longrightarrow> unquote_bytes s = s"
  by (induction s rule: unquote_bytes.induct) (auto split: option.split)

lemma utf8_replace_ascii: "\<forall>b \<in> set s. b < 128 \<Longrightarrow> utf8_replace None s = s"
  by (induction s) auto

lemma unquote_with_plain:
  assumes "\<forall>c \<in> set s. c < 128 \<and> c \<noteq> 37" and "decode s = s"
  shows "unquote_with decode s = s"
proof (cases s)
  case (Cons c cs)
  have tw: "takeWhile (\<lambda>c. c < 128) cs = cs" "dropWhile (\<lambda>c. c < 128) cs = []"
    using assms(1) Cons by (auto simp: takeWhile_eq_all_conv dropWhile_eq_Nil_conv)
  moreover have "unquote_bytes s = s" using assms(1) by (intro unquote_bytes_plain) auto
  moreover have "unquote_with decode [] = []" by (simp add: unquote_with.simps)
  ultimately show ?thesis using assms Cons by (subst unquote_with.simps) (simp add: tw)
qed (simp add: unquote_with.simps)

lemma unquote_plain: "\<forall>c \<in> set s. c < 128 \<and> c \<noteq> 37 \<Longrightarrow> unquote s = s"
  unfolding unquote_def by (rule unquote_with_plain) (auto intro: utf8_replace_ascii)

lemma unquote_latin1_plain: "\<forall>c \<in> set s. c < 128 \<and> c \<noteq> 37 \<Longrightarrow> unquote_latin1 s = s"
  unfolding unquote_latin1_def by (rule unquote_with_plain) auto

lemma map_join_with: "map f (join_with sep xs) = join_with (map f sep) (map (map f) xs)"
  by (induction sep xs rule: join_with.induct) auto

lemma split_once_at: "c \<notin> set a \<Longrightarrow> split_once c (a @ c # b) = [a, b]"
proof -
  assume c: "c \<notin> set a"
  then have "takeWhile (\<lambda>x. x \<noteq> c) (a @ c # b) = a" "dropWhile (\<lambda>x. x \<noteq> c) (a @ c # b) = c # b"
    by (induction a) auto
  then show ?thesis by (simp add: split_once_def)
qed

lemma plain_chars:
  "char_of (37 :: nat) = CHR ''%''" "char_of (38 :: nat) = CHR ''&''" "char_of (43 :: nat) = CHR ''+''"
  "char_of (61 :: nat) = CHR ''=''"
  by code_simp+

lemma concat_map_single: "\<forall>x \<in> set xs. f x = [g x] \<Longrightarrow> concat (map f xs) = map g xs"
  by (induction xs) auto

lemma plain_cp: "list_all plain s \<Longrightarrow> \<forall>c \<in> set (cp s). c < 128 \<and> c \<noteq> 37 \<and> c \<noteq> 38 \<and> c \<noteq> 43 \<and> c \<noteq> 61"
proof
  fix n assume s: "list_all plain s" and "n \<in> set (cp s)"
  then obtain c where c: "c \<in> set s" "n = of_char c" by (auto simp: cp_def)
  then have "c \<notin> {char_of (37 :: nat), char_of (38 :: nat), char_of (43 :: nat), char_of (61 :: nat)}" "n < 128"
    using s by (auto simp: plain_def list_all_iff plain_chars)
  then show "n < 128 \<and> n \<noteq> 37 \<and> n \<noteq> 38 \<and> n \<noteq> 43 \<and> n \<noteq> 61" using c(2) by (metis char_of_char insertCI)
qed

lemma plain_value:
  assumes "list_all plain s" shows "unquote_latin1 (plus_to_space (cp s)) = cp s"
proof -
  have c: "\<forall>c \<in> set (cp s). c < 128 \<and> c \<noteq> 37" "\<forall>c \<in> set (cp s). c \<noteq> 43"
    using plain_cp [OF assms] by blast+
  have "plus_to_space t = t" if "\<forall>c \<in> set t. c \<noteq> 43" for t
    using that unfolding plus_to_space_def by (induction t) simp_all
  then show ?thesis using unquote_latin1_plain [OF c(1)] c(2) by metis
qed

lemma query_items:
  assumes "list_all (\<lambda>(k, v). list_all plain k \<and> list_all plain v) kvs" "kvs \<noteq> []"
  shows "split_on 38 (cp (query_string kvs)) = map (\<lambda>(k, v). cp k @ 61 # cp v) kvs"
    and "(k, v) \<in> set kvs \<Longrightarrow> split_once 61 (cp k @ 61 # cp v) = [cp k, cp v]"
proof -
  let ?nv = "\<lambda>(k, v). cp k @ 61 # cp v"
  have p: "list_all plain k \<and> list_all plain v" if "(k, v) \<in> set kvs" for k v
    using assms(1) that by (auto simp: list_all_iff)
  have q: "cp (query_string kvs) = join_with [38] (map ?nv kvs)"
    by (simp add: query_string_def cp_def map_join_with comp_def split_def)
  have "38 \<notin> set (?nv kv)" if "kv \<in> set kvs" for kv
  proof -
    obtain k v where kv: "kv = (k, v)" by (cases kv)
    then have "38 \<notin> set (cp k)" "38 \<notin> set (cp v)" using p [of k v] that plain_cp by blast+
    then show ?thesis by (simp add: kv)
  qed
  then show "split_on 38 (cp (query_string kvs)) = map ?nv kvs" unfolding q using assms(2) by (intro split_on_join) auto
  show "split_once 61 (cp k @ 61 # cp v) = [cp k, cp v]" if "(k, v) \<in> set kvs"
    using p [OF that] plain_cp by (intro split_once_at) blast
qed

lemma parse_qsl_plain:
  assumes "list_all (\<lambda>(k, v). list_all plain k \<and> list_all plain v) kvs"
  shows "parse_qsl (cp (query_string kvs)) = map (\<lambda>(k, v). (cp k, cp v)) kvs"
proof (cases "kvs = []")
  case True
  then show ?thesis by (simp add: query_string_def parse_qsl_def cp_def)
next
  case False
  let ?nv = "\<lambda>(k, v). cp k @ 61 # cp v"
  let ?item = "\<lambda>nv. if nv = [] then []
      else (case split_once 61 nv of
              [n, v] \<Rightarrow> [(unquote_latin1 (plus_to_space n), unquote_latin1 (plus_to_space v))]
            | _ \<Rightarrow> [(unquote_latin1 (plus_to_space nv), [])])"
  have "?item (?nv kv) = [(\<lambda>(k, v). (cp k, cp v)) kv]" if "kv \<in> set kvs" for kv
    using query_items(2) [OF assms False] plain_value assms that by (cases kv) (auto simp: list_all_iff)
  then have "concat (map (\<lambda>kv. ?item (?nv kv)) kvs) = map (\<lambda>(k, v). (cp k, cp v)) kvs"
    by (intro concat_map_single) blast
  then show ?thesis unfolding parse_qsl_def query_items(1) [OF assms False] map_map comp_def .
qed

lemma request_GET_plain:
  assumes "up_query (req_url_parts r) = query_string kvs"
    and "list_all (\<lambda>(k, v). list_all plain k \<and> list_all plain v) kvs"
  shows "request_GET r = md_of_pairs (map (\<lambda>(k, v). (cp k, cp v)) kvs)"
proof -
  let ?q = "cp (query_string kvs)"
  have "plain c \<or> c \<in> set ''&=''" if "c \<in> set (query_string kvs)" for c
    using that assms(2)
  proof (induction kvs)
    case (Cons kv kvs)
    obtain k v where "kv = (k, v)" by (cases kv)
    then show ?case using Cons by (cases kvs) (auto simp: query_string_def list_all_iff)
  qed (simp add: query_string_def)
  moreover have "(of_char c :: nat) < 128 \<and> (of_char c :: nat) \<noteq> 37" if "plain c \<or> c \<in> set ''&=''" for c
  proof -
    have "c \<noteq> char_of (37 :: nat)" using that by (auto simp: plain_def plain_chars)
    then have "(of_char c :: nat) \<noteq> 37" by (metis char_of_char)
    then show ?thesis using that by (auto simp: plain_def)
  qed
  ultimately have "unquote ?q = ?q" by (intro unquote_plain) (auto simp: cp_def)
  then show ?thesis
    using parse_qsl_plain [OF assms(2)] by (simp add: request_GET_def assms(1) cp_def Let_def)
qed

text \<open>
  C25: a handler gets the query parameters that were sent: a query string of pairs without percent, plus,
  ampersand or equals sign in a name or value is decoded to exactly these pairs, and the dictionary lists the
  values of a name in order.
\<close>

theorem query_parameters_arrive:
  assumes "up_query (req_url_parts r) = query_string kvs"
    and "list_all (\<lambda>(k, v). list_all plain k \<and> list_all plain v) kvs"
  shows "md_get_list (request_GET r) n = map (cp \<circ> snd) (filter (\<lambda>(k, v). cp k = n) kvs)"
  unfolding request_GET_plain [OF assms] using multidict_of_pairs [of "map (\<lambda>(k, v). (cp k, cp v)) kvs" n]
  by (simp add: filter_map comp_def split_def)

definition demo_parts :: url_parts where
  "demo_parts = \<lparr>up_scheme = ''http'', up_netloc = ''h:80'', up_path = ''/t'', up_query = ''x=1&y=2&x=3'', up_fragment = []\<rparr>"

lemma demo_split: "urlsplit ''http://h:80/t?x=1&y=2&x=3'' = Inr demo_parts"
  by code_simp

definition demo_request :: request where
  "demo_request = \<lparr>req_method = ''GET'', req_protocol = ''HTTP/1.1'', req_path = ''/t?x=1&y=2&x=3'',
     req_url = ''http://h:80/t?x=1&y=2&x=3'', req_url_parts = demo_parts, req_raw_headers = [(''Host'', ''h'')],
     req_input = new_input_file [] 0\<rparr>"

lemma demo_request:
  "mk_request \<lparr>hd_scheme = ''http'', hd_server_host = ''h'', hd_server_port = 80, hd_protocol = ''HTTP/1.1'',
     hd_command = ''GET'', hd_path = ''/t?x=1&y=2&x=3'', hd_headers = [(''Host'', ''h'')], hd_body = []\<rparr> = Inr demo_request"
  by code_simp

theorem query_parameters_arrive_witness:
  "md_get_list (request_GET demo_request) (cp ''x'') = [cp ''1'', cp ''3'']"
proof -
  let ?kvs = "[(''x'', ''1''), (''y'', ''2''), (''x'', ''3'')]"
  have q: "up_query (req_url_parts demo_request) = query_string ?kvs"
    by (simp add: demo_request_def demo_parts_def query_string_def)
  have "list_all (\<lambda>(k, v). list_all plain k \<and> list_all plain v) ?kvs" by (simp add: plain_def)
  from query_parameters_arrive [OF q this, of "cp ''x''"] show ?thesis by (simp add: cp_def)
qed

text \<open>
  The query is decoded twice, the first time before it is split: an encoded ampersand in a value separates
  parameters.
\<close>

lemma encoded_ampersand_splits: "parse_qsl (unquote (cp ''a=1%26b=2'')) = [(cp ''a'', cp ''1''), (cp ''b'', cp ''2'')]"
  by code_simp

end
