(* ===== verification/Pipes.thy ===== *)
theory Pipes
  imports Response_Writer
begin

text \<open>
  Pipes (\<open>tools/wptserve/wptserve/pipes.py\<close>): the tokenizer of pipe strings, the pipeline, the check and
  conversion of arguments, and the pipes \<open>status\<close>, \<open>header\<close>, \<open>slice\<close>, \<open>gzip\<close> and \<open>trickle\<close>. Pipe strings are
  Latin-1 texts. Compression, the parsing of delays and sleeping are parameters.
\<close>

section \<open>The tokenizer\<close>

datatype pipe_token = PFunction string | PArgument string

definition escape_char :: "char \<Rightarrow> char" where
  "escape_char c = (if c = CHR ''n'' then CHR 0x0A else if c = CHR ''r'' then CHR 0x0D
                    else if c = CHR ''t'' then CHR 0x09 else c)"

text \<open>
  The tokens in the order the generator yields them, with the exception that ends it: a backslash at the
  end adds \<open>None\<close> to a text. The flag is the state: names, or arguments.
\<close>

fun pipe_tokens :: "bool \<Rightarrow> string \<Rightarrow> string \<Rightarrow> pipe_token res list" where
  "pipe_tokens False rv [] = (if rv \<noteq> [] then [Inr (PFunction rv)] else [])"
| "pipe_tokens False rv (c # cs) =
     (if c = CHR ''('' then Inr (PFunction rv) # pipe_tokens True [] cs
      else if c = CHR ''|'' then (if rv \<noteq> [] then Inr (PFunction rv) # pipe_tokens False [] cs else pipe_tokens False [] cs)
      else pipe_tokens False (rv @ [c]) cs)"
| "pipe_tokens True rv [] = [Inr (PArgument rv)]"
| "pipe_tokens True rv (c # cs) =
     (if c = CHR 0x5C then (case cs of [] \<Rightarrow> [Inl TypeError] | e # cs' \<Rightarrow> pipe_tokens True (rv @ [escape_char e]) cs')
      else if c = CHR '','' then Inr (PArgument rv) # pipe_tokens True [] cs
      else if c = CHR '')'' then Inr (PArgument rv) # pipe_tokens False [] cs
      else pipe_tokens True (rv @ [c]) cs)"

definition tokenize :: "string \<Rightarrow> pipe_token res list" where
  "tokenize s = pipe_tokens False [] s"

section \<open>The pipeline\<close>

datatype pipe_name = Pipe_status | Pipe_header | Pipe_trickle | Pipe_slice | Pipe_sub | Pipe_gzip

definition pipes :: "(string \<times> pipe_name) list" where
  "pipes = [(''status'', Pipe_status), (''header'', Pipe_header), (''trickle'', Pipe_trickle),
            (''slice'', Pipe_slice), (''sub'', Pipe_sub), (''gzip'', Pipe_gzip)]"

fun parse_pipes :: "pipe_token res list \<Rightarrow> (pipe_name \<times> string list) list \<Rightarrow> (pipe_name \<times> string list) list res" where
  "parse_pipes [] functions = Inr functions"
| "parse_pipes (Inl e # ts) functions = Inl e"
| "parse_pipes (Inr (PFunction n) # ts) functions =
     (case map_of pipes n of None \<Rightarrow> Inl KeyError | Some f \<Rightarrow> parse_pipes ts (functions @ [(f, [])]))"
| "parse_pipes (Inr (PArgument a) # ts) functions =
     (if functions = [] then Inl IndexError
      else parse_pipes ts (butlast functions @ [(fst (last functions), snd (last functions) @ [a])]))"

definition parse_pipeline :: "string \<Rightarrow> (pipe_name \<times> string list) list res" where
  "parse_pipeline s = parse_pipes (tokenize s) []"

section \<open>Arguments\<close>

datatype pipe_value = VInt int | VText string | VBool bool | VNull

datatype converter = ConvInt | ConvText | ConvBool | Nullable converter

definition text_lower :: "string \<Rightarrow> string" where
  "text_lower s = map latin1_lower s"

fun convert :: "converter \<Rightarrow> string \<Rightarrow> pipe_value res" where
  "convert ConvInt s = rbind (of_option ValueError (py_int s)) (\<lambda>i. Inr (VInt i))"
| "convert ConvText s = Inr (VText s)"
| "convert ConvBool s =
     (if text_lower s \<in> {''true'', ''1''} then Inr (VBool True)
      else if text_lower s \<in> {''false'', ''0''} then Inr (VBool False) else Inl ValueError)"
| "convert (Nullable c) s = (if text_lower s = ''null'' then Inr VNull else convert c s)"

text \<open>The converters of the mandatory and the optional arguments.\<close>

definition converters :: "pipe_name \<Rightarrow> converter list \<times> converter list" where
  "converters p = (case p of
     Pipe_status \<Rightarrow> ([ConvInt], [])
   | Pipe_header \<Rightarrow> ([ConvText, ConvText], [ConvBool])
   | Pipe_trickle \<Rightarrow> ([ConvText], [])
   | Pipe_slice \<Rightarrow> ([Nullable ConvInt], [Nullable ConvInt])
   | Pipe_sub \<Rightarrow> ([], [Nullable ConvText])
   | Pipe_gzip \<Rightarrow> ([], []))"

definition convert_args :: "pipe_name \<Rightarrow> string list \<Rightarrow> pipe_value list res" where
  "convert_args p args =
     (case converters p of (mandatory, optional) \<Rightarrow>
        if \<not> (length mandatory \<le> length args \<and> length args \<le> length mandatory + length optional) then Inl ValueError
        else rmap (\<lambda>(c, a). convert c a) (zip (mandatory @ optional) args))"

section \<open>The content as bytes\<close>

text \<open>\<open>resolve_content\<close>: a file is read to its end and closed; items that are not bytes cannot be joined.\<close>

definition join_chunks :: "chunk list \<Rightarrow> string res" where
  "join_chunks cs = rbind (rmap (\<lambda>c. case c of Plain (DBytes b) \<Rightarrow> Inr b | _ \<Rightarrow> Inl TypeError) cs) (\<lambda>bs. Inr (concat bs))"

definition resolve_content :: "string writing" where
  "resolve_content =
     and_then get_state (\<lambda>st.
     and_then (of_res (rmap id (iter_content (rs_content st)))) (\<lambda>chunks.
     and_then (if is_file (rs_content st) then close_content else give ()) (\<lambda>_. of_res (join_chunks chunks))))"

definition headers_set :: "string \<Rightarrow> pyval \<Rightarrow> unit writing" where
  "headers_set name val =
     and_then get_state (\<lambda>st. case rs_headers st of
         HObject h \<Rightarrow> change (\<lambda>st. st\<lparr>rs_headers := HObject (rh_set (PStr name) val h)\<rparr>)
       | HList _ \<Rightarrow> raise AttributeError)"

definition headers_append :: "string \<Rightarrow> pyval \<Rightarrow> unit writing" where
  "headers_append name val =
     and_then get_state (\<lambda>st. case rs_headers st of
         HObject h \<Rightarrow> change (\<lambda>st. st\<lparr>rs_headers := HObject (rh_append (PStr name) val h)\<rparr>)
       | HList _ \<Rightarrow> raise TypeError)"

definition set_content :: "content \<Rightarrow> unit writing" where
  "set_content c = change (\<lambda>st. st\<lparr>rs_content := c\<rparr>)"

text \<open>Python's slices \<open>xs[start:end]\<close>.\<close>

definition slice_bound :: "nat \<Rightarrow> int \<Rightarrow> nat" where
  "slice_bound n i = (if i < 0 then nat (int n + i) else min n (nat i))"

definition py_slice :: "int option \<Rightarrow> int option \<Rightarrow> 'a list \<Rightarrow> 'a list" where
  "py_slice a b xs =
     slice_of (case a of None \<Rightarrow> 0 | Some i \<Rightarrow> slice_bound (length xs) i)
              (case b of None \<Rightarrow> length xs | Some i \<Rightarrow> slice_bound (length xs) i) xs"

section \<open>Simple pipes\<close>

definition pipe_status :: "int \<Rightarrow> unit writing" where
  "pipe_status code = set_status (StNum code)"

definition pipe_header :: "string \<Rightarrow> string \<Rightarrow> bool \<Rightarrow> unit writing" where
  "pipe_header name val app = (if \<not> app then headers_set name (PStr val) else headers_append name (PStr val))"

definition pipe_slice :: "int option \<Rightarrow> int option \<Rightarrow> unit writing" where
  "pipe_slice start end' =
     and_then resolve_content (\<lambda>b.
       let content = py_slice start end' b
       in and_then (set_content (CData (DBytes content)))
            (\<lambda>_. headers_set ''Content-Length'' (PInt (int (length content)))))"

definition pipe_gzip :: "(string \<Rightarrow> string) \<Rightarrow> unit writing" where
  "pipe_gzip compress =
     and_then resolve_content (\<lambda>b.
     and_then (headers_set ''Content-Encoding'' (PStr ''gzip'')) (\<lambda>_.
     and_then (set_content (CData (DBytes (compress b)))) (\<lambda>_.
       headers_set ''Content-Length'' (PInt (int (length (compress b)))))))"

section \<open>Trickling\<close>

text \<open>A delay is given by what sleeping that long does: nothing, or an exception.\<close>

datatype delay = TrBytes int | TrDelay "exc option" | TrRepeat int

text \<open>Whether two items have the same type; adding to the value of the last one raises a \<open>TypeError\<close>.\<close>

definition same_type :: "delay \<Rightarrow> delay \<Rightarrow> bool" where
  "same_type a b = (case (a, b) of
     (TrBytes _, TrBytes _) \<Rightarrow> True | (TrDelay _, TrDelay _) \<Rightarrow> True | (TrRepeat _, TrRepeat _) \<Rightarrow> True | _ \<Rightarrow> False)"

text \<open>\<open>sleep\<close> is \<open>float\<close> followed by \<open>time.sleep\<close>; \<open>None\<close> for a text that is not a number.\<close>

definition parse_delay :: "(string \<Rightarrow> exc option option) \<Rightarrow> string \<Rightarrow> delay res" where
  "parse_delay sleep item =
     (if starts_with ''d'' item then rbind (of_option ValueError (sleep (drop 1 item))) (\<lambda>r. Inr (TrDelay r))
      else if starts_with ''r'' item
      then rbind (of_option ValueError (py_int (drop 1 item))) (\<lambda>v. if v mod 2 = 0 then Inr (TrRepeat v) else Inl ValueError)
      else rbind (of_option ValueError (py_int item)) (\<lambda>v. Inr (TrBytes v)))"

fun parse_delays_from :: "(string \<Rightarrow> exc option option) \<Rightarrow> string list \<Rightarrow> delay list \<Rightarrow> delay list res" where
  "parse_delays_from sleep [] rv = Inr rv"
| "parse_delays_from sleep (item # items) rv =
     rbind (parse_delay sleep item) (\<lambda>d.
       if rv \<noteq> [] \<and> same_type (last rv) d then Inl TypeError else parse_delays_from sleep items (rv @ [d]))"

definition parse_delays :: "(string \<Rightarrow> exc option option) \<Rightarrow> string \<Rightarrow> delay list res" where
  "parse_delays sleep delays = parse_delays_from sleep (split_on (CHR '':'') delays) []"

text \<open>
  One pass over the delays from an offset: the items the generator gives, a sleep giving none. A repetition
  that is not at the end is skipped.
\<close>

fun trickle_pass :: "string \<Rightarrow> delay list \<Rightarrow> int \<Rightarrow> item list \<times> int" where
  "trickle_pass content [] off = ([], off)"
| "trickle_pass content (TrBytes v # ds) off =
     (case trickle_pass content ds (off + v) of (items, off') \<Rightarrow>
        (Value (Some (Plain (DBytes (py_slice (Some off) (Some (off + v)) content)))) # items, off'))"
| "trickle_pass content (TrDelay r # ds) off =
     (case trickle_pass content ds off of (items, off') \<Rightarrow>
        (Call (case r of None \<Rightarrow> Inr None | Some e \<Rightarrow> Inl e) # items, off'))"
| "trickle_pass content (TrRepeat _ # ds) off = trickle_pass content ds off"

definition raises :: "item list \<Rightarrow> bool" where
  "raises items \<longleftrightarrow> list_ex (\<lambda>i. case i of Call (Inl _) \<Rightarrow> True | _ \<Rightarrow> False) items"

text \<open>The loop of a final repetition; \<open>None\<close> is a response that never ends.\<close>

partial_function (option) repeat_block :: "string \<Rightarrow> delay list \<Rightarrow> int \<Rightarrow> item list option" where
  "repeat_block content block off =
     (if off < int (length content)
      then (case trickle_pass content block off of (items, off') \<Rightarrow>
              if raises items then Some items
              else Option.bind (repeat_block content block off') (\<lambda>rest. Some (items @ rest)))
      else Some [])"

definition remainder :: "string \<Rightarrow> int \<Rightarrow> item list" where
  "remainder content off =
     (if off < int (length content) then [Value (Some (Plain (DBytes (py_slice (Some off) None content))))] else [])"

definition trickle_items :: "string \<Rightarrow> delay list \<Rightarrow> item list option" where
  "trickle_items content delays =
     (case trickle_pass content delays 0 of (items, off) \<Rightarrow>
        if delays = [] then Some []
        else (case last delays of
                TrRepeat v \<Rightarrow>
                  if raises items then Some items
                  else Option.bind (repeat_block content (py_slice (Some (- (v + 1))) (Some (- 1)) delays) off)
                         (\<lambda>rest. Some (items @ rest))
              | _ \<Rightarrow> Some (items @ remainder content off)))"

definition headers_contain :: "string \<Rightarrow> response \<Rightarrow> bool" where
  "headers_contain name st = (case rs_headers st of HObject h \<Rightarrow> rh_contains h (PStr name) | HList _ \<Rightarrow> False)"

definition no_cache_headers :: "unit writing" where
  "no_cache_headers =
     and_then get_state (\<lambda>st.
       if headers_contain ''Cache-Control'' st \<or> headers_contain ''Pragma'' st \<or> headers_contain ''Expires'' st then give ()
       else and_then (headers_set ''Cache-Control'' (PStr ''no-cache, no-store, must-revalidate'')) (\<lambda>_.
            and_then (headers_set ''Pragma'' (PStr ''no-cache'')) (\<lambda>_. headers_set ''Expires'' (PStr ''0''))))"

definition pipe_trickle ::
  "(string \<Rightarrow> exc option option) \<Rightarrow> string \<Rightarrow> response \<Rightarrow> ((exc + unit) \<times> response) option" where
  "pipe_trickle sleep delays st =
     (case and_then (of_res (parse_delays sleep delays)) (\<lambda>ds.
             and_then resolve_content (\<lambda>content. and_then no_cache_headers (\<lambda>_. give (ds, content)))) st of
        (Inl e, st') \<Rightarrow> Some (Inl e, st')
      | (Inr (ds, content), st') \<Rightarrow>
          map_option (\<lambda>items. (Inr (), st'\<lparr>rs_content := CItems items\<rparr>)) (trickle_items content ds))"

section \<open>Running a pipeline\<close>

text \<open>What the pipes use of the outside; \<open>pe_sub\<close> is the template substitution for an escape type.\<close>

record pipe_env =
  pe_sleep :: "string \<Rightarrow> exc option option"
  pe_gzip :: "string \<Rightarrow> string"
  pe_sub :: "string option \<Rightarrow> string \<Rightarrow> string res"

definition pipe_sub :: "(string option \<Rightarrow> string \<Rightarrow> string res) \<Rightarrow> string option \<Rightarrow> unit writing" where
  "pipe_sub subst escape_type =
     and_then resolve_content (\<lambda>content.
     and_then (of_res (subst escape_type content)) (\<lambda>new_content. set_content (CData (DBytes new_content))))"

definition opt_text :: "pipe_value \<Rightarrow> string option" where
  "opt_text v = (case v of VText s \<Rightarrow> Some s | _ \<Rightarrow> None)"

definition opt_int :: "pipe_value \<Rightarrow> int option" where
  "opt_int v = (case v of VInt i \<Rightarrow> Some i | _ \<Rightarrow> None)"

text \<open>A pipe on converted arguments; the converters leave no other combinations.\<close>

definition run_pipe :: "pipe_env \<Rightarrow> pipe_name \<Rightarrow> pipe_value list \<Rightarrow> response \<Rightarrow> ((exc + unit) \<times> response) option" where
  "run_pipe env p vals st = (case (p, vals) of
     (Pipe_status, [VInt code]) \<Rightarrow> Some (pipe_status code st)
   | (Pipe_header, [VText n, VText v]) \<Rightarrow> Some (pipe_header n v False st)
   | (Pipe_header, [VText n, VText v, VBool app]) \<Rightarrow> Some (pipe_header n v app st)
   | (Pipe_trickle, [VText d]) \<Rightarrow> pipe_trickle (pe_sleep env) d st
   | (Pipe_slice, [a]) \<Rightarrow> Some (pipe_slice (opt_int a) None st)
   | (Pipe_slice, [a, b]) \<Rightarrow> Some (pipe_slice (opt_int a) (opt_int b) st)
   | (Pipe_sub, []) \<Rightarrow> Some (pipe_sub (pe_sub env) (Some ''html'') st)
   | (Pipe_sub, [t]) \<Rightarrow> Some (pipe_sub (pe_sub env) (opt_text t) st)
   | (Pipe_gzip, []) \<Rightarrow> Some (pipe_gzip (pe_gzip env) st)
   | _ \<Rightarrow> Some (Inl ValueError, st))"

fun run_pipeline :: "pipe_env \<Rightarrow> (pipe_name \<times> string list) list \<Rightarrow> response \<Rightarrow> ((exc + unit) \<times> response) option" where
  "run_pipeline env [] st = Some (Inr (), st)"
| "run_pipeline env ((p, args) # fs) st =
     (case convert_args p args of
        Inl e \<Rightarrow> Some (Inl e, st)
      | Inr vals \<Rightarrow>
          (case run_pipe env p vals st of
             None \<Rightarrow> None
           | Some (Inl e, st') \<Rightarrow> Some (Inl e, st')
           | Some (Inr _, st') \<Rightarrow> run_pipeline env fs st'))"

section \<open>Round trip of pipe strings\<close>

definition quote_arg :: "string \<Rightarrow> string" where
  "quote_arg a = concat (map (\<lambda>c. if c \<in> {CHR 0x5C, CHR '','', CHR '')''} then [CHR 0x5C, c] else [c]) a)"

text \<open>A function with its arguments; at least one, since \<open>f()\<close> has an empty argument.\<close>

definition show_function :: "string \<times> string list \<Rightarrow> string" where
  "show_function = (\<lambda>(n, args). if args = [] then n @ ''|''
     else n @ ''('' @ join_with '','' (map quote_arg args) @ '')'')"

definition function_tokens :: "string \<times> string list \<Rightarrow> pipe_token res list" where
  "function_tokens = (\<lambda>(n, args). Inr (PFunction n) # map (Inr \<circ> PArgument) args)"

definition name_ok :: "string \<Rightarrow> bool" where
  "name_ok n \<longleftrightarrow> n \<noteq> [] \<and> CHR ''('' \<notin> set n \<and> CHR ''|'' \<notin> set n"

lemma tokens_name:
  "CHR ''('' \<notin> set n \<Longrightarrow> CHR ''|'' \<notin> set n \<Longrightarrow> pipe_tokens False rv (n @ s) = pipe_tokens False (rv @ n) s"
  by (induction n arbitrary: rv) auto

lemma tokens_quoted: "pipe_tokens True rv (quote_arg a @ s) = pipe_tokens True (rv @ a) s"
proof (induction a arbitrary: rv)
  case (Cons c a)
  have "escape_char c = c" if "c \<in> {CHR 0x5C, CHR '','', CHR '')''}" using that by (auto simp: escape_char_def)
  then show ?case using Cons by (auto simp: quote_arg_def)
qed (simp add: quote_arg_def)

lemma tokens_args:
  "args \<noteq> [] \<Longrightarrow> pipe_tokens True [] (join_with '','' (map quote_arg args) @ '')'' @ s)
     = map (Inr \<circ> PArgument) args @ pipe_tokens False [] s"
proof (induction args)
  case (Cons a args)
  then show ?case by (cases args) (simp_all add: tokens_quoted)
qed simp

text \<open>
  C31: every pipeline can be written: functions with any arguments, written with commas, closing parentheses
  and backslashes escaped, are tokenized to exactly these functions and arguments.
\<close>

theorem pipe_string_roundtrip:
  assumes "list_all (\<lambda>(n, _). name_ok n) fs"
  shows "tokenize (concat (map show_function fs)) = concat (map function_tokens fs)"
  using assms unfolding tokenize_def
proof (induction fs)
  case (Cons f fs)
  obtain n args where f: "f = (n, args)" by (cases f)
  have n: "n \<noteq> []" "CHR ''('' \<notin> set n" "CHR ''|'' \<notin> set n" using Cons.prems by (auto simp: f name_ok_def)
  show ?case
  proof (cases "args = []")
    case True
    then show ?thesis using Cons n tokens_name [OF n(2,3), of "[]"]
      by (simp add: f show_function_def function_tokens_def)
  next
    case False
    then show ?thesis using Cons n tokens_name [OF n(2,3), of "[]"] tokens_args [OF False]
      by (simp add: f show_function_def function_tokens_def)
  qed
qed simp

theorem pipe_string_roundtrip_witness:
  "tokenize (''sub|header(Set-Cookie,a'' @ [CHR 0x5C] @ '',b)'')
     = [Inr (PFunction ''sub''), Inr (PFunction ''header''), Inr (PArgument ''Set-Cookie''), Inr (PArgument ''a,b'')]"
proof -
  have "list_all (\<lambda>(n, _). name_ok n) [(''sub'', []), (''header'', [''Set-Cookie'', ''a,b''])]" by (simp add: name_ok_def)
  from pipe_string_roundtrip [OF this] show ?thesis
    by (simp add: show_function_def function_tokens_def quote_arg_def)
qed

section \<open>Trickling sends everything\<close>

definition item_bytes :: "item list \<Rightarrow> string" where
  "item_bytes items = concat (map (\<lambda>i. case i of Value (Some (Plain (DBytes b))) \<Rightarrow> b | _ \<Rightarrow> []) items)"

definition bytes_item :: "item \<Rightarrow> bool" where
  "bytes_item i \<longleftrightarrow> (case i of Value (Some (Plain (DBytes _))) \<Rightarrow> True | Call (Inr None) \<Rightarrow> True | _ \<Rightarrow> False)"

definition ok_delay :: "delay \<Rightarrow> bool" where
  "ok_delay d \<longleftrightarrow> (case d of TrBytes v \<Rightarrow> 0 \<le> v | TrDelay r \<Rightarrow> r = None | TrRepeat _ \<Rightarrow> True)"

definition total_bytes :: "delay list \<Rightarrow> int" where
  "total_bytes ds = (\<Sum>d\<leftarrow>ds. case d of TrBytes v \<Rightarrow> v | _ \<Rightarrow> 0)"

lemma bytes_item_simps [simp]: "bytes_item (Value (Some (Plain (DBytes b))))" "bytes_item (Call (Inr None))"
  by (simp_all add: bytes_item_def)

lemma item_bytes_simps [simp]:
  "item_bytes [] = []" "item_bytes (Value (Some (Plain (DBytes b))) # items) = b @ item_bytes items"
  "item_bytes (Call r # items) = item_bytes items"
  by (simp_all add: item_bytes_def)

lemma item_bytes_append [simp]: "item_bytes (a @ b) = item_bytes a @ item_bytes b"
  by (simp add: item_bytes_def)

lemma raises_bytes_items: "list_all bytes_item items \<Longrightarrow> \<not> raises items"
  by (induction items) (auto simp: raises_def bytes_item_def split: item.splits sum.splits)

lemma py_slice_nonneg:
  "0 \<le> a \<Longrightarrow> 0 \<le> b \<Longrightarrow> py_slice (Some a) (Some b) xs = slice_of (min (length xs) (nat a)) (min (length xs) (nat b)) xs"
  by (simp add: py_slice_def slice_bound_def)

text \<open>The bytes between two offsets.\<close>

definition between :: "int \<Rightarrow> int \<Rightarrow> 'a list \<Rightarrow> 'a list" where
  "between a b xs = slice_of (min (length xs) (nat a)) (min (length xs) (nat b)) xs"

lemma between_append: "a \<le> b \<Longrightarrow> b \<le> c \<Longrightarrow> between a b xs @ between b c xs = between a c xs"
  unfolding between_def by (rule slice_of_append) auto

lemma trickle_pass_bytes:
  assumes "list_all ok_delay ds" "0 \<le> off" "trickle_pass content ds off = (items, off')"
  shows "off' = off + total_bytes ds \<and> off \<le> off' \<and> list_all bytes_item items \<and> item_bytes items = between off off' content"
  using assms
proof (induction ds arbitrary: off items)
  case Nil
  then show ?case by (simp add: total_bytes_def item_bytes_def between_def slice_of_def)
next
  case (Cons d ds)
  show ?case
  proof (cases d)
    case (TrBytes v)
    then have v: "0 \<le> v" using Cons.prems(1) by (simp add: ok_delay_def)
    obtain rest where r: "trickle_pass content ds (off + v) = (rest, off')"
      "items = Value (Some (Plain (DBytes (py_slice (Some off) (Some (off + v)) content)))) # rest"
      using Cons.prems(3) TrBytes by (auto split: prod.splits)
    have "off' = off + v + total_bytes ds \<and> off + v \<le> off' \<and> list_all bytes_item rest
        \<and> item_bytes rest = between (off + v) off' content"
      using Cons.IH [OF _ _ r(1)] Cons.prems(1,2) v by simp
    then show ?thesis
      using r(2) v Cons.prems(2) between_append [of off "off + v" off' content] TrBytes
      by (simp add: total_bytes_def py_slice_nonneg between_def [symmetric])
  next
    case (TrDelay r)
    then show ?thesis using Cons
      by (auto simp: ok_delay_def total_bytes_def split: prod.splits)
  next
    case (TrRepeat v)
    then show ?thesis using Cons by (auto simp: total_bytes_def)
  qed
qed

lemma between_all: "0 \<le> a \<Longrightarrow> int (length xs) \<le> b \<Longrightarrow> between a b xs = drop (nat a) xs"
  by (auto simp: between_def slice_of_def min_def)

lemma repeat_block_bytes:
  assumes "list_all ok_delay block" "0 < total_bytes block" "0 \<le> off"
  shows "\<exists>items. repeat_block content block off = Some items \<and> list_all bytes_item items
     \<and> item_bytes items = drop (nat off) content"
  using assms(3)
proof (induction "nat (int (length content) - off)" arbitrary: off rule: less_induct)
  case less
  show ?case
  proof (cases "off < int (length content)")
    case True
    obtain items off' where p: "trickle_pass content block off = (items, off')" by (cases "trickle_pass content block off")
    have t: "off' = off + total_bytes block" "list_all bytes_item items" "item_bytes items = between off off' content"
      using trickle_pass_bytes [OF assms(1) less.prems p] by auto
    then have o: "off < off'" "0 \<le> off'" using assms(2) less.prems by auto
    then obtain rest where r: "repeat_block content block off' = Some rest" "list_all bytes_item rest"
      "item_bytes rest = drop (nat off') content"
      using less.hyps [of off'] True by auto
    have "between off off' content @ drop (nat off') content = drop (nat off) content"
    proof (cases "off' \<le> int (length content)")
      case True
      then show ?thesis using between_append [of off off' "int (length content)" content] o less.prems
        by (simp add: between_all)
    next
      case False
      then show ?thesis using o less.prems by (simp add: between_all)
    qed
    then show ?thesis using True p t r raises_bytes_items [OF t(2)]
      by (subst repeat_block.simps) simp
  next
    case False
    then show ?thesis by (subst repeat_block.simps) (simp add: item_bytes_def)
  qed
qed

lemma iter_bytes_items:
  "list_all bytes_item items \<Longrightarrow> rbind (rmap id (iter_content (CItems items))) join_chunks = Inr (item_bytes items)"
proof -
  assume i: "list_all bytes_item items"
  define bs where "bs = filter (\<lambda>b. b \<noteq> []) (map (\<lambda>i. case i of Value (Some (Plain (DBytes b))) \<Rightarrow> b | _ \<Rightarrow> []) items)"
  have "iter_content (CItems items) = map (\<lambda>b. Inr (Plain (DBytes b))) bs"
    unfolding bs_def using i
    by (induction items) (auto simp: iter_content_def item_value_def truthy_def bytes_item_def
        split: item.splits option.splits chunk.splits data.splits sum.splits)
  moreover have "rmap id (map (\<lambda>b. Inr (Plain (DBytes b))) bs) = Inr (map (\<lambda>b. Plain (DBytes b)) bs)"
    by (induction bs) simp_all
  moreover have "join_chunks (map (\<lambda>b. Plain (DBytes b)) bs) = Inr (concat bs)"
    unfolding join_chunks_def by (induction bs) (auto simp: rbind_eq_Inr)
  moreover have "concat bs = item_bytes items"
    unfolding bs_def item_bytes_def by (induction items) auto
  ultimately show ?thesis by simp
qed

text \<open>
  C32: trickling changes the timing, not the body: if no delay fails, no count is negative and a final
  repetition covers at least one byte, the response ends and its chunks together are exactly the content.
\<close>

theorem trickle_sends_content:
  assumes "ds \<noteq> []" and "list_all ok_delay ds"
    and "\<forall>v. last ds = TrRepeat v \<longrightarrow> 0 < total_bytes (py_slice (Some (- (v + 1))) (Some (- 1)) ds)"
  shows "\<exists>items. trickle_items content ds = Some items
     \<and> rbind (rmap id (iter_content (CItems items))) join_chunks = Inr content"
proof -
  obtain items off where p: "trickle_pass content ds 0 = (items, off)" by (cases "trickle_pass content ds 0")
  have t: "0 \<le> off" "list_all bytes_item items" "item_bytes items = between 0 off content"
    using trickle_pass_bytes [OF assms(2) _ p] by auto
  have rest: "between 0 off content @ drop (nat off) content = content"
    using t(1) by (cases "nat off \<le> length content") (simp_all add: between_def slice_of_def min_def)
  have "\<exists>out. trickle_items content ds = Some out \<and> list_all bytes_item out \<and> item_bytes out = content"
  proof (cases "\<exists>v. last ds = TrRepeat v")
    case True
    then obtain v where v: "last ds = TrRepeat v" by blast
    let ?block = "py_slice (Some (- (v + 1))) (Some (- 1)) ds"
    have "set ?block \<subseteq> set ds"
      unfolding py_slice_def slice_of_def by (meson order_trans set_drop_subset set_take_subset)
    then have "list_all ok_delay ?block" using assms(2) by (auto simp: list_all_iff)
    then obtain more where "repeat_block content ?block off = Some more" "list_all bytes_item more"
      "item_bytes more = drop (nat off) content"
      using repeat_block_bytes assms(3) v t(1) by blast
    then show ?thesis using t rest v assms(1) p raises_bytes_items [OF t(2)] by (simp add: trickle_items_def)
  next
    case False
    have "list_all bytes_item (remainder content off)" "item_bytes (remainder content off) = drop (nat off) content"
      using t(1) by (auto simp: remainder_def bytes_item_def item_bytes_def py_slice_def slice_bound_def slice_of_def)
    moreover have "trickle_items content ds = Some (items @ remainder content off)"
      using False p assms(1) by (auto simp: trickle_items_def split: delay.split)
    ultimately show ?thesis using t rest by simp
  qed
  then show ?thesis using iter_bytes_items by metis
qed

theorem trickle_sends_content_witness:
  "\<exists>items. trickle_items ''abcde'' [TrBytes 2, TrDelay None, TrRepeat 2] = Some items
     \<and> rbind (rmap id (iter_content (CItems items))) join_chunks = Inr ''abcde''"
  by (rule trickle_sends_content) (simp_all add: ok_delay_def total_bytes_def py_slice_def slice_bound_def slice_of_def)

end
