(* ===== verification/Config.thy ===== *)
theory Config
  imports Wpt_Utils Py_Effects
begin

text \<open>
  The configuration of the servers: \<open>config.py\<close> of wptserve, its SSL environments, and the builder of
  \<open>serve.py\<close> that extends it. Values are those of JSON, with sets; a set is the list of its elements in the
  order it is iterated. The generation of certificates by OpenSSL, free ports and the IDNA encoding are
  parameters.
\<close>

section \<open>Values\<close>

lemma cp_inj [simp]: "cp s = cp t \<longleftrightarrow> s = t"
  by (simp add: cp_def inj_map_eq_map [OF inj_of_char])

datatype cv = CNull | CBool bool | CInt int | CText ustr | CList "cv list" | CSet "cv list" | CDict "(ustr \<times> cv) list"

type_synonym cdata = "(ustr, cv) odict"

text \<open>\<open>key in value\<close>, \<open>value[key]\<close>, \<open>value.items()\<close> and iteration.\<close>

definition in_value :: "ustr \<Rightarrow> cv \<Rightarrow> bool res" where
  "in_value k v = (case v of
     CDict d \<Rightarrow> Inr (od_get d k \<noteq> None)
   | CList xs \<Rightarrow> Inr (CText k \<in> set xs)
   | CSet xs \<Rightarrow> Inr (CText k \<in> set xs)
   | CText s \<Rightarrow> Inr (contains_sub k s)
   | _ \<Rightarrow> Inl TypeError)"

definition item_of :: "ustr \<Rightarrow> cv \<Rightarrow> cv res" where
  "item_of k v = (case v of CDict d \<Rightarrow> of_option KeyError (od_get d k) | _ \<Rightarrow> Inl TypeError)"

definition dict_of :: "cv \<Rightarrow> cdata res" where
  "dict_of v = (case v of CDict d \<Rightarrow> Inr d | _ \<Rightarrow> Inl AttributeError)"

definition elements :: "cv \<Rightarrow> cv list res" where
  "elements v = (case v of
     CList xs \<Rightarrow> Inr xs | CSet xs \<Rightarrow> Inr xs | CText s \<Rightarrow> Inr (map (\<lambda>c. CText [c]) s)
   | CDict d \<Rightarrow> Inr (map (CText \<circ> fst) d) | _ \<Rightarrow> Inl TypeError)"

definition text_of_value :: "cv \<Rightarrow> ustr res" where
  "text_of_value v = (case v of CText s \<Rightarrow> Inr s | _ \<Rightarrow> Inl TypeError)"

section \<open>Merging\<close>

text \<open>The value of \<open>override_dict[key]\<close> if the key is in it.\<close>

definition override_of :: "ustr \<Rightarrow> cv \<Rightarrow> cv option res" where
  "override_of k ov = rbind (in_value k ov) (\<lambda>b. if b then rbind (item_of k ov) (\<lambda>w. Inr (Some w)) else Inr None)"

lemma rbind_cong [fundef_cong]: "r = r' \<Longrightarrow> (\<And>x. r' = Inr x \<Longrightarrow> f x = g x) \<Longrightarrow> rbind r f = rbind r' g"
  by (cases r') auto

fun merge_value :: "cv \<Rightarrow> cv \<Rightarrow> cv res"
  and merge_dict :: "cdata \<Rightarrow> cv \<Rightarrow> cdata res" where
  "merge_value (CDict base) w = rbind (merge_dict base w) (\<lambda>d. Inr (CDict d))"
| "merge_value v w = Inr w"
| "merge_dict [] ov = Inr []"
| "merge_dict ((k, v) # base) ov =
     rbind (override_of k ov) (\<lambda>o'.
     rbind (case o' of None \<Rightarrow> Inr v | Some w \<Rightarrow> merge_value v w) (\<lambda>v'.
     rbind (merge_dict base ov) (\<lambda>rv. Inr ((k, v') # rv))))"

text \<open>What merging promises of a value and of a dictionary: keys stay, dictionaries stay dictionaries.\<close>

inductive same_shape :: "cv \<Rightarrow> cv \<Rightarrow> bool" where
  leaf: "\<not> (\<exists>d. v = CDict d) \<Longrightarrow> same_shape v w"
| dict: "map fst d = map fst e \<Longrightarrow> list_all2 same_shape (map snd d) (map snd e) \<Longrightarrow> same_shape (CDict d) (CDict e)"

inductive_cases same_shape_dictE: "same_shape (CDict d) w"

definition same_shapes :: "cdata \<Rightarrow> cdata \<Rightarrow> bool" where
  "same_shapes d e \<longleftrightarrow> map fst d = map fst e \<and> list_all2 same_shape (map snd d) (map snd e)"

lemma same_shapes_simps [simp]:
  "same_shapes [] e \<longleftrightarrow> e = []" "same_shapes ((k, v) # d) ((j, w) # e) \<longleftrightarrow> k = j \<and> same_shape v w \<and> same_shapes d e"
  by (auto simp: same_shapes_def)

lemma same_shape_refl: "same_shape v v"
proof (induction v)
  case (CDict d)
  have "list_all2 same_shape (map snd d) (map snd d)"
    using CDict by (induction d) (auto intro: snds.intros)
  then show ?case by (rule same_shape.dict [OF refl])
qed (auto intro: same_shape.leaf)

lemma merge_shape:
  "merge_value v w = Inr x \<Longrightarrow> same_shape v x" "merge_dict base ov = Inr rv \<Longrightarrow> same_shapes base rv"
proof (induction v w and base ov arbitrary: x and rv rule: merge_value_merge_dict.induct)
  case (1 base w)
  then show ?case by (auto simp: rbind_eq_Inr same_shapes_def intro: same_shape.dict)
next
  case (4 k v base ov)
  from "4.prems" obtain o' v' rest where o: "override_of k ov = Inr o'"
    "(case o' of None \<Rightarrow> Inr v | Some w \<Rightarrow> merge_value v w) = Inr v'" "merge_dict base ov = Inr rest" "rv = (k, v') # rest"
    by (auto simp: rbind_eq_Inr)
  have "same_shape v v'" using o(1,2) "4.IH"(1) by (auto split: option.splits intro: same_shape_refl)
  then show ?case using "4.IH"(2) [OF o(1,2,3)] o(4) by simp
qed (auto intro: same_shape.leaf)

section \<open>The immutable configuration\<close>

definition new_config :: "cdata \<Rightarrow> cdata res" where
  "new_config data = (if list_ex (\<lambda>(k, v). starts_with (cp ''_'') k) data then Inl ValueError else Inr data)"

text \<open>Item access, for names that are no attribute of the class; assignment always raises.\<close>

definition config_getitem :: "cdata \<Rightarrow> ustr \<Rightarrow> cv res" where
  "config_getitem c k = of_option ValueError (od_get c k)"

text \<open>\<open>Mapping.get\<close>, which catches a \<open>KeyError\<close> of the item access only.\<close>

definition config_get :: "cdata \<Rightarrow> ustr \<Rightarrow> cv \<Rightarrow> cv res" where
  "config_get c k dflt = (case config_getitem c k of Inl KeyError \<Rightarrow> Inr dflt | r \<Rightarrow> r)"

definition config_setitem :: "cdata \<Rightarrow> ustr \<Rightarrow> cv \<Rightarrow> cdata res" where
  "config_setitem c k v = Inl ValueError"

definition config_contains :: "cdata \<Rightarrow> ustr \<Rightarrow> bool" where
  "config_contains c k \<longleftrightarrow> od_get c k \<noteq> None"

definition config_iter :: "cdata \<Rightarrow> ustr list" where
  "config_iter c = filter (\<lambda>k. \<not> starts_with (cp ''_'') k) (od_keys c)"

definition config_len :: "cdata \<Rightarrow> int" where
  "config_len c = int (length (config_iter c))"

fun json_types :: "cv \<Rightarrow> cv" where
  "json_types (CDict d) = CDict (map (\<lambda>(k, v). (k, json_types v)) d)"
| "json_types (CList xs) = CList (map json_types xs)"
| "json_types (CSet xs) = CList (map json_types xs)"
| "json_types v = v"

definition config_as_dict :: "cdata \<Rightarrow> cdata" where
  "config_as_dict c = map (\<lambda>(k, v). (k, json_types v)) (filter (\<lambda>(k, v). k \<noteq> cp ''_logger'') c)"

section \<open>The builder\<close>

text \<open>
  A builder with the defaults of its class, its data and the SSL environment it has entered. \<open>openssl\<close> is
  the environment that runs OpenSSL.
\<close>

datatype ssl_type = Ssl_none | Ssl_openssl | Ssl_pregenerated

datatype ssl_env = Env_none | Env_openssl cdata | Env_pregenerated cv cv cv

record builder =
  bd_default :: cdata
  bd_data :: cdata
  bd_ssl :: "ssl_env option"

type_synonym 'a building = "(exc, builder, 'a) act"

definition renamed_props :: "(ustr \<times> ustr) list" where
  "renamed_props = [(cp ''host'', cp ''browser_host''), (cp ''bind_hostname'', cp ''bind_address''),
     (cp ''external_host'', cp ''server_host''), (cp ''host_ip'', cp ''server_host'')]"

definition wptserve_default :: cdata where
  "wptserve_default = map (\<lambda>(k, v). (cp k, v))
    [(''browser_host'', CText (cp ''localhost'')), (''alternate_hosts'', CDict []), (''doc_root'', CText []),
     (''server_host'', CNull), (''ports'', CDict [(cp ''http'', CList [CInt 8000])]),
     (''check_subdomains'', CBool True), (''bind_address'', CBool True),
     (''ssl'', CDict
       [(cp ''type'', CText (cp ''none'')), (cp ''encrypt_after_connect'', CBool False), (cp ''none'', CDict []),
        (cp ''openssl'', CDict
          [(cp ''openssl_binary'', CText (cp ''openssl'')), (cp ''base_path'', CText (cp ''_certs'')),
           (cp ''password'', CText (cp ''web-platform-tests'')), (cp ''force_regenerate'', CBool False),
           (cp ''duration'', CInt 30), (cp ''base_conf_path'', CNull)]),
        (cp ''pregenerated'', CDict [(cp ''host_key_path'', CNull), (cp ''host_cert_path'', CNull)])]),
     (''aliases'', CList []),
     (''logging'', CDict [(cp ''level'', CText (cp ''debug'')), (cp ''suppress_handler_traceback'', CBool False)])]"

text \<open>\<open>__init__\<close>: the keyword arguments replace the defaults they name; what is left is refused.\<close>

fun take_kwargs :: "cdata \<Rightarrow> cdata \<Rightarrow> cdata \<Rightarrow> cdata \<times> cdata" where
  "take_kwargs [] data kwargs = (data, kwargs)"
| "take_kwargs ((k, v) # defaults) data kwargs =
     (case od_get kwargs k of
        None \<Rightarrow> take_kwargs defaults (od_set k v data) kwargs
      | Some w \<Rightarrow> take_kwargs defaults (od_set k w data) (od_del k kwargs))"

fun take_renamed :: "(ustr \<times> ustr) list \<Rightarrow> cdata \<Rightarrow> cdata \<Rightarrow> cdata \<times> cdata" where
  "take_renamed [] data kwargs = (data, kwargs)"
| "take_renamed ((k, new_k) # props) data kwargs =
     (case od_get kwargs k of
        None \<Rightarrow> take_renamed props data kwargs
      | Some w \<Rightarrow> take_renamed props (od_set new_k w data) (od_del k kwargs))"

definition new_builder :: "cdata \<Rightarrow> cv \<Rightarrow> cv \<Rightarrow> cdata \<Rightarrow> builder res" where
  "new_builder defaults subdomains not_subdomains kwargs =
     (case take_kwargs defaults defaults kwargs of (data, kwargs) \<Rightarrow>
        let data = od_set (cp ''not_subdomains'') not_subdomains (od_set (cp ''subdomains'') subdomains data)
        in (case take_renamed renamed_props data kwargs of (data, kwargs) \<Rightarrow>
              if kwargs \<noteq> [] then Inl TypeError else Inr \<lparr>bd_default = defaults, bd_data = data, bd_ssl = None\<rparr>))"

definition bd_setattr :: "ustr \<Rightarrow> cv \<Rightarrow> unit building" where
  "bd_setattr k v = change (\<lambda>b. b\<lparr>bd_data := od_set k v (bd_data b)\<rparr>)"

definition bd_getattr :: "ustr \<Rightarrow> cv building" where
  "bd_getattr k = and_then get_state (\<lambda>b. of_res (of_option AttributeError (od_get (bd_data b) k)))"

definition set_override :: "ustr \<Rightarrow> cv \<Rightarrow> unit building" where
  "set_override k v =
     and_then get_state (\<lambda>b.
     and_then (of_res (of_option KeyError (od_get (bd_data b) k))) (\<lambda>old_v.
     and_then (of_res (merge_value old_v v)) (\<lambda>new_v.
       change (\<lambda>b. b\<lparr>bd_data := od_set k new_v (bd_data b)\<rparr>))))"

text \<open>The two loops of \<open>update\<close>: from which key to which; they return what is left of the overrides.\<close>

fun take_overrides :: "(ustr \<times> ustr) list \<Rightarrow> cdata \<Rightarrow> cdata building" where
  "take_overrides [] override = give override"
| "take_overrides ((k, new_k) # ks) override =
     (case od_get override k of
        None \<Rightarrow> take_overrides ks override
      | Some v \<Rightarrow> and_then (set_override new_k v) (\<lambda>_. take_overrides ks (od_del k override)))"

definition update_config :: "cdata \<Rightarrow> unit building" where
  "update_config override =
     and_then get_state (\<lambda>b.
     and_then (take_overrides (map (\<lambda>(k, v). (k, k)) (bd_default b)) override) (\<lambda>override.
     and_then (take_overrides renamed_props override) (\<lambda>override.
       if override \<noteq> [] then raise KeyError else give ())))"

section \<open>Computed properties\<close>

record cfg_env =
  ce_idna :: "ustr \<Rightarrow> ustr option"
  ce_port :: "nat \<Rightarrow> int"
  ce_openssl_new :: "cdata \<Rightarrow> exc option"
  ce_openssl_paths :: "cdata \<Rightarrow> cv \<Rightarrow> (cv \<times> cv \<times> cv) res"

datatype builder_class = Wptserve | Serve

definition data_item :: "string \<Rightarrow> cdata \<Rightarrow> cv res" where
  "data_item k data = of_option KeyError (od_get data (cp k))"

text \<open>\<open>os.path.join\<close> with one argument more.\<close>

definition path_join :: "ustr \<Rightarrow> ustr \<Rightarrow> ustr" where
  "path_join a b = (if starts_with (cp ''/'') b then b else if a = [] \<or> ends_with (cp ''/'') a then a @ b else a @ cp ''/'' @ b)"

text \<open>\<open>str.upper\<close> of an ASCII text.\<close>

definition text_upper :: "ustr \<Rightarrow> ustr" where
  "text_upper = map (\<lambda>c. if 97 \<le> c \<and> c \<le> 122 then c - 32 else c)"

text \<open>The dictionary is changed in place, and it is the builder's.\<close>

definition get_logging :: "cdata \<Rightarrow> cv building" where
  "get_logging data =
     and_then (of_res (data_item ''logging'' data)) (\<lambda>logging.
     and_then (of_res (item_of (cp ''level'') logging)) (\<lambda>level.
     and_then (of_res (case level of CText t \<Rightarrow> Inr (text_upper t) | _ \<Rightarrow> Inl AttributeError)) (\<lambda>level.
     and_then (of_res (dict_of logging)) (\<lambda>d.
       let logging = CDict (od_set (cp ''level'') (CText level) d)
       in and_then (change (\<lambda>b. b\<lparr>bd_data := od_set (cp ''logging'') logging (bd_data b)\<rparr>)) (\<lambda>_. give logging)))))"

definition get_paths :: "builder_class \<Rightarrow> cdata \<Rightarrow> cv res" where
  "get_paths cls data =
     rbind (data_item ''doc_root'' data) (\<lambda>doc_root.
       case cls of
         Wptserve \<Rightarrow> Inr (CDict [(cp ''doc_root'', doc_root)])
       | Serve \<Rightarrow> rbind (data_item ''ws_doc_root'' data) (\<lambda>ws.
           Inr (CDict [(cp ''doc_root'', doc_root), (cp ''ws_doc_root'', ws)])))"

definition get_ws_doc_root :: "cdata \<Rightarrow> cv res" where
  "get_ws_doc_root data =
     rbind (data_item ''ws_doc_root'' data) (\<lambda>ws.
       if ws \<noteq> CNull then Inr ws
       else rbind (data_item ''doc_root'' data) (\<lambda>r. rbind (text_of_value r) (\<lambda>r.
              Inr (CText (path_join (path_join r (cp ''websockets'')) (cp ''handlers''))))))"

definition get_server_host :: "cdata \<Rightarrow> cv res" where
  "get_server_host data =
     (case od_get data (cp ''server_host'') of
        Some h \<Rightarrow> if h \<noteq> CNull then Inr h else data_item ''browser_host'' data
      | None \<Rightarrow> data_item ''browser_host'' data)"

definition get_cls :: "cv \<Rightarrow> ssl_type res" where
  "get_cls name = (case name of
     CText t \<Rightarrow> if t = cp ''none'' then Inr Ssl_none else if t = cp ''openssl'' then Inr Ssl_openssl
               else if t = cp ''pregenerated'' then Inr Ssl_pregenerated else Inl ValueError
   | CList _ \<Rightarrow> Inl TypeError | CSet _ \<Rightarrow> Inl TypeError | CDict _ \<Rightarrow> Inl TypeError
   | _ \<Rightarrow> Inl ValueError)"

definition ssl_enabled :: "ssl_type \<Rightarrow> bool" where
  "ssl_enabled t \<longleftrightarrow> t \<noteq> Ssl_none"

definition ssl_class :: "cdata \<Rightarrow> ssl_type res" where
  "ssl_class data = rbind (data_item ''ssl'' data) (\<lambda>s. rbind (item_of (cp ''type'') s) get_cls)"

text \<open>\<open>ce_port n\<close> is the port \<open>get_port\<close> gives when it is called for the \<open>n\<close>-th time.\<close>

fun real_ports :: "cfg_env \<Rightarrow> nat \<Rightarrow> cv list \<Rightarrow> cv list \<times> nat" where
  "real_ports env n [] = ([], n)"
| "real_ports env n (p # ps) =
     (if p = CText (cp ''auto'') then (case real_ports env (n + 1) ps of (qs, m) \<Rightarrow> (CInt (ce_port env n) # qs, m))
      else (case real_ports env n ps of (qs, m) \<Rightarrow> (p # qs, m)))"

fun scheme_ports :: "cfg_env \<Rightarrow> cdata \<Rightarrow> nat \<Rightarrow> cdata \<Rightarrow> cdata res" where
  "scheme_ports env data n [] = Inr []"
| "scheme_ports env data n ((scheme, ports) # rest) =
     rbind (if scheme = cp ''wss'' \<or> scheme = cp ''https'' then rbind (ssl_class data) (\<lambda>t. Inr (\<not> ssl_enabled t)) else Inr False)
       (\<lambda>skip. if skip then scheme_ports env data n rest
        else rbind (elements ports) (\<lambda>ps.
          case real_ports env n ps of (qs, m) \<Rightarrow>
            rbind (scheme_ports env data m rest) (\<lambda>new_ports. Inr (if qs = [] then new_ports else (scheme, CList qs) # new_ports))))"

definition get_ports :: "cfg_env \<Rightarrow> cdata \<Rightarrow> cv res" where
  "get_ports env data =
     rbind (data_item ''ports'' data) (\<lambda>p. rbind (dict_of p) (\<lambda>items.
     rbind (scheme_ports env data 0 items) (\<lambda>new_ports. Inr (CDict new_ports))))"

definition dict_update :: "('k, 'v) odict \<Rightarrow> ('k \<times> 'v) list \<Rightarrow> ('k, 'v) odict" where
  "dict_update d kvs = fold (\<lambda>(k, v). od_set k v) kvs d"

definition config_hosts :: "cdata \<Rightarrow> cdata res" where
  "config_hosts data =
     rbind (data_item ''alternate_hosts'' data) (\<lambda>a. case a of
         CDict hosts \<Rightarrow> if od_get hosts [] \<noteq> None then Inl AssertionError
                        else rbind (data_item ''browser_host'' data) (\<lambda>b. Inr (od_set [] b hosts))
       | CList xs \<Rightarrow> Inl (if CText [] \<in> set xs then AssertionError else TypeError)
       | CSet xs \<Rightarrow> Inl (if CText [] \<in> set xs then AssertionError else TypeError)
       | _ \<Rightarrow> Inl AttributeError)"

definition subdomain_entry :: "cfg_env \<Rightarrow> cv \<Rightarrow> cv \<Rightarrow> (ustr \<times> cv) res" where
  "subdomain_entry env host sub = (case sub of
     CText t \<Rightarrow> rbind (of_option UnicodeError (ce_idna env t)) (\<lambda>a.
                 rbind (text_of_value host) (\<lambda>h. Inr (t, CText (a @ cp ''.'' @ h))))
   | _ \<Rightarrow> Inl AttributeError)"

text \<open>The dictionary of one host for the subdomains stored under a name.\<close>

definition host_domains :: "cfg_env \<Rightarrow> string \<Rightarrow> cdata \<Rightarrow> cv \<Rightarrow> cdata res" where
  "host_domains env k data host =
     rbind (data_item k data) (\<lambda>s. rbind (elements s) (\<lambda>subs.
     rbind (rmap (subdomain_entry env host) subs) (\<lambda>es. Inr (dict_update [] es))))"

definition get_domains :: "cfg_env \<Rightarrow> cdata \<Rightarrow> cv res" where
  "get_domains env data =
     rbind (config_hosts data) (\<lambda>hosts.
     rbind (rmap (\<lambda>(name, host). rbind (host_domains env ''subdomains'' data host)
                   (\<lambda>d. Inr (name, CDict (od_set [] host d)))) hosts) (\<lambda>rv. Inr (CDict (dict_update [] rv))))"

definition get_not_domains :: "cfg_env \<Rightarrow> cdata \<Rightarrow> cv res" where
  "get_not_domains env data =
     rbind (config_hosts data) (\<lambda>hosts.
     rbind (rmap (\<lambda>(name, host). rbind (host_domains env ''not_subdomains'' data host) (\<lambda>d. Inr (name, CDict d))) hosts)
       (\<lambda>rv. Inr (CDict (dict_update [] rv))))"

definition get_all_domains :: "cdata \<Rightarrow> cv res" where
  "get_all_domains data =
     rbind (data_item ''domains'' data) (\<lambda>rv. rbind (dict_of rv) (\<lambda>rv.
     rbind (data_item ''not_domains'' data) (\<lambda>nd.
     rbind (rmap (\<lambda>(host, v). rbind (item_of host nd) (\<lambda>n. rbind (dict_of v) (\<lambda>v. rbind (dict_of n) (\<lambda>n.
                   Inr (host, CDict (dict_update v n)))))) rv) (\<lambda>rv. Inr (CDict rv)))))"

definition domain_values :: "string \<Rightarrow> cdata \<Rightarrow> cv list res" where
  "domain_values k data =
     rbind (data_item k data) (\<lambda>ds. rbind (dict_of ds) (\<lambda>ds.
     rbind (rmap (\<lambda>(_, d). rbind (dict_of d) (\<lambda>d. Inr (map snd d))) ds) (\<lambda>vs. Inr (remdups (concat vs)))))"

definition get_domains_set :: "cdata \<Rightarrow> cv res" where
  "get_domains_set data = rbind (domain_values ''domains'' data) (\<lambda>vs. Inr (CSet vs))"

definition get_not_domains_set :: "cdata \<Rightarrow> cv res" where
  "get_not_domains_set data = rbind (domain_values ''not_domains'' data) (\<lambda>vs. Inr (CSet vs))"

definition get_all_domains_set :: "cdata \<Rightarrow> cv res" where
  "get_all_domains_set data =
     rbind (data_item ''domains_set'' data) (\<lambda>a. rbind (data_item ''not_domains_set'' data) (\<lambda>b.
       case (a, b) of (CSet xs, CSet ys) \<Rightarrow> Inr (CSet (remdups (xs @ ys))) | _ \<Rightarrow> Inl TypeError))"

definition set_ssl :: "ssl_env option \<Rightarrow> unit building" where
  "set_ssl e = change (\<lambda>b. b\<lparr>bd_ssl := e\<rparr>)"

definition ssl_paths :: "cdata \<Rightarrow> cv \<Rightarrow> cv \<Rightarrow> cv \<Rightarrow> cv" where
  "ssl_paths s key cert ca = CDict
     [(cp ''key_path'', key), (cp ''ca_cert_path'', ca), (cp ''cert_path'', cert),
      (cp ''encrypt_after_connect'', case od_get s (cp ''encrypt_after_connect'') of None \<Rightarrow> CBool False | Some v \<Rightarrow> v)]"

text \<open>The constructor and paths of \<open>PregeneratedSSLEnvironment\<close>.\<close>

definition pregenerated :: "cdata \<Rightarrow> (cv \<times> cv \<times> cv) res" where
  "pregenerated kwargs =
     (if list_ex (\<lambda>(k, _). k \<notin> {cp ''host_key_path'', cp ''host_cert_path'', cp ''ca_cert_path''}) kwargs then Inl TypeError
      else (case (od_get kwargs (cp ''host_key_path''), od_get kwargs (cp ''host_cert_path'')) of
              (Some key, Some cert) \<Rightarrow> Inr (key, cert, case od_get kwargs (cp ''ca_cert_path'') of None \<Rightarrow> CNull | Some ca \<Rightarrow> ca)
            | _ \<Rightarrow> Inl TypeError))"

definition get_ssl_config :: "cfg_env \<Rightarrow> cdata \<Rightarrow> cv building" where
  "get_ssl_config env data =
     and_then (of_res (data_item ''ssl'' data)) (\<lambda>s.
     and_then (of_res (item_of (cp ''type'') s)) (\<lambda>name.
     and_then (of_res (get_cls name)) (\<lambda>cls.
     and_then (of_res (dict_of s)) (\<lambda>s.
     and_then (of_res (text_of_value name)) (\<lambda>name.
     and_then (of_res (case od_get s name of None \<Rightarrow> Inr [] | Some (CDict d) \<Rightarrow> Inr d | Some _ \<Rightarrow> Inl TypeError)) (\<lambda>kwargs.
       case cls of
         Ssl_none \<Rightarrow> and_then (set_ssl (Some Env_none)) (\<lambda>_. give CNull)
       | Ssl_pregenerated \<Rightarrow>
           and_then (of_res (pregenerated kwargs)) (\<lambda>(key, cert, ca).
           and_then (set_ssl (Some (Env_pregenerated key cert ca))) (\<lambda>_. give (ssl_paths s key cert ca)))
       | Ssl_openssl \<Rightarrow>
           (case ce_openssl_new env kwargs of
              Some e \<Rightarrow> raise e
            | None \<Rightarrow>
                and_then (set_ssl (Some (Env_openssl kwargs))) (\<lambda>_.
                and_then (of_res (data_item ''domains_set'' data)) (\<lambda>ds.
                and_then (of_res (ce_openssl_paths env kwargs ds)) (\<lambda>(key, cert, ca).
                  give (ssl_paths s key cert ca)))))))))))"

section \<open>Entering and leaving\<close>

definition computed_properties :: "builder_class \<Rightarrow> string list" where
  "computed_properties cls =
     (case cls of Wptserve \<Rightarrow> [] | Serve \<Rightarrow> [''ws_doc_root'']) @
     [''logging'', ''paths'', ''server_host'', ''ports'', ''domains'', ''not_domains'', ''all_domains'',
      ''domains_set'', ''not_domains_set'', ''all_domains_set'', ''ssl_config'']"

definition compute :: "cfg_env \<Rightarrow> builder_class \<Rightarrow> string \<Rightarrow> cdata \<Rightarrow> cv building" where
  "compute env cls k data =
     (if k = ''ws_doc_root'' then of_res (get_ws_doc_root data)
      else if k = ''logging'' then get_logging data
      else if k = ''paths'' then of_res (get_paths cls data)
      else if k = ''server_host'' then of_res (get_server_host data)
      else if k = ''ports'' then of_res (get_ports env data)
      else if k = ''domains'' then of_res (get_domains env data)
      else if k = ''not_domains'' then of_res (get_not_domains env data)
      else if k = ''all_domains'' then of_res (get_all_domains data)
      else if k = ''domains_set'' then of_res (get_domains_set data)
      else if k = ''not_domains_set'' then of_res (get_not_domains_set data)
      else if k = ''all_domains_set'' then of_res (get_all_domains_set data)
      else if k = ''ssl_config'' then get_ssl_config env data
      else raise AttributeError)"

fun compute_all :: "cfg_env \<Rightarrow> builder_class \<Rightarrow> string list \<Rightarrow> cdata \<Rightarrow> cdata building" where
  "compute_all env cls [] data = give data"
| "compute_all env cls (k # ks) data =
     and_then (compute env cls k data) (\<lambda>v. compute_all env cls ks (od_set (cp k) v data))"

definition enter_config :: "cfg_env \<Rightarrow> builder_class \<Rightarrow> cdata building" where
  "enter_config env cls =
     and_then get_state (\<lambda>b.
       if bd_ssl b \<noteq> None then raise ValueError
       else and_then (compute_all env cls (computed_properties cls) (bd_data b)) (\<lambda>data. of_res (new_config data)))"

definition exit_config :: "unit building" where
  "exit_config = and_then get_state (\<lambda>b. if bd_ssl b = None then raise AttributeError else set_ssl None)"

section \<open>The builder of the launcher\<close>

definition domains_are_distinct :: "ustr \<Rightarrow> ustr \<Rightarrow> bool" where
  "domains_are_distinct a b \<longleftrightarrow>
     (let a_parts = split_on 46 a; b_parts = split_on 46 b; n = min (length a_parts) (length b_parts)
      in drop (length a_parts - n) a_parts \<noteq> drop (length b_parts - n) b_parts)"

text \<open>The subdomains and their products up to the given depth.\<close>

fun product_repeat :: "nat \<Rightarrow> 'a list \<Rightarrow> 'a list list" where
  "product_repeat 0 s = [[]]"
| "product_repeat (Suc n) s = concat (map (\<lambda>x. map (Cons x) (product_repeat n s)) s)"

definition subdomains_product :: "ustr list \<Rightarrow> nat \<Rightarrow> ustr list" where
  "subdomains_product s depth = remdups (map (join_with [46]) (concat (map (\<lambda>i. product_repeat i s) [1..<depth + 1])))"

definition serve_subdomains :: cv where
  "serve_subdomains = CSet (map CText (subdomains_product [cp ''sub''] 2))"

definition serve_not_subdomains :: cv where
  "serve_not_subdomains = CSet (map CText (subdomains_product [cp ''nonexistent''] 2))"

definition joined :: "ustr \<Rightarrow> string list \<Rightarrow> cv" where
  "joined root parts = CText (fold (\<lambda>p r. path_join r (cp p)) parts root)"

definition serve_default :: "ustr \<Rightarrow> cdata" where
  "serve_default repo_root = map (\<lambda>(k, v). (cp k, v))
    [(''browser_host'', CText (cp ''web-platform.test'')),
     (''alternate_hosts'', CDict [(cp ''alt'', CText (cp ''not-web-platform.test''))]),
     (''doc_root'', CText repo_root), (''ws_doc_root'', joined repo_root [''websockets'', ''handlers'']),
     (''server_host'', CNull),
     (''ports'', CDict (map (\<lambda>(k, v). (cp k, CList v))
        [(''http'', [CInt 8000, CText (cp ''auto'')]), (''http-private'', [CText (cp ''auto'')]),
         (''http-public'', [CText (cp ''auto'')]), (''https'', [CInt 8443, CInt 8444]),
         (''https-private'', [CText (cp ''auto'')]), (''https-public'', [CText (cp ''auto'')]),
         (''ws'', [CText (cp ''auto'')]), (''wss'', [CText (cp ''auto'')]), (''webtransport-h3'', [CText (cp ''auto'')])])),
     (''check_subdomains'', CBool True), (''bind_address'', CBool True),
     (''ssl'', CDict
       [(cp ''type'', CText (cp ''pregenerated'')), (cp ''encrypt_after_connect'', CBool False),
        (cp ''openssl'', CDict
          [(cp ''openssl_binary'', CText (cp ''openssl'')), (cp ''base_path'', CText (cp ''_certs'')),
           (cp ''password'', CText (cp ''web-platform-tests'')), (cp ''force_regenerate'', CBool False),
           (cp ''duration'', CInt 30), (cp ''base_conf_path'', CNull)]),
        (cp ''pregenerated'', CDict
          [(cp ''host_key_path'', joined repo_root [''tools'', ''certs'', ''web-platform.test.key'']),
           (cp ''host_cert_path'', joined repo_root [''tools'', ''certs'', ''web-platform.test.pem''])]),
        (cp ''none'', CDict [])]),
     (''aliases'', CList []),
     (''logging'', CDict [(cp ''level'', CText (cp ''info'')), (cp ''suppress_handler_traceback'', CBool False)])]"

text \<open>The check of the hosts, inside the configuration it is made from.\<close>

definition check_hosts :: "cdata \<Rightarrow> unit res" where
  "check_hosts c =
     rbind (config_get c (cp ''browser_host'') CNull) (\<lambda>a.
     rbind (config_get c (cp ''alternate_hosts'') (CDict [])) (\<lambda>hosts.
     rbind (dict_of hosts) (\<lambda>hosts.
       case (a, od_get hosts (cp ''alt'')) of
         (CText a, Some (CText b)) \<Rightarrow> if \<not> domains_are_distinct a b then Inl ValueError else Inr ()
       | _ \<Rightarrow> Inl AttributeError)))"

definition new_serve_builder :: "cfg_env \<Rightarrow> cdata \<Rightarrow> cdata \<Rightarrow> (exc + unit) \<times> builder option" where
  "new_serve_builder env defaults kwargs =
     (let subs = (case od_get kwargs (cp ''subdomains'') of None \<Rightarrow> serve_subdomains | Some v \<Rightarrow> v);
          nots = (case od_get kwargs (cp ''not_subdomains'') of None \<Rightarrow> serve_not_subdomains | Some v \<Rightarrow> v)
      in (case new_builder defaults subs nots (od_del (cp ''not_subdomains'') (od_del (cp ''subdomains'') kwargs)) of
            Inl e \<Rightarrow> (Inl e, None)
          | Inr b \<Rightarrow>
              (case and_then (enter_config env Serve) (\<lambda>c. try_finally (of_res (check_hosts c)) exit_config) b of
                 (r, b) \<Rightarrow> (r, Some b))))"

text \<open>
  \<open>build_config\<close> with the options of the command line: whether HTTP/2 is enabled, the override objects read
  from the two files, the second \<open>None\<close> if the file does not exist, and the document roots as absolute paths
  with whether they exist.
\<close>

record config_options =
  co_h2 :: "bool option"
  co_override :: "cdata option"
  co_config :: "cdata option option"
  co_verbose :: bool
  co_inject :: cv
  co_roots :: "(ustr \<times> (ustr \<times> bool) option) list"

text \<open>\<open>rv._default["ports"]["h2"]\<close>: the dictionary of the class, which the builder's data shares.\<close>

definition enable_h2 :: "unit building" where
  "enable_h2 =
     and_then get_state (\<lambda>b.
     and_then (of_res (rbind (data_item ''ports'' (bd_default b)) dict_of)) (\<lambda>ports.
       let p = CDict (od_set (cp ''h2'') (CList [CInt 9000]) ports)
       in change (\<lambda>b. b\<lparr>bd_default := od_set (cp ''ports'') p (bd_default b), bd_data := od_set (cp ''ports'') p (bd_data b)\<rparr>)))"

definition set_verbose :: "unit building" where
  "set_verbose =
     and_then (bd_getattr (cp ''logging'')) (\<lambda>l.
     and_then (of_res (case l of CDict d \<Rightarrow> Inr d | _ \<Rightarrow> Inl TypeError)) (\<lambda>d.
       bd_setattr (cp ''logging'') (CDict (od_set (cp ''level'') (CText (cp ''DEBUG'')) d))))"

definition set_root :: "ustr \<times> (ustr \<times> bool) option \<Rightarrow> unit building" where
  "set_root = (\<lambda>(k, v). case v of
     None \<Rightarrow> give () | Some (path, exists) \<Rightarrow> if \<not> exists then raise ValueError else bd_setattr k (CText path))"

definition configure :: "config_options \<Rightarrow> unit building" where
  "configure opts =
     and_then (if co_h2 opts \<noteq> Some False then enable_h2 else give ()) (\<lambda>_.
     and_then (case co_override opts of None \<Rightarrow> give () | Some d \<Rightarrow> update_config d) (\<lambda>_.
     and_then (case co_config opts of None \<Rightarrow> give () | Some None \<Rightarrow> raise ValueError | Some (Some d) \<Rightarrow> update_config d) (\<lambda>_.
     and_then (if co_verbose opts then set_verbose else give ()) (\<lambda>_.
     and_then (bd_setattr (cp ''inject_script'') (co_inject opts)) (\<lambda>_. for_each set_root (co_roots opts))))))"

definition build_config :: "cfg_env \<Rightarrow> cdata \<Rightarrow> config_options \<Rightarrow> (exc + unit) \<times> builder option" where
  "build_config env defaults opts =
     (case new_serve_builder env defaults [] of
        (Inr _, Some b) \<Rightarrow> (case configure opts b of (r, b) \<Rightarrow> (r, Some b))
      | (Inr _, None) \<Rightarrow> (Inr (), None)
      | (Inl e, b) \<Rightarrow> (Inl e, b))"

end
