(* ===== verification/Templates.thy ===== *)
theory Templates
  imports Request Pipes Config
begin

text \<open>
  The template language of the \<open>sub\<close> pipe (\<open>ReplacementTokenizer\<close>, \<open>SubFunctions\<close> and \<open>template\<close> of
  \<open>pipes.py\<close>): substitutions between double braces, with variables, functions, the configuration and the
  request. Random ids, the files and their hashes are parameters; names of the form \<open>__x__\<close>, which Python
  gives every class, are left out.
\<close>

section \<open>Decoding UTF-8\<close>

text \<open>\<open>bytes.decode\<close> with UTF-8, strict; the first argument as in \<open>utf8_replace\<close>.\<close>

fun utf8_strict :: "(nat \<times> nat \<times> nat \<times> nat) option \<Rightarrow> nat list \<Rightarrow> ustr res" where
  "utf8_strict None [] = Inr []"
| "utf8_strict (Some _) [] = Inl UnicodeError"
| "utf8_strict None (b # bs) =
     (if b < 128 then rbind (utf8_strict None bs) (\<lambda>t. Inr (b # t))
      else (case utf8_lead b of None \<Rightarrow> Inl UnicodeError
            | Some (n, lo, hi) \<Rightarrow> utf8_strict (Some (n, lo, hi, lead_bits n b)) bs))"
| "utf8_strict (Some (n, lo, hi, acc)) (b # bs) =
     (if lo \<le> b \<and> b \<le> hi
      then (if n \<le> 1 then rbind (utf8_strict None bs) (\<lambda>t. Inr ((64 * acc + b mod 64) # t))
            else utf8_strict (Some (n - 1, 128, 191, 64 * acc + b mod 64)) bs)
      else Inl UnicodeError)"

definition utf8_decode :: "string \<Rightarrow> ustr res" where
  "utf8_decode s = utf8_strict None (map of_char s)"

section \<open>Tokens\<close>

datatype tindex = IxInt int | IxText ustr

datatype ttoken = TVar ustr | TIdent ustr | TIndex tindex | TArgs "ustr list"

definition word_byte :: "char \<Rightarrow> bool" where
  "word_byte c \<longleftrightarrow> is_upper c \<or> is_lower c \<or> is_digit c \<or> c = CHR ''_''"

text \<open>\<open>re.split(r",\s*", s)\<close>, and \<open>int\<close> of a text.\<close>

definition text_space :: "nat \<Rightarrow> bool" where
  "text_space c \<longleftrightarrow> 9 \<le> c \<and> c \<le> 13 \<or> 28 \<le> c \<and> c \<le> 32 \<or> c \<in> {133, 160, 5760, 8232, 8233, 8239, 8287, 12288}
     \<or> 8192 \<le> c \<and> c \<le> 8202"

definition split_args :: "ustr \<Rightarrow> ustr list" where
  "split_args s = (case split_on 44 s of [] \<Rightarrow> [] | p # ps \<Rightarrow> p # map (dropWhile text_space) ps)"

text \<open>Only ASCII digits make an index an integer.\<close>

definition index_of :: "ustr \<Rightarrow> tindex" where
  "index_of t = (if list_all (\<lambda>c. c < 128) t
     then (case py_int (map char_of t) of Some i \<Rightarrow> IxInt i | None \<Rightarrow> IxText t) else IxText t)"

text \<open>One token at the start of the input by the scanner's patterns, with the bytes it takes.\<close>

definition next_ttoken :: "string \<Rightarrow> (ttoken res \<times> nat) option" where
  "next_ttoken s =
     (let d = (if starts_with ''$'' s then 1 else 0); w = takeWhile word_byte (drop d s); n = d + length w
      in if d = 1 \<and> w \<noteq> [] \<and> starts_with '':'' (drop n s)
         then Some (rbind (utf8_decode (take n s)) (\<lambda>t. Inr (TVar t)), n + 1)
         else if w \<noteq> [] then Some (rbind (utf8_decode (take n s)) (\<lambda>t. Inr (TIdent t)), n)
         else if starts_with ''['' s
         then let t = takeWhile (\<lambda>c. c \<noteq> CHR '']'') (drop 1 s)
              in if starts_with '']'' (drop (1 + length t) s)
                 then Some (rbind (utf8_decode t) (\<lambda>t. Inr (TIndex (index_of t))), 2 + length t) else None
         else if starts_with ''('' s
         then let t = takeWhile (\<lambda>c. c \<noteq> CHR '')'') (drop 1 s)
              in if starts_with '')'' (drop (1 + length t) s)
                 then Some (rbind (utf8_decode t) (\<lambda>t. Inr (TArgs (if t = [] then [] else split_args t))), 2 + length t) else None
         else None)"

lemma next_ttoken_pos: "next_ttoken s = Some (t, n) \<Longrightarrow> 0 < n"
  by (auto simp: next_ttoken_def Let_def split: if_splits)

lemma next_ttoken_nonempty: "next_ttoken s = Some (t, n) \<Longrightarrow> s \<noteq> []"
  by (cases s) (auto simp: next_ttoken_def Let_def starts_with_def)

text \<open>The scanner stops where no pattern matches; what is left is ignored.\<close>

function template_tokens :: "string \<Rightarrow> ttoken list res" where
  "template_tokens s =
     (case next_ttoken s of
        None \<Rightarrow> Inr []
      | Some (t, n) \<Rightarrow> rbind t (\<lambda>t. rbind (template_tokens (drop n s)) (\<lambda>ts. Inr (t # ts))))"
  by auto

termination template_tokens
proof (relation "measure length")
  fix s b t n
  assume "next_ttoken s = Some b" "(t, n) = b"
  then show "(drop n s, s) \<in> measure length"
    using next_ttoken_pos [of s t n] next_ttoken_nonempty [of s t n] by (cases s) auto
qed simp

declare template_tokens.simps [simp del]

section \<open>Values\<close>

datatype sub_function = Sub_uuid | Sub_file_hash | Sub_fs_path | Sub_header_or_default

datatype tvalue = Conf cv | Raw string | Req_headers | Params | Func sub_function

record template_env =
  te_config :: cdata
  te_headers :: req_headers
  te_params :: "(ustr, ustr) multidict"
  te_parts :: url_parts
  te_request_path :: string
  te_url_base :: string
  te_doc_root :: ustr
  te_uuid :: "nat \<Rightarrow> ustr"
  te_read :: "ustr \<Rightarrow> string option"
  te_hash :: "ustr \<Rightarrow> string \<Rightarrow> string"

text \<open>The variables, and how many random ids were given out.\<close>

record template_state =
  ts_vars :: "(ustr, tvalue) odict"
  ts_uuids :: nat

type_synonym 'a templating = "(exc, template_state, 'a) act"

definition sub_attribute :: "ustr \<Rightarrow> tvalue option" where
  "sub_attribute n =
     (if n = cp ''uuid'' then Some (Func Sub_uuid)
      else if n = cp ''file_hash'' then Some (Func Sub_file_hash)
      else if n = cp ''fs_path'' then Some (Func Sub_fs_path)
      else if n = cp ''header_or_default'' then Some (Func Sub_header_or_default)
      else if n = cp ''supported_algorithms''
      then Some (Conf (CList (map (\<lambda>a. CText (cp a)) [''md5'', ''sha1'', ''sha224'', ''sha256'', ''sha384'', ''sha512''])))
      else None)"

text \<open>\<open>hostname\<close> and \<open>port\<close> of a split URL.\<close>

definition partition_at :: "char \<Rightarrow> string \<Rightarrow> string \<times> bool \<times> string" where
  "partition_at c s = (takeWhile (\<lambda>x. x \<noteq> c) s, c \<in> set s, drop 1 (dropWhile (\<lambda>x. x \<noteq> c) s))"

definition host_info :: "string \<Rightarrow> string \<times> string" where
  "host_info netloc =
     (let info = rev (takeWhile (\<lambda>c. c \<noteq> CHR ''@'') (rev netloc)); (_, br, bracketed) = partition_at (CHR ''['') info
      in if br then let (h, _, p) = partition_at (CHR '']'') bracketed; (_, _, port) = partition_at (CHR '':'') p in (h, port)
         else let (h, _, port) = partition_at (CHR '':'') info in (h, port))"

definition url_hostname :: "url_parts \<Rightarrow> string option" where
  "url_hostname u =
     (let h = fst (host_info (up_netloc u))
      in if h = [] then None
         else let (name, pct, zone) = partition_at (CHR ''%'') h
              in Some (text_lower name @ (if pct then ''%'' @ zone else [])))"

definition url_port :: "url_parts \<Rightarrow> int option res" where
  "url_port u =
     (let p = snd (host_info (up_netloc u))
      in if p = [] then Inr None
         else if \<not> list_all is_digit p then Inl ValueError
         else (case py_int p of Some i \<Rightarrow> if i \<le> 65535 then Inr (Some i) else Inl ValueError | None \<Rightarrow> Inl ValueError))"

definition str_of_option :: "string option \<Rightarrow> string" where
  "str_of_option t = (case t of None \<Rightarrow> ''None'' | Some s \<Rightarrow> s)"

definition location_value :: "url_parts \<Rightarrow> cv res" where
  "location_value u =
     rbind (url_port u) (\<lambda>port.
       let h = url_hostname u; p = str_of_option (map_option int_str port); text = (\<lambda>s. CText (cp s))
       in Inr (CDict
         [(cp ''server'', text (up_scheme u @ ''://'' @ str_of_option h @ '':'' @ p)),
          (cp ''scheme'', text (up_scheme u)),
          (cp ''host'', text (str_of_option h @ '':'' @ p)),
          (cp ''hostname'', case h of None \<Rightarrow> CNull | Some s \<Rightarrow> text s),
          (cp ''port'', case port of None \<Rightarrow> CNull | Some i \<Rightarrow> CInt i),
          (cp ''path'', text (up_path u)), (cp ''pathname'', text (up_path u)),
          (cp ''query'', text (''?'' @ up_query u))]))"

definition config_attribute :: "template_env \<Rightarrow> string \<Rightarrow> cv res" where
  "config_attribute env k = of_option AttributeError (od_get (te_config env) (cp k))"

definition field_value :: "template_env \<Rightarrow> ustr \<Rightarrow> tvalue templating" where
  "field_value env field =
     and_then get_state (\<lambda>st.
       case od_get (ts_vars st) field of
         Some v \<Rightarrow> give v
       | None \<Rightarrow>
           (case sub_attribute field of
              Some v \<Rightarrow> give v
            | None \<Rightarrow>
                if field = cp ''headers'' then give Req_headers
                else if field = cp ''GET'' then give Params
                else of_res (rbind
                  (if field = cp ''hosts'' then config_attribute env ''all_domains''
                   else if field = cp ''domains'' then rbind (config_attribute env ''all_domains'') (item_of [])
                   else if field = cp ''host'' then config_getitem (te_config env) (cp ''browser_host'')
                   else if config_contains (te_config env) field then config_getitem (te_config env) field
                   else if field = cp ''location'' then location_value (te_parts env)
                   else if field = cp ''url_base'' then Inr (CText (cp (te_url_base env)))
                   else Inl (GenericException ''Undefined template variable'')) (\<lambda>v. Inr (Conf v)))))"

section \<open>Indexing and calling\<close>

definition seq_index :: "'a list \<Rightarrow> int \<Rightarrow> 'a res" where
  "seq_index xs i =
     (let j = (if i < 0 then int (length xs) + i else i)
      in if 0 \<le> j \<and> j < int (length xs) then Inr (xs ! nat j) else Inl IndexError)"

definition conf_index :: "cv \<Rightarrow> tindex \<Rightarrow> cv res" where
  "conf_index v i = (case (v, i) of
     (CDict d, IxText k) \<Rightarrow> of_option KeyError (od_get d k)
   | (CDict d, IxInt _) \<Rightarrow> Inl KeyError
   | (CList xs, IxInt n) \<Rightarrow> seq_index xs n
   | (CText s, IxInt n) \<Rightarrow> rbind (seq_index s n) (\<lambda>c. Inr (CText [c]))
   | _ \<Rightarrow> Inl TypeError)"

text \<open>\<open>FirstWrapper.__getitem__\<close>: the key is encoded, but the keys of the parameters are texts.\<close>

definition first_param :: "(ustr, ustr) multidict \<Rightarrow> tindex \<Rightarrow> ustr res" where
  "first_param params i = (case i of
     IxInt _ \<Rightarrow> Inr []
   | IxText k \<Rightarrow> if list_all (\<lambda>c. c < 256) k then Inr [] else Inl UnicodeError)"

definition value_index :: "template_env \<Rightarrow> tvalue \<Rightarrow> tindex \<Rightarrow> tvalue res" where
  "value_index env v i = (case v of
     Conf c \<Rightarrow> rbind (conf_index c i) (\<lambda>c. Inr (Conf c))
   | Raw b \<Rightarrow> (case i of IxInt n \<Rightarrow> rbind (seq_index b n) (\<lambda>c. Inr (Conf (CInt (of_char c)))) | IxText _ \<Rightarrow> Inl TypeError)
   | Req_headers \<Rightarrow> (case i of IxInt _ \<Rightarrow> Inl TypeError
       | IxText k \<Rightarrow> rbind (isomorphic_encode k) (\<lambda>k. rbind (rq_getitem (te_headers env) k) (\<lambda>b. Inr (Raw b))))
   | Params \<Rightarrow> rbind (first_param (te_params env) i) (\<lambda>t. Inr (Conf (CText t)))
   | Func _ \<Rightarrow> Inl TypeError)"

text \<open>\<open>os.path.abspath\<close> of an absolute path: the components, and the path.\<close>

definition norm_components :: "ustr \<Rightarrow> ustr list" where
  "norm_components p =
     rev (fold (\<lambda>c acc. if c = [] \<or> c = cp ''.'' then acc else if c = cp ''..'' then tl acc else c # acc) (split_on 47 p) [])"

definition abs_path :: "ustr \<Rightarrow> ustr" where
  "abs_path p =
     (if starts_with (cp ''//'') p \<and> \<not> starts_with (cp ''///'') p then cp ''//'' else cp ''/'') @ join_with [47] (norm_components p)"

fun common_length :: "'a list \<Rightarrow> 'a list \<Rightarrow> nat" where
  "common_length (x # xs) (y # ys) = (if x = y then Suc (common_length xs ys) else 0)"
| "common_length _ _ = 0"

text \<open>\<open>os.path.relpath\<close> of two absolute paths.\<close>

definition rel_path :: "ustr \<Rightarrow> ustr \<Rightarrow> ustr" where
  "rel_path p start =
     (let ps = norm_components p; ss = norm_components start; i = common_length ss ps;
          rel = replicate (length ss - i) (cp ''..'') @ drop i ps
      in if rel = [] then cp ''.'' else join_with [47] rel)"

definition fs_path :: "template_env \<Rightarrow> ustr \<Rightarrow> ustr res" where
  "fs_path env path =
     (let root_rel_path =
            (if \<not> starts_with (cp ''/'') path
             then let subdir = drop (length (te_url_base env)) (te_request_path env);
                      subdir = (if CHR ''/'' \<in> set subdir
                                then butlast (rev (dropWhile (\<lambda>c. c \<noteq> CHR ''/'') (rev subdir))) else subdir)
                  in cp subdir @ cp ''/'' @ path
             else drop 1 path);
          absolute_path = abs_path (path_join (te_doc_root env) root_rel_path)
      in if contains_sub (cp ''..'') (rel_path absolute_path (te_doc_root env)) then Inl ValueError else Inr absolute_path)"

definition file_hash :: "template_env \<Rightarrow> ustr \<Rightarrow> ustr \<Rightarrow> string res" where
  "file_hash env algorithm path =
     (if algorithm \<notin> cp ` {''md5'', ''sha1'', ''sha224'', ''sha256'', ''sha384'', ''sha512''} then Inl ValueError
      else (case te_read env (path_join (te_doc_root env) path) of
              None \<Rightarrow> Inl (GenericException ''Cannot open file for hash computation'')
            | Some content \<Rightarrow> Inr (te_hash env algorithm content)))"

definition header_or_default :: "template_env \<Rightarrow> ustr \<Rightarrow> ustr \<Rightarrow> tvalue res" where
  "header_or_default env name dflt =
     rbind (isomorphic_encode name) (\<lambda>k. case rq_get (te_headers env) k of
         Some b \<Rightarrow> Inr (Raw b) | None \<Rightarrow> Inr (Conf (CText dflt)))"

definition value_call :: "template_env \<Rightarrow> tvalue \<Rightarrow> ustr list \<Rightarrow> tvalue templating" where
  "value_call env v args = (case (v, args) of
     (Func Sub_uuid, []) \<Rightarrow>
       and_then get_state (\<lambda>st. and_then (change (\<lambda>st. st\<lparr>ts_uuids := ts_uuids st + 1\<rparr>))
         (\<lambda>_. give (Conf (CText (te_uuid env (ts_uuids st))))))
   | (Func Sub_file_hash, [a, p]) \<Rightarrow> of_res (rbind (file_hash env a p) (\<lambda>b. Inr (Raw b)))
   | (Func Sub_fs_path, [p]) \<Rightarrow> of_res (rbind (fs_path env p) (\<lambda>t. Inr (Conf (CText t))))
   | (Func Sub_header_or_default, [n, d]) \<Rightarrow> of_res (header_or_default env n d)
   | _ \<Rightarrow> raise TypeError)"

fun apply_tokens :: "template_env \<Rightarrow> ttoken list \<Rightarrow> tvalue \<Rightarrow> tvalue templating" where
  "apply_tokens env [] v = give v"
| "apply_tokens env (TIndex i # ts) v = and_then (of_res (value_index env v i)) (apply_tokens env ts)"
| "apply_tokens env (TArgs args # ts) v = and_then (value_call env v args) (apply_tokens env ts)"
| "apply_tokens env (_ # ts) v = raise (GenericException ''unexpected token type'')"

section \<open>Replacing\<close>

text \<open>\<open>html.escape\<close> with quotes.\<close>

definition escape_html :: "ustr \<Rightarrow> ustr" where
  "escape_html s = concat (map (\<lambda>c.
     if c = 38 then cp ''&amp;'' else if c = 60 then cp ''&lt;'' else if c = 62 then cp ''&gt;''
     else if c = 34 then cp ''&quot;'' else if c = 39 then cp ''&#x27;'' else [c]) s)"

definition escape_value :: "string option \<Rightarrow> ustr \<Rightarrow> ustr res" where
  "escape_value escape_type t =
     (if escape_type = Some ''html'' then Inr (escape_html t) else if escape_type = Some ''none'' then Inr t else Inl KeyError)"

text \<open>A value as text: integers in decimal, truth values by name, bytes decoded.\<close>

definition value_text :: "tvalue \<Rightarrow> ustr res option" where
  "value_text v = (case v of
     Raw b \<Rightarrow> Some (utf8_decode b) | Conf (CText t) \<Rightarrow> Some (Inr t) | Conf (CInt i) \<Rightarrow> Some (Inr (cp (int_str i)))
   | Conf (CBool b) \<Rightarrow> Some (Inr (cp (if b then ''True'' else ''False''))) | _ \<Rightarrow> None)"

text \<open>\<open>popleft\<close> and the check that the field is a text.\<close>

definition pop_field :: "ttoken list \<Rightarrow> (ttoken \<times> ttoken list) res" where
  "pop_field ts = (case ts of
     [] \<Rightarrow> Inl IndexError
   | TIndex (IxInt _) # _ \<Rightarrow> Inl AssertionError
   | TArgs _ # _ \<Rightarrow> Inl AssertionError
   | t # ts \<Rightarrow> Inr (t, ts))"

definition config_replacement :: "template_env \<Rightarrow> string option \<Rightarrow> string \<Rightarrow> string templating" where
  "config_replacement env escape_type content =
     and_then (of_res (rbind (template_tokens content) pop_field)) (\<lambda>(t, ts).
     and_then (case t of
         TVar variable \<Rightarrow> of_res (rbind (pop_field ts) (\<lambda>(t, ts). Inr (Some variable, t, ts)))
       | _ \<Rightarrow> give (None, t, ts)) (\<lambda>(variable, t, ts).
     and_then (case t of TIdent f \<Rightarrow> give f | _ \<Rightarrow> raise (GenericException ''unexpected token type'')) (\<lambda>field.
     and_then (field_value env field) (\<lambda>v.
     and_then (apply_tokens env ts v) (\<lambda>v.
     and_then (case value_text v of None \<Rightarrow> raise AssertionError | Some t \<Rightarrow> give t) (\<lambda>text.
     and_then (case variable of None \<Rightarrow> give () | Some n \<Rightarrow> change (\<lambda>st. st\<lparr>ts_vars := od_set n v (ts_vars st)\<rparr>)) (\<lambda>_.
     and_then (of_res (rbind (escape_value escape_type []) (\<lambda>_. text))) (\<lambda>t.
       of_res (rbind (escape_value escape_type t) (\<lambda>t. encode (DText t)))))))))))"

text \<open>\<open>re.sub\<close> with \<open>{{([^}]*)}}\<close>.\<close>

definition match_braces :: "string \<Rightarrow> (string \<times> string) option" where
  "match_braces s =
     (let e = takeWhile (\<lambda>c. c \<noteq> CHR ''}'') (drop 2 s)
      in if starts_with ''{{'' s \<and> starts_with ''}}'' (drop (2 + length e) s) then Some (e, drop (4 + length e) s) else None)"

function template_from :: "template_env \<Rightarrow> string option \<Rightarrow> string \<Rightarrow> string templating" where
  "template_from env escape_type [] = give []"
| "template_from env escape_type (c # s) =
     (case match_braces (c # s) of
        Some (e, rest) \<Rightarrow>
          and_then (config_replacement env escape_type e) (\<lambda>v.
          and_then (template_from env escape_type rest) (\<lambda>r. give (v @ r)))
      | None \<Rightarrow> and_then (template_from env escape_type s) (\<lambda>r. give (c # r)))"
  by pat_completeness auto

termination template_from
  by (relation "measure (\<lambda>(_, _, s). length s)") (auto simp: match_braces_def Let_def split: if_splits)

definition template :: "template_env \<Rightarrow> string option \<Rightarrow> string \<Rightarrow> string res" where
  "template env escape_type content = fst (template_from env escape_type content \<lparr>ts_vars = [], ts_uuids = 0\<rparr>)"

end
