(* ===== verification/Ranges.thy ===== *)
theory Ranges
  imports Py_Prelude
begin

text \<open>
  The byte ranges of \<open>tools/wptserve/wptserve/ranges.py\<close>: parsing of a \<open>Range\<close> request header into
  half-open intervals of the served file, their merging, and the \<open>Content-Range\<close> value of each part.
  A range is the class \<open>Range\<close>, whose constructor raises \<open>ValueError\<close> for an empty interval or one
  that starts behind the end of the file.
\<close>

section \<open>Ranges\<close>

record range =
  lower :: int
  upper :: int
  file_size :: int

definition range_abs :: "int option \<Rightarrow> int option \<Rightarrow> int \<Rightarrow> int \<times> int" where
  "range_abs lo up fsize =
     (case (lo, up) of
        (None, None) \<Rightarrow> (0, fsize)
      | (None, Some u) \<Rightarrow> (max 0 (fsize - u), fsize)
      | (Some l, None) \<Rightarrow> (l, fsize)
      | (Some l, Some u) \<Rightarrow> (l, min fsize (u + 1)))"

definition mk_range :: "int option \<Rightarrow> int option \<Rightarrow> int \<Rightarrow> range res" where
  "mk_range lo up fsize =
     (let (l, u) = range_abs lo up fsize
      in if l \<ge> u \<or> l \<ge> fsize then Inl ValueError
         else Inr \<lparr>lower = l, upper = u, file_size = fsize\<rparr>)"

text \<open>\<open>sorted\<close> on ranges compares with \<open>__lt__\<close>, that is by lower bound, and is stable.\<close>

definition sorted_ranges :: "range list \<Rightarrow> range list" where
  "sorted_ranges rs = sort_key lower rs"

definition coalesce :: "range \<Rightarrow> range \<Rightarrow> range list res" where
  "coalesce a b =
     (if file_size a \<noteq> file_size b then Inl AssertionError
      else if upper a < lower b \<or> lower a > upper b then Inr (sorted_ranges [a, b])
      else rbind (mk_range (Some (min (lower a) (lower b))) (Some (max (upper a) (upper b) - 1)) (file_size a))
             (\<lambda>r. Inr [r]))"

definition header_value :: "range \<Rightarrow> string" where
  "header_value r = ''bytes '' @ int_str (lower r) @ ''-'' @ int_str (upper r - 1) @ ''/'' @ int_str (file_size r)"

text \<open>
  The loop of \<open>coalesce_ranges\<close>: the ranges come in descending order, \<open>target\<close> is the range under
  construction and \<open>rv\<close> the finished ones, in the order in which they were appended.
\<close>

fun coalesce_loop :: "range option \<Rightarrow> range list \<Rightarrow> range list \<Rightarrow> (range option \<times> range list) res" where
  "coalesce_loop target rv [] = Inr (target, rv)"
| "coalesce_loop None rv (c # cs) = coalesce_loop (Some c) rv cs"
| "coalesce_loop (Some t) rv (c # cs) =
     rbind (coalesce t c) (\<lambda>new.
       (case new of
          [] \<Rightarrow> Inl IndexError
        | [x] \<Rightarrow> coalesce_loop (Some x) rv cs
        | x # y # _ \<Rightarrow> coalesce_loop (Some x) (rv @ [y]) cs))"

definition coalesce_ranges :: "range list \<Rightarrow> range option list res" where
  "coalesce_ranges rs =
     rbind (coalesce_loop None [] (rev (sorted_ranges rs)))
       (\<lambda>(t, rv). Inr (rev (map Some rv @ [t])))"

section \<open>The header parser\<close>

definition parse_component :: "string \<Rightarrow> string \<Rightarrow> int option res" where
  "parse_component item c =
     (if c = '''' then Inr None
      else (case py_int c of
              None \<Rightarrow> Inl (HTTPException 416 (''Bad range specifier '' @ item))
            | Some n \<Rightarrow> Inr (Some n)))"

definition parse_item :: "int \<Rightarrow> string \<Rightarrow> range res" where
  "parse_item fsize item =
     (let bad = HTTPException 416 (''Bad range specifier '' @ item)
      in (case split_on (CHR ''-'') item of
            [a, b] \<Rightarrow>
              rbind (parse_component item a) (\<lambda>lo.
              rbind (parse_component item b) (\<lambda>up.
              (case mk_range lo up fsize of Inl e \<Rightarrow> Inl (if e = ValueError then bad else e) | Inr r \<Rightarrow> Inr r)))
          | _ \<Rightarrow> Inl bad))"

definition range_parser :: "string \<Rightarrow> int \<Rightarrow> range option list res" where
  "range_parser header fsize =
     (if \<not> is_ascii header then Inl (HTTPException 400 ''Non-ASCII range header value'')
      else if \<not> starts_with ''bytes='' header
      then Inl (HTTPException 416 (''Unrecognised range type '' @ header))
      else rbind (rmap (parse_item fsize) (split_on (CHR '','') (drop (length ''bytes='') header)))
             coalesce_ranges)"

section \<open>Correctness\<close>

text \<open>A range the constructor can have built for a file of \<open>n\<close> bytes, and the bytes it selects.\<close>

definition wf_range :: "int \<Rightarrow> range \<Rightarrow> bool" where
  "wf_range n r \<longleftrightarrow> 0 \<le> lower r \<and> lower r < upper r \<and> upper r \<le> n \<and> file_size r = n"

definition bytes_of :: "range \<Rightarrow> int set" where
  "bytes_of r = {lower r ..< upper r}"

definition separated :: "range list \<Rightarrow> bool" where
  "separated rs \<longleftrightarrow> sorted_wrt (\<lambda>a b. upper a < lower b) rs"

lemma mk_range_wf:
  assumes "mk_range lo up n = Inr r" and "\<And>l. lo = Some l \<Longrightarrow> 0 \<le> l"
  shows "wf_range n r"
  using assms by (auto simp: mk_range_def range_abs_def wf_range_def Let_def split: option.splits if_splits)

lemma coalesce_apart:
  assumes "wf_range n t" "wf_range n c" "lower c \<le> lower t" "upper c < lower t"
  shows "coalesce t c = Inr [c, t]"
  using assms by (auto simp: coalesce_def wf_range_def sorted_ranges_def)

lemma coalesce_merge:
  assumes "wf_range n t" "wf_range n c" "lower c \<le> lower t" "lower t \<le> upper c"
  obtains r where "coalesce t c = Inr [r]" "wf_range n r" "lower r = lower c"
    "upper r = max (upper t) (upper c)" "bytes_of r = bytes_of t \<union> bytes_of c"
proof
  let ?r = "\<lparr>lower = lower c, upper = max (upper t) (upper c), file_size = n\<rparr>"
  show "coalesce t c = Inr [?r]"
    using assms by (auto simp: coalesce_def wf_range_def mk_range_def range_abs_def)
  show "wf_range n ?r" using assms by (auto simp: wf_range_def)
  show "bytes_of ?r = bytes_of t \<union> bytes_of c"
    using assms by (auto simp: bytes_of_def wf_range_def)
qed simp_all

text \<open>
  The invariant of the loop: the finished ranges lie above the target by lower bound, and no byte is
  lost or invented.
\<close>

definition covered_bytes :: "range list \<Rightarrow> int set" where
  "covered_bytes rs = (\<Union>r \<in> set rs. bytes_of r)"

lemma covered_bytes_simps [simp]:
  "covered_bytes [] = {}"
  "covered_bytes (r # rs) = bytes_of r \<union> covered_bytes rs"
  "covered_bytes (rs @ ss) = covered_bytes rs \<union> covered_bytes ss"
  "covered_bytes (rev rs) = covered_bytes rs"
  by (auto simp: covered_bytes_def)

lemma coalesce_loop_ok:
  assumes "\<forall>r \<in> set (t # rv @ cs). wf_range n r"
    and "sorted_wrt (\<lambda>a b. lower b \<le> lower a) (t # cs)"
    and "sorted_wrt (\<lambda>a b. lower a < lower b) (t # rev rv)"
  shows "\<exists>t' rv'. coalesce_loop (Some t) rv cs = Inr (Some t', rv')
     \<and> (\<forall>r \<in> set (t' # rv'). wf_range n r)
     \<and> sorted_wrt (\<lambda>a b. lower a < lower b) (t' # rev rv')
     \<and> covered_bytes (t' # rv') = covered_bytes (t # rv @ cs)
     \<and> length rv' \<le> length rv + length cs"
  using assms
proof (induction cs arbitrary: t rv)
  case (Cons c cs)
  have wf: "wf_range n t" "wf_range n c" and le: "lower c \<le> lower t" using Cons.prems by auto
  show ?case
  proof (cases "upper c < lower t")
    case True
    have step: "coalesce_loop (Some t) rv (c # cs) = coalesce_loop (Some c) (rv @ [t]) cs"
      using coalesce_apart [OF wf le True] by simp
    have "lower c < lower t" using True wf by (simp add: wf_range_def)
    then have "sorted_wrt (\<lambda>a b. lower a < lower b) (c # rev (rv @ [t]))"
      using Cons.prems(3) by fastforce
    from Cons.IH [OF _ _ this] show ?thesis
      unfolding step using Cons.prems by (fastforce simp: Un_ac)
  next
    case False
    then obtain r where r: "coalesce t c = Inr [r]" "wf_range n r" "lower r = lower c"
        "bytes_of r = bytes_of t \<union> bytes_of c"
      using coalesce_merge [OF wf le] by (metis not_less)
    have step: "coalesce_loop (Some t) rv (c # cs) = coalesce_loop (Some r) rv cs"
      using r(1) by simp
    have "sorted_wrt (\<lambda>a b. lower a < lower b) (r # rev rv)"
      using Cons.prems(3) r(3) le by fastforce
    from Cons.IH [OF _ _ this] show ?thesis
      unfolding step using Cons.prems r by (fastforce simp: Un_ac)
  qed
qed auto

lemma sorted_ranges_desc: "sorted_wrt (\<lambda>a b. lower b \<le> lower a) (rev (sorted_ranges rs))"
proof -
  have "sorted (map lower (sorted_ranges rs))" by (simp add: sorted_ranges_def)
  then show ?thesis by (simp add: sorted_wrt_rev sorted_wrt_map)
qed

lemma set_sorted_ranges [simp]: "set (sorted_ranges rs) = set rs"
  by (simp add: sorted_ranges_def)

lemma coalesce_ranges_ok:
  assumes "rs \<noteq> []" and "\<forall>r \<in> set rs. wf_range n r"
  shows "\<exists>out. coalesce_ranges rs = Inr (map Some out) \<and> out \<noteq> []
    \<and> (\<forall>r \<in> set out. wf_range n r) \<and> sorted_wrt (\<lambda>a b. lower a < lower b) out
    \<and> covered_bytes out = covered_bytes rs \<and> length out \<le> length rs"
proof -
  obtain t cs where ts: "rev (sorted_ranges rs) = t # cs"
    using assms(1) by (metis list.exhaust set_empty set_rev set_sorted_ranges)
  have set: "set (t # cs) = set rs" by (simp flip: ts)
  have len: "length (t # cs) = length rs" by (simp flip: ts add: sorted_ranges_def)
  have wf: "\<forall>r \<in> set (t # [] @ cs). wf_range n r" using set assms(2) by auto
  have desc: "sorted_wrt (\<lambda>a b. lower b \<le> lower a) (t # cs)"
    using sorted_ranges_desc [of rs] ts by simp
  obtain t' rv' where l: "coalesce_loop (Some t) [] cs = Inr (Some t', rv')"
    "\<forall>r \<in> set (t' # rv'). wf_range n r" "sorted_wrt (\<lambda>a b. lower a < lower b) (t' # rev rv')"
    "covered_bytes (t' # rv') = covered_bytes (t # cs)" "length rv' \<le> length cs"
    using coalesce_loop_ok [OF wf desc] by auto
  have "coalesce_ranges rs = Inr (map Some (t' # rev rv'))"
    by (simp add: coalesce_ranges_def ts l(1) rev_map)
  moreover have "covered_bytes (t # cs) = covered_bytes rs" using set by (simp add: covered_bytes_def)
  ultimately show ?thesis
    using l len by (intro exI [of _ "t' # rev rv'"]) auto
qed

text \<open>
  Without nesting among the requested ranges the result is fully merged. The target keeps the
  greatest upper bound, so no later range can grow over a finished one.
\<close>

lemma coalesce_loop_separated:
  assumes "coalesce_loop (Some t) rv cs = Inr (Some t', rv')"
    and "\<forall>r \<in> set (t # rv @ cs). wf_range n r"
    and "sorted_wrt (\<lambda>a b. lower b \<le> lower a) (t # cs)"
    and "sorted_wrt (\<lambda>a b. upper b \<le> upper a) (t # cs)"
    and "separated (t # rev rv)"
  shows "separated (t' # rev rv')"
  using assms
proof (induction cs arbitrary: t rv)
  case (Cons c cs)
  have wf: "wf_range n t" "wf_range n c" and le: "lower c \<le> lower t" using Cons.prems by auto
  show ?case
  proof (cases "upper c < lower t")
    case True
    have run: "coalesce_loop (Some c) (rv @ [t]) cs = Inr (Some t', rv')"
      using Cons.prems(1) coalesce_apart [OF wf le True] by simp
    have "separated (c # rev (rv @ [t]))"
      using Cons.prems(5) True wf by (fastforce simp: separated_def wf_range_def)
    with Cons.IH [OF run] show ?thesis using Cons.prems by auto
  next
    case False
    then obtain r where r: "coalesce t c = Inr [r]" "wf_range n r" "lower r = lower c"
        "upper r = max (upper t) (upper c)"
      using coalesce_merge [OF wf le] by (metis not_less)
    have up: "upper r = upper t" using r(4) Cons.prems(4) by simp
    have run: "coalesce_loop (Some r) rv cs = Inr (Some t', rv')"
      using Cons.prems(1) r(1) by simp
    have "separated (r # rev rv)" using Cons.prems(5) up by (auto simp: separated_def)
    with Cons.IH [OF run] show ?thesis using Cons.prems r up by auto
  qed
qed auto

lemma parse_item_Inr:
  assumes "parse_item n item = Inr r"
  obtains a b lo up where "split_on (CHR ''-'') item = [a, b]" "parse_component item a = Inr lo"
      "parse_component item b = Inr up" "mk_range lo up n = Inr r"
proof -
  obtain a b where ab: "split_on (CHR ''-'') item = [a, b]"
    using assms by (auto simp: parse_item_def Let_def split: list.splits)
  moreover obtain lo up where "parse_component item a = Inr lo" "parse_component item b = Inr up"
      "mk_range lo up n = Inr r"
    using assms ab by (cases "parse_component item a"; cases "parse_component item b")
      (auto simp: parse_item_def Let_def split: sum.splits)
  ultimately show ?thesis by (rule that)
qed

lemma parse_item_wf:
  assumes "parse_item n item = Inr r" shows "wf_range n r"
proof -
  obtain a b lo up where ab: "split_on (CHR ''-'') item = [a, b]" "parse_component item a = Inr lo"
      "parse_component item b = Inr up" "mk_range lo up n = Inr r"
    using assms by (rule parse_item_Inr)
  have "CHR ''-'' \<notin> set a" using ab(1) split_on_no_sep [of a "CHR ''-''" item] by simp
  then have nonneg: "0 \<le> l" if "lo = Some l" for l
    using ab(2) that py_int_nonneg by (auto simp: parse_component_def split: if_splits option.splits)
  show ?thesis by (rule mk_range_wf [OF ab(4) nonneg])
qed

lemma parse_item_error:
  "parse_item n item = Inl e \<Longrightarrow> e = HTTPException 416 (''Bad range specifier '' @ item)"
  by (auto simp: parse_item_def parse_component_def Let_def mk_range_def rbind_eq_Inl
      split: list.splits sum.splits if_splits option.splits prod.splits)

lemma range_parser_result:
  "case range_parser h n of
     Inl e \<Rightarrow> (\<exists>m. e = (if is_ascii h then HTTPException 416 m else HTTPException 400 m))
   | Inr res \<Rightarrow> (\<exists>req out. rmap (parse_item n) (split_on (CHR '','') (drop (length ''bytes='') h)) = Inr req
       \<and> res = map Some out \<and> out \<noteq> [] \<and> length out \<le> length req
       \<and> list_all (wf_range n) out \<and> sorted_wrt (\<lambda>a b. lower a < lower b) out
       \<and> covered_bytes out = covered_bytes req)"
proof (cases "is_ascii h \<and> starts_with ''bytes='' h")
  case True
  let ?items = "split_on (CHR '','') (drop (length ''bytes='') h)"
  show ?thesis
  proof (cases "rmap (parse_item n) ?items")
    case (Inl e)
    then obtain m where "e = HTTPException 416 m"
      using rmap_Inl [OF Inl] parse_item_error by blast
    then show ?thesis using True Inl by (simp add: range_parser_def)
  next
    case (Inr req)
    then have "req \<noteq> []" using rmap_length [OF Inr] split_on_not_Nil by fastforce
    moreover have "\<forall>r \<in> set req. wf_range n r" using rmap_in [OF Inr] parse_item_wf by blast
    ultimately have "\<exists>out. coalesce_ranges req = Inr (map Some out) \<and> out \<noteq> []
        \<and> (\<forall>r \<in> set out. wf_range n r) \<and> sorted_wrt (\<lambda>a b. lower a < lower b) out
        \<and> covered_bytes out = covered_bytes req \<and> length out \<le> length req"
      by (rule coalesce_ranges_ok)
    then have ok: "\<exists>out. coalesce_ranges req = Inr (map Some out) \<and> out \<noteq> []
        \<and> list_all (wf_range n) out \<and> sorted_wrt (\<lambda>a b. lower a < lower b) out
        \<and> covered_bytes out = covered_bytes req \<and> length out \<le> length req"
      by (simp add: list_all_iff)
    from ok True Inr show ?thesis by (auto simp: range_parser_def)
  qed
qed (auto simp: range_parser_def)


text \<open>
  when no requested range contains another, the merged ranges are pairwise disjoint and not even
  adjacent: every merge that could be done has been done.
\<close>

theorem coalesce_ranges_separated:
  assumes "rs \<noteq> []" and "\<forall>r \<in> set rs. wf_range n r"
    and "\<forall>a \<in> set rs. \<forall>b \<in> set rs. lower a \<le> lower b \<longrightarrow> upper a \<le> upper b"
  shows "\<exists>out. coalesce_ranges rs = Inr (map Some out) \<and> separated out \<and> covered_bytes out = covered_bytes rs"
proof -
  obtain t cs where ts: "rev (sorted_ranges rs) = t # cs"
    using assms(1) by (metis list.exhaust set_empty set_rev set_sorted_ranges)
  have set: "set (t # cs) = set rs" by (simp flip: ts)
  have desc: "sorted_wrt (\<lambda>a b. lower b \<le> lower a) (t # cs)"
    using sorted_ranges_desc [of rs] ts by simp
  have wf: "\<forall>r \<in> set (t # [] @ cs). wf_range n r" using set assms(2) by auto
  from desc have up: "sorted_wrt (\<lambda>a b. upper b \<le> upper a) (t # cs)"
    by (rule sorted_wrt_mono_rel [rotated]) (use assms(3) set in auto)
  obtain out where out: "coalesce_ranges rs = Inr (map Some out)" "covered_bytes out = covered_bytes rs"
    using coalesce_ranges_ok [OF assms(1,2)] by blast
  obtain t' rv' where l: "coalesce_loop (Some t) [] cs = Inr (Some t', rv')"
    using coalesce_loop_ok [OF wf desc] by auto
  have "separated (t' # rev rv')"
    by (rule coalesce_loop_separated [OF l wf desc up]) (simp add: separated_def)
  moreover have "map Some out = map Some (t' # rev rv')"
    using out(1) by (simp add: coalesce_ranges_def ts l rev_map)
  ultimately show ?thesis using out by (metis (no_types) inj_Some inj_map_eq_map)
qed

theorem coalesce_ranges_separated_witness:
  "\<exists>out. coalesce_ranges [\<lparr>lower = 5, upper = 9, file_size = 20\<rparr>, \<lparr>lower = 0, upper = 6, file_size = 20\<rparr>]
      = Inr (map Some out) \<and> separated out
      \<and> covered_bytes out = covered_bytes [\<lparr>lower = 5, upper = 9, file_size = 20\<rparr>, \<lparr>lower = 0, upper = 6, file_size = 20\<rparr>]"
  by (rule coalesce_ranges_separated [where n = 20]) (auto simp: wf_range_def)

text \<open>
  with nesting the merge is incomplete. For \<open>bytes=0-100,10-20,50-60\<close> of a 200 byte file the
  parser returns 0-100 and 50-60, two overlapping ranges, although the class is meant to coalesce
  overlapping ranges: the target only meets its neighbour, and a range that outgrows it is not
  compared with the ranges already finished.
\<close>

theorem nested_ranges_overlap:
  "range_parser ''bytes=0-100,10-20,50-60'' 200 =
     Inr [Some \<lparr>lower = 0, upper = 101, file_size = 200\<rparr>, Some \<lparr>lower = 50, upper = 61, file_size = 200\<rparr>]"
  by code_simp

end
