(* ===== verification/Handlers.thy ===== *)
theory Handlers
  imports Response_Parts Templates Ranges
begin

text \<open>
  The request handlers (\<open>tools/wptserve/wptserve/handlers.py\<close>): the path a URL stands for, files with their
  header files and byte ranges, pipelines from the URL, Python scripts and functions, and the handlers of
  errors, redirects and fixed texts. The files are a parameter, as are the functions scripts define; where a
  pipeline cannot end a handler has no value.
\<close>

section \<open>Files\<close>

text \<open>
  What the handlers ask the operating system about a path: is it a directory, does it exist, its size, and
  the bytes \<open>open\<close> and \<open>read\<close> give; \<open>None\<close> is an \<open>OSError\<close>. A path with a null character is refused before.
\<close>

record files =
  fl_dir :: "ustr \<Rightarrow> bool"
  fl_exists :: "ustr \<Rightarrow> bool"
  fl_size :: "ustr \<Rightarrow> nat option"
  fl_read :: "ustr \<Rightarrow> string option"

definition os_isdir :: "files \<Rightarrow> ustr \<Rightarrow> bool" where
  "os_isdir fs p \<longleftrightarrow> 0 \<notin> set p \<and> fl_dir fs p"

definition os_exists :: "files \<Rightarrow> ustr \<Rightarrow> bool" where
  "os_exists fs p \<longleftrightarrow> 0 \<notin> set p \<and> fl_exists fs p"

definition os_size :: "files \<Rightarrow> ustr \<Rightarrow> int res" where
  "os_size fs p = (if 0 \<in> set p then Inl ValueError else of_option OSError (map_option int (fl_size fs p)))"

definition os_read :: "files \<Rightarrow> ustr \<Rightarrow> string res" where
  "os_read fs p = (if 0 \<in> set p then Inl ValueError else of_option OSError (fl_read fs p))"

text \<open>
  What a handler sees of the request and of the server. Templates that are evaluated for a path take their
  random ids from \<open>he_uuid\<close> at this path; \<open>he_hash_file\<close> is what they read to hash it.
\<close>

record handler_env =
  he_request :: request
  he_doc_root :: ustr
  he_url_base :: string
  he_config :: cdata
  he_files :: files
  he_uuid :: "ustr \<Rightarrow> nat \<Rightarrow> ustr"
  he_hash_file :: "ustr \<Rightarrow> string option"
  he_hash :: "ustr \<Rightarrow> string \<Rightarrow> string"
  he_sleep :: "string \<Rightarrow> exc option option"
  he_gzip :: "string \<Rightarrow> string"
  he_wide_pipeline :: "ustr \<Rightarrow> response \<Rightarrow> ((exc + unit) \<times> response) option"
  he_boundary :: string
  he_suppress :: bool
  he_server :: server_env

abbreviation he_headers :: "handler_env \<Rightarrow> req_headers" where
  "he_headers env \<equiv> mk_request_headers (req_raw_headers (he_request env))"

definition template_env_at :: "handler_env \<Rightarrow> ustr \<Rightarrow> template_env" where
  "template_env_at env path =
     \<lparr>te_config = he_config env, te_headers = he_headers env, te_params = request_GET (he_request env),
      te_parts = req_url_parts (he_request env), te_request_path = req_path (he_request env),
      te_url_base = he_url_base env, te_doc_root = he_doc_root env, te_uuid = he_uuid env path,
      te_read = he_hash_file env, te_hash = he_hash env\<rparr>"

section \<open>Paths\<close>

text \<open>The part of the URL's path below \<open>url_base\<close>.\<close>

definition url_rest :: "handler_env \<Rightarrow> string \<Rightarrow> ustr" where
  "url_rest env url_base =
     (let path = unquote (cp (up_path (req_url_parts (he_request env))))
      in if starts_with (cp url_base) path then drop (length url_base) path else path)"

definition root_of :: "handler_env \<Rightarrow> ustr option \<Rightarrow> ustr" where
  "root_of env base_path = (case base_path of None \<Rightarrow> he_doc_root env | Some b \<Rightarrow> b)"

definition filesystem_path :: "handler_env \<Rightarrow> ustr option \<Rightarrow> string \<Rightarrow> ustr res" where
  "filesystem_path env base_path url_base =
     (let base = root_of env base_path; path = url_rest env url_base
      in if contains_sub (cp ''..'') path then Inl (HTTPException 404 [])
         else let new_path = path_join base path
              in if \<not> starts_with base new_path then Inl (HTTPException 404 []) else Inr new_path)"

text \<open>\<open>os.path.splitext(p)[1]\<close> and \<open>os.path.dirname\<close>.\<close>

definition path_ext :: "ustr \<Rightarrow> ustr" where
  "path_ext p =
     (let f = rev (takeWhile (\<lambda>c. c \<noteq> 47) (rev p)); e = rev (takeWhile (\<lambda>c. c \<noteq> 46) (rev f))
      in if 46 \<in> set f \<and> list_ex (\<lambda>c. c \<noteq> 46) (take (length f - Suc (length e)) f) then 46 # e else [])"

definition dirname :: "ustr \<Rightarrow> ustr" where
  "dirname p =
     (let h = rev (dropWhile (\<lambda>c. c \<noteq> 47) (rev p))
      in if list_ex (\<lambda>c. c \<noteq> 47) h then rev (dropWhile (\<lambda>c. c = 47) (rev h)) else h)"

definition guess_content_type :: "ustr \<Rightarrow> string" where
  "guess_content_type path =
     (let ext = dropWhile (\<lambda>c. c = 46) (path_ext path)
      in case (if list_all (\<lambda>c. c < 256) ext then od_get content_types (map char_of ext) else None) of
           Some t \<Rightarrow> t | None \<Rightarrow> ''application/octet-stream'')"

section \<open>Pipelines\<close>

text \<open>Actions that may not end, as pipelines with a final repetition of delays.\<close>

type_synonym 'a piped = "response \<Rightarrow> ((exc + 'a) \<times> response) option"

definition then_pipe :: "'a writing \<Rightarrow> ('a \<Rightarrow> 'b piped) \<Rightarrow> 'b piped" where
  "then_pipe m f st = (case m st of (Inl e, st') \<Rightarrow> Some (Inl e, st') | (Inr x, st') \<Rightarrow> f x st')"

definition and_piped :: "'a piped \<Rightarrow> ('a \<Rightarrow> 'b piped) \<Rightarrow> 'b piped" where
  "and_piped m f st = (case m st of None \<Rightarrow> None | Some (Inl e, st') \<Rightarrow> Some (Inl e, st') | Some (Inr x, st') \<Rightarrow> f x st')"

definition ends_with_result :: "'a writing \<Rightarrow> 'a piped" where
  "ends_with_result m st = Some (m st)"

lemma then_pipe_simps [simp]:
  "then_pipe (give x) f = f x" "then_pipe (raise e) f = (\<lambda>st. Some (Inl e, st))"
  "m st = (Inr x, st') \<Longrightarrow> then_pipe m f st = f x st'" "m st = (Inl e, st') \<Longrightarrow> then_pipe m f st = Some (Inl e, st')"
  by (simp_all add: then_pipe_def fun_eq_iff act_simps)

lemma and_piped_Some [simp]: "m st = Some (Inr x, st') \<Longrightarrow> and_piped m f st = f x st'"
  by (simp add: and_piped_def)

text \<open>\<open>except OSError: raise HTTPException(404)\<close>.\<close>

definition not_found_on_os_error :: "'a piped \<Rightarrow> 'a piped" where
  "not_found_on_os_error m st =
     map_option (\<lambda>(r, st'). (case r of Inl OSError \<Rightarrow> Inl (HTTPException 404 []) | _ \<Rightarrow> r, st')) (m st)"

definition parse_qs :: "ustr \<Rightarrow> (ustr, ustr) multidict" where
  "parse_qs qs =
     md_of_pairs (concat (map (\<lambda>item. case split_once 61 item of
         [n, v] \<Rightarrow> if v = [] then [] else [(unquote (plus_to_space n), unquote (plus_to_space v))]
       | _ \<Rightarrow> []) (filter (\<lambda>item. item \<noteq> []) (split_on 38 qs))))"

definition ml_extensions :: "ustr set" where
  "ml_extensions = cp ` {''.html'', ''.htm'', ''.xht'', ''.xhtml'', ''.xml'', ''.svg''}"

definition pipe_string :: "handler_env \<Rightarrow> ustr \<Rightarrow> ustr" where
  "pipe_string env path =
     (let sub = (if contains_sub (cp ''.sub.'') path
                 then cp ''sub('' @ cp (if path_ext path \<in> ml_extensions then ''html'' else ''none'') @ cp '')'' else [])
      in case md_last (parse_qs (cp (up_query (req_url_parts (he_request env))))) (cp ''pipe'') None of
           Inl _ \<Rightarrow> sub
         | Inr pipe \<Rightarrow> (if sub = [] then [] else sub @ cp ''|'') @ pipe)"

definition pipe_env_at :: "handler_env \<Rightarrow> ustr \<Rightarrow> pipe_env" where
  "pipe_env_at env path =
     \<lparr>pe_sleep = he_sleep env, pe_gzip = he_gzip env, pe_sub = template (template_env_at env path)\<rparr>"

text \<open>Pipe strings with characters beyond Latin-1 are left to the parameter \<open>he_wide_pipeline\<close>.\<close>

definition wrap_pipeline :: "handler_env \<Rightarrow> ustr \<Rightarrow> unit piped" where
  "wrap_pipeline env path =
     (let s = pipe_string env path
      in if s = [] then ends_with_result (give ())
         else if list_all (\<lambda>c. c < 256) s
         then then_pipe (of_res (parse_pipeline (map char_of s))) (run_pipeline (pipe_env_at env path))
         else he_wide_pipeline env s)"

section \<open>Header files\<close>

text \<open>\<open>bytes.splitlines\<close>: the flag says that the last character was a carriage return.\<close>

fun split_lines :: "bool \<Rightarrow> string \<Rightarrow> string \<Rightarrow> string list" where
  "split_lines cr cur [] = (if cur = [] then [] else [cur])"
| "split_lines cr cur (c # cs) =
     (if c = CHR 0x0A then (if cr then split_lines False [] cs else cur # split_lines False [] cs)
      else if c = CHR 0x0D then cur # split_lines True [] cs
      else split_lines False (cur @ [c]) cs)"

definition load_file :: "handler_env \<Rightarrow> ustr \<Rightarrow> string list list res" where
  "load_file env path =
     (let use_sub = os_exists (he_files env) (path @ cp ''.sub.headers'');
          headers_path = path @ cp (if use_sub then ''.sub.headers'' else ''.headers'')
      in case os_read (he_files env) headers_path of
           Inl e \<Rightarrow> if e = OSError then Inr [] else Inl e
         | Inr data \<Rightarrow>
             rbind (if use_sub then template (template_env_at env headers_path) (Some ''none'') data else Inr data)
               (\<lambda>data. Inr (map (\<lambda>line. map (strip_by is_space) (split_once (CHR '':'') line))
                              (filter (\<lambda>line. line \<noteq> []) (split_lines False [] data)))))"

definition load_headers :: "handler_env \<Rightarrow> ustr \<Rightarrow> string list list res" where
  "load_headers env path =
     rbind (load_file env (path_join (dirname path) (cp ''__dir__''))) (\<lambda>dir.
     rbind (load_file env path) (\<lambda>own. Inr (dir @ own)))"

text \<open>A line without a colon is a tuple of one element, which cannot be unpacked.\<close>

fun any_content_type :: "string list list \<Rightarrow> bool res" where
  "any_content_type [] = Inr False"
| "any_content_type (line # ls) =
     (case line of [k, _] \<Rightarrow> if py_lower k = ''content-type'' then Inr True else any_content_type ls | _ \<Rightarrow> Inl ValueError)"

definition get_headers :: "handler_env \<Rightarrow> ustr \<Rightarrow> string list list res" where
  "get_headers env path =
     rbind (load_headers env path) (\<lambda>rv.
     rbind (any_content_type rv) (\<lambda>given.
       Inr (if given then rv else [''Content-Type'', guess_content_type path] # rv)))"

definition headers_update :: "(pyval \<times> pyval) list \<Rightarrow> unit writing" where
  "headers_update items =
     and_then get_state (\<lambda>st. case rs_headers st of
         HObject h \<Rightarrow> change (\<lambda>st. st\<lparr>rs_headers := HObject (rh_update items h)\<rparr>)
       | HList _ \<Rightarrow> raise AttributeError)"

fun update_lines :: "string list list \<Rightarrow> unit writing" where
  "update_lines [] = give ()"
| "update_lines (line # ls) =
     (case line of [k, v] \<Rightarrow> and_then (headers_update [(PBytes k, PBytes v)]) (\<lambda>_. update_lines ls)
      | _ \<Rightarrow> raise ValueError)"

section \<open>Files and byte ranges\<close>

text \<open>\<open>seek\<close> and \<open>read\<close> on the opened file.\<close>

definition get_range_data :: "string \<Rightarrow> range option \<Rightarrow> string res" where
  "get_range_data f r = (case r of
     None \<Rightarrow> Inl AttributeError
   | Some r \<Rightarrow>
       if lower r < 0 then Inl OSError
       else if upper r < lower r then Inr (drop (nat (lower r)) f)
       else Inr (take (nat (upper r - lower r)) (drop (nat (lower r)) f)))"

definition set_response_multipart :: "handler_env \<Rightarrow> (string option \<times> multipart) writing" where
  "set_response_multipart env =
     and_then get_state (\<lambda>st.
     and_then (of_res (header_object st)) (\<lambda>h.
       let types = rh_get h (PStr ''Content-Type'') None;
           parts_content_type = (if types = [] then None else Some (last types));
           content = mk_multipart (he_boundary env) None None
       in and_then (headers_set ''Content-Type'' (PStr (''multipart/byteranges; boundary='' @ mp_boundary content)))
            (\<lambda>_. give (parts_content_type, content))))"

fun append_parts :: "string \<Rightarrow> string option \<Rightarrow> range option list \<Rightarrow> multipart \<Rightarrow> multipart res" where
  "append_parts f t [] m = Inr m"
| "append_parts f t (r # rs) m =
     rbind (get_range_data f r) (\<lambda>d.
     rbind (of_option AttributeError (map_option header_value r)) (\<lambda>v.
       append_parts f t rs (append_part d t [(''Content-Range'', PStr v)] m)))"

definition get_data :: "handler_env \<Rightarrow> ustr \<Rightarrow> range option list option \<Rightarrow> content writing" where
  "get_data env path byte_ranges =
     and_then (of_res (os_read (he_files env) path)) (\<lambda>f.
       case byte_ranges of
         None \<Rightarrow> give (CFile \<lparr>file_rest = f, file_closed = False\<rparr>)
       | Some rs \<Rightarrow>
           and_then (set_status (StNum 206)) (\<lambda>_.
             if 1 < length rs
             then and_then (set_response_multipart env) (\<lambda>(t, m).
                  and_then (of_res (append_parts f t rs m)) (\<lambda>m. give (multipart_content m)))
             else (case rs of
                 Some r # _ \<Rightarrow>
                   and_then (headers_set ''Content-Range'' (PStr (header_value r))) (\<lambda>_.
                   and_then (of_res (get_range_data f (Some r))) (\<lambda>b. give (CData (DBytes b))))
               | None # _ \<Rightarrow> raise AttributeError
               | [] \<Rightarrow> raise IndexError)))"

text \<open>
  The ranges of the request. An \<open>HTTPException\<close> with a status other than 416 is dropped, and the variable
  stays unassigned: the outer \<open>None\<close>.
\<close>

definition byte_ranges :: "handler_env \<Rightarrow> int \<Rightarrow> range option list option option writing" where
  "byte_ranges env fsize =
     (if \<not> rq_contains (he_headers env) ''Range'' then give (Some None)
      else (case rbind (rq_getitem (he_headers env) ''Range'') (\<lambda>v. range_parser v fsize) of
              Inr rs \<Rightarrow> give (Some (Some rs))
            | Inl (HTTPException code m) \<Rightarrow>
                if code = 416
                then and_then (headers_set ''Content-Range'' (PStr (''bytes */'' @ int_str fsize))) (\<lambda>_. raise (HTTPException code m))
                else give None
            | Inl e \<Rightarrow> raise e))"

definition serve_file :: "handler_env \<Rightarrow> ustr \<Rightarrow> unit writing" where
  "serve_file env path =
     and_then (of_res (os_size (he_files env) path)) (\<lambda>fsize.
     and_then (of_res (get_headers env path)) (\<lambda>lines.
     and_then (update_lines lines) (\<lambda>_.
     and_then (byte_ranges env fsize) (\<lambda>rs.
     and_then (of_res (of_option UnboundLocalError rs)) (\<lambda>rs.
     and_then (get_data env path rs) set_content)))))"

definition file_handler :: "handler_env \<Rightarrow> ustr option \<Rightarrow> string \<Rightarrow> unit piped" where
  "file_handler env base_path url_base =
     then_pipe (of_res (filesystem_path env base_path url_base)) (\<lambda>path.
       if os_isdir (he_files env) path then ends_with_result (raise (HTTPException 403 []))
       else not_found_on_os_error (then_pipe (serve_file env path) (\<lambda>_. wrap_pipeline env path)))"

section \<open>Functions and scripts\<close>

text \<open>\<open>FunctionHandler\<close> lets only an \<open>HTTPException\<close> out of the function it calls.\<close>

definition http_errors_only :: "'a piped \<Rightarrow> 'a piped" where
  "http_errors_only m st = map_option (\<lambda>(r, st').
     (case r of Inl (HTTPException c t) \<Rightarrow> r | Inl _ \<Rightarrow> Inl (HTTPException 500 []) | Inr _ \<Rightarrow> r, st')) (m st)"

text \<open>What a handler function may return: nothing, a tuple of three, two or another number of elements, or a content.\<close>

datatype handler_result =
    RvNone
  | RvStatus status_value "(pyval \<times> pyval) list" content
  | RvHeaders "(pyval \<times> pyval) list" content
  | RvTuple
  | RvContent content

definition function_handler :: "handler_env \<Rightarrow> handler_result piped \<Rightarrow> unit piped" where
  "function_handler env func =
     and_piped (http_errors_only func) (\<lambda>rv.
       let finish = (\<lambda>headers content.
             then_pipe (and_then (headers_update headers) (\<lambda>_. set_content content)) (\<lambda>_. wrap_pipeline env []))
       in case rv of
            RvNone \<Rightarrow> ends_with_result (give ())
          | RvStatus status headers content \<Rightarrow> then_pipe (set_status status) (\<lambda>_. finish headers content)
          | RvHeaders headers content \<Rightarrow> finish headers content
          | RvTuple \<Rightarrow> ends_with_result (raise (HTTPException 500 []))
          | RvContent content \<Rightarrow> then_pipe (set_content content) (\<lambda>_. wrap_pipeline env []))"

text \<open>
  Scripts: loading the file of a path gives its \<open>main\<close> if it has one; a \<open>main\<close> decorated with \<open>handler\<close> sets up the
  response itself and returns nothing. Characters of the path beyond Latin-1
  are shown as question marks in the message.
\<close>

type_synonym scripts = "ustr \<Rightarrow> (handler_env \<Rightarrow> handler_result piped) option res"

definition shown_path :: "ustr \<Rightarrow> string" where
  "shown_path p = map (\<lambda>c. if c < 256 then char_of c else CHR ''?'') p"

definition python_script_handler :: "scripts \<Rightarrow> handler_env \<Rightarrow> ustr option \<Rightarrow> string \<Rightarrow> unit piped" where
  "python_script_handler scripts env base_path url_base =
     then_pipe (of_res (filesystem_path env base_path url_base)) (\<lambda>path.
       not_found_on_os_error (then_pipe (of_res (scripts path)) (\<lambda>main.
         case main of
           Some f \<Rightarrow> and_piped (function_handler env (f env)) (\<lambda>_. wrap_pipeline env path)
         | None \<Rightarrow> ends_with_result (raise (HTTPException 500 (''No main function in script '' @ shown_path path))))))"

definition decorated :: "(handler_env \<Rightarrow> handler_result piped) \<Rightarrow> handler_env \<Rightarrow> handler_result piped" where
  "decorated func env = and_piped (function_handler env (func env)) (\<lambda>_. ends_with_result (give RvNone))"

text \<open>\<open>JsonHandler\<close>: the last element of a tuple, or the value, is given by its JSON text.\<close>

datatype json_result = JsonValue ustr | JsonStatus status_value "(pyval \<times> pyval) list" ustr
  | JsonHeaders "(pyval \<times> pyval) list" ustr | JsonTuple ustr

definition json_handler :: "handler_env \<Rightarrow> json_result writing \<Rightarrow> unit piped" where
  "json_handler env func =
     function_handler env (ends_with_result (and_then func (\<lambda>rv.
       let value = (case rv of JsonValue t \<Rightarrow> t | JsonStatus _ _ t \<Rightarrow> t | JsonHeaders _ t \<Rightarrow> t | JsonTuple t \<Rightarrow> t)
       in and_then (headers_set ''Content-Type'' (PStr ''application/json'')) (\<lambda>_.
          and_then (headers_set ''Content-Length'' (PInt (int (length value)))) (\<lambda>_.
            give (case rv of
                JsonValue t \<Rightarrow> RvContent (CData (DText t))
              | JsonStatus s h t \<Rightarrow> RvStatus s h (CData (DText t))
              | JsonHeaders h t \<Rightarrow> RvHeaders h (CData (DText t))
              | JsonTuple _ \<Rightarrow> RvTuple))))))"

section \<open>Other handlers\<close>

definition as_is_handler :: "handler_env \<Rightarrow> ustr option \<Rightarrow> string \<Rightarrow> unit piped" where
  "as_is_handler env base_path url_base =
     then_pipe (of_res (filesystem_path env base_path url_base)) (\<lambda>path.
       not_found_on_os_error
         (and_piped
            (then_pipe (and_then (of_res (os_read (he_files env) path))
                          (\<lambda>f. write_raw_content (he_server env) (Some (Plain (DBytes f)))))
               (\<lambda>_. wrap_pipeline env path))
            (\<lambda>_. ends_with_result (change (\<lambda>st. st\<lparr>rs_close := True\<rparr>)))))"

definition error_handler :: "handler_env \<Rightarrow> int \<Rightarrow> unit piped" where
  "error_handler env status =
     ends_with_result (set_error (he_suppress env) (cp (req_url (he_request env))) status NoError)"

definition basic_auth_handler :: "handler_env \<Rightarrow> unit piped \<Rightarrow> string option \<Rightarrow> string option \<Rightarrow> unit piped" where
  "basic_auth_handler env handler user password =
     (if \<not> rq_contains (he_headers env) ''authorization''
      then ends_with_result (and_then (set_status (StNum 401)) (\<lambda>_. headers_set ''WWW-Authenticate'' (PStr ''Basic'')))
      else then_pipe (of_res (authentication (he_headers env))) (\<lambda>(username, pw).
        if user \<noteq> None \<and> (user \<noteq> username \<or> password \<noteq> pw)
        then ends_with_result (set_error (he_suppress env) (cp (req_url (he_request env))) 403
               (ErrorText (cp ''Invalid username or password'')))
        else handler))"

definition redirect_handler :: "handler_env \<Rightarrow> string \<Rightarrow> unit piped" where
  "redirect_handler env location =
     function_handler env (ends_with_result (give (RvStatus (StNum 302) [(PStr ''location'', PStr location)] (CData (DText [])))))"

definition header_keyword :: "string \<Rightarrow> string" where
  "header_keyword k = map (\<lambda>c. if c = CHR ''_'' then CHR ''-'' else c) k"

definition string_handler :: "handler_env \<Rightarrow> ustr \<Rightarrow> string \<Rightarrow> (string \<times> string) list \<Rightarrow> unit piped" where
  "string_handler env data content_type headers =
     function_handler env (ends_with_result (give (RvHeaders
       ((PStr ''Content-Type'', PStr content_type) # map (\<lambda>(k, v). (PStr (header_keyword k), PStr v)) headers)
       (CData (DText data)))))"

text \<open>
  \<open>StaticHandler\<close> formats a text file with \<open>%(name)s\<close> and \<open>%%\<close>; other conversions are refused here. In text
  mode the ends of lines are unified.
\<close>

fun text_mode :: "bool \<Rightarrow> ustr \<Rightarrow> ustr" where
  "text_mode cr [] = []"
| "text_mode cr (c # cs) =
     (if c = 10 then (if cr then text_mode False cs else 10 # text_mode False cs)
      else if c = 13 then 10 # text_mode True cs else c # text_mode False cs)"

function percent_format :: "(string \<times> ustr) list \<Rightarrow> ustr \<Rightarrow> ustr res" where
  "percent_format args [] = Inr []"
| "percent_format args (c # cs) =
     (if c \<noteq> 37 then rbind (percent_format args cs) (\<lambda>r. Inr (c # r))
      else (case cs of
          [] \<Rightarrow> Inl ValueError
        | d # ds \<Rightarrow>
            if d = 37 then rbind (percent_format args ds) (\<lambda>r. Inr (37 # r))
            else if d = 40
            then let k = takeWhile (\<lambda>c. c \<noteq> 41) ds; rest = drop (length k) ds
                 in if \<not> starts_with (cp '')s'') rest then Inl ValueError
                    else rbind (of_option KeyError (map_of (map (\<lambda>(k, v). (cp k, v)) args) k)) (\<lambda>v.
                         rbind (percent_format args (drop 2 rest)) (\<lambda>r. Inr (v @ r)))
            else Inl ValueError))"
  by pat_completeness auto

termination percent_format
  by (relation "measure (length \<circ> snd)") auto

definition static_handler ::
  "handler_env \<Rightarrow> ustr \<Rightarrow> (string \<times> string) list \<Rightarrow> string \<Rightarrow> (string \<times> string) list \<Rightarrow> unit piped" where
  "static_handler env path format_args content_type headers =
     then_pipe (of_res
         (rbind (os_read (he_files env) path) (\<lambda>b.
          rbind (utf8_decode b) (\<lambda>t.
            let data = text_mode False t
            in if format_args \<noteq> [] then percent_format (map (\<lambda>(k, v). (k, cp v)) format_args) data else Inr data))))
       (\<lambda>data. string_handler env data content_type headers)"

end
