(* ===== verification/Router.thy ===== *)
theory Router
  imports Py_Dict
begin

text \<open>
  Routing (\<open>tools/wptserve/wptserve/router.py\<close>): the tokenizer of route patterns, their compilation, matching
  of request paths, and the choice of the handler. A compiled route is its list of tokens; matching follows
  the backtracking order of Python's \<open>re\<close>, in which \<open>$\<close> also matches before a final newline.
\<close>

datatype token = RSlash | RLiteral string | RGroup string | RStar

section \<open>Tokens\<close>

definition newline :: char where
  "newline = CHR 0x0A"

definition latin1_letter :: "char \<Rightarrow> bool" where
  "latin1_letter c \<longleftrightarrow> (let n = of_char c :: nat in n \<in> {170, 181, 186} \<or> 192 \<le> n \<and> n \<noteq> 215 \<and> n \<noteq> 247)"

text \<open>\<open>\w\<close> on Latin-1 text: also superscript digits and fractions.\<close>

definition word_char :: "char \<Rightarrow> bool" where
  "word_char c \<longleftrightarrow> is_upper c \<or> is_lower c \<or> is_digit c \<or> c = CHR ''_'' \<or> latin1_letter c
     \<or> (of_char c :: nat) \<in> {178, 179, 185, 188, 189, 190}"

text \<open>The length of a match of \<open>(?:\\.|[^{\*/])*\<close>.\<close>

fun literal_length :: "string \<Rightarrow> nat" where
  "literal_length (c # d # s) =
     (if c = CHR 0x5C \<and> d \<noteq> newline then 2 + literal_length s
      else if c \<in> set ''{*/'' then 0 else 1 + literal_length (d # s))"
| "literal_length [c] = (if c \<in> set ''{*/'' then 0 else 1)"
| "literal_length [] = 0"

text \<open>One token at the start of the input, and the number of characters it takes.\<close>

definition next_token :: "string \<Rightarrow> (token \<times> nat) option" where
  "next_token s =
     (if starts_with ''/'' s then Some (RSlash, 1)
      else let w = takeWhile word_char (drop 1 s)
           in if starts_with ''{'' s \<and> starts_with ''}'' (drop (1 + length w) s) then Some (RGroup w, 2 + length w)
              else if starts_with ''*'' s then Some (RStar, 1)
              else let n = literal_length s in if n = 0 then None else Some (RLiteral (take n s), n))"

function scan :: "string \<Rightarrow> token list \<times> string" where
  "scan s =
     (case next_token s of
        None \<Rightarrow> ([], s)
      | Some (t, n) \<Rightarrow> if n = 0 \<or> s = [] then ([], s) else (case scan (drop n s) of (ts, rest) \<Rightarrow> (t # ts, rest)))"
  by auto

termination scan
  by (relation "measure length") auto

declare scan.simps [simp del]

section \<open>Compilation\<close>

definition group_identifier :: "string \<Rightarrow> bool" where
  "group_identifier s \<longleftrightarrow> s \<noteq> [] \<and> \<not> is_digit (hd s)
     \<and> list_all (\<lambda>c. is_upper c \<or> is_lower c \<or> is_digit c \<or> c = CHR ''_'' \<or> latin1_letter c) s"

text \<open>
  The checks of \<open>process_group\<close> and \<open>process_star\<close>, then those of \<open>re.compile\<close> on the names of the groups.
\<close>

fun check_star :: "bool \<Rightarrow> token list \<Rightarrow> unit res" where
  "check_star seen [] = Inr ()"
| "check_star seen (RGroup n # ts) = (if seen then Inl ValueError else check_star seen ts)"
| "check_star seen (RStar # ts) = (if seen then Inl ValueError else check_star True ts)"
| "check_star seen (_ # ts) = check_star seen ts"

definition group_names :: "token list \<Rightarrow> string list" where
  "group_names ts = concat (map (\<lambda>t. case t of RGroup n \<Rightarrow> [n] | _ \<Rightarrow> []) ts)"

definition compile :: "token list \<Rightarrow> token list res" where
  "compile tokens =
     (let ts = (if tokens = [] \<or> hd tokens \<noteq> RSlash then RSlash # tokens else tokens)
      in rbind (check_star False ts) (\<lambda>_.
           if list_all group_identifier (group_names ts) \<and> distinct (group_names ts) then Inr ts
           else Inl (GenericException ''re.error'')))"

definition compile_path_match :: "string \<Rightarrow> token list res" where
  "compile_path_match route_pattern =
     (case scan route_pattern of (tokens, unmatched) \<Rightarrow>
        if unmatched \<noteq> [] then Inl AssertionError else compile tokens)"

section \<open>Matching\<close>

text \<open>The values of the named groups, the text from the star on, and what \<open>$\<close> leaves of the path.\<close>

type_synonym bindings = "(string \<times> string) list \<times> string option \<times> string"

fun first_some :: "'a option list \<Rightarrow> 'a option" where
  "first_some [] = None"
| "first_some (Some x # _) = Some x"
| "first_some (None # xs) = first_some xs"

definition longest_first :: "nat \<Rightarrow> nat \<Rightarrow> nat list" where
  "longest_first lo hi = rev [lo..<Suc hi]"

fun match_tokens :: "token list \<Rightarrow> string \<Rightarrow> bindings option" where
  "match_tokens [] s = (if s = [] \<or> s = [newline] then Some ([], None, s) else None)"
| "match_tokens (RSlash # ts) s = (if starts_with ''/'' s then match_tokens ts (drop 1 s) else None)"
| "match_tokens (RLiteral l # ts) s = (if starts_with l s then match_tokens ts (drop (length l) s) else None)"
| "match_tokens (RGroup n # ts) s =
     first_some (map (\<lambda>k. map_option (\<lambda>(b, star, rest). ((n, take k s) # b, star, rest)) (match_tokens ts (drop k s)))
       (longest_first 1 (length (takeWhile (\<lambda>c. c \<noteq> CHR ''/'') s))))"
| "match_tokens (RStar # ts) s =
     first_some (map (\<lambda>k. map_option (\<lambda>(b, _, rest). (b, Some (take (length s - length rest) s), rest))
                        (match_tokens ts (drop k s)))
       (longest_first 0 (length (takeWhile (\<lambda>c. c \<noteq> newline) s))))"

text \<open>\<open>route_match\<close>: the named groups and, for a star, the last group under \<open>*\<close>.\<close>

definition route_match :: "token list \<Rightarrow> string \<Rightarrow> (string, string) odict option" where
  "route_match ts path =
     map_option (\<lambda>(b, star, _). case star of None \<Rightarrow> b | Some v \<Rightarrow> od_set ''*'' v b) (match_tokens ts path)"

section \<open>The router\<close>

datatype route_method = AnyMethod | Method string

datatype route_methods = One route_method | Many "route_method list"

type_synonym 'h routes = "(route_method \<times> token list \<times> 'h) list"

text \<open>
  \<open>register\<close> compiles the pattern once per method and appends; an exception leaves the routes of the
  earlier methods, none since the pattern is the same.
\<close>

definition register :: "route_methods \<Rightarrow> string \<Rightarrow> 'h \<Rightarrow> 'h routes \<Rightarrow> 'h routes res" where
  "register methods path handler routes =
     (let ms = (case methods of One m \<Rightarrow> [m] | Many ms \<Rightarrow> ms)
      in rbind (rmap (\<lambda>m. rbind (compile_path_match path) (\<lambda>ts. Inr (m, ts, handler))) ms)
           (\<lambda>new. Inr (routes @ new)))"

fun register_all :: "(route_methods \<times> string \<times> 'h) list \<Rightarrow> 'h routes \<Rightarrow> 'h routes res" where
  "register_all [] routes = Inr routes"
| "register_all ((methods, path, handler) # rs) routes =
     rbind (register methods path handler routes) (register_all rs)"

definition new_router :: "(route_methods \<times> string \<times> 'h) list \<Rightarrow> 'h routes res" where
  "new_router routes = register_all (rev routes) []"

definition admits :: "route_method \<Rightarrow> string \<Rightarrow> bool" where
  "admits m req_method \<longleftrightarrow>
     (case m of AnyMethod \<Rightarrow> True
      | Method s \<Rightarrow> req_method = s \<or> s = ''*'' \<or> req_method = ''HEAD'' \<and> s = ''GET'')"

fun find_handler :: "'h routes \<Rightarrow> string \<Rightarrow> string \<Rightarrow> ('h \<times> (string, string) odict) option" where
  "find_handler [] req_method path = None"
| "find_handler ((m, ts, h) # rs) req_method path =
     (if admits m req_method
      then (case route_match ts path of Some rm \<Rightarrow> Some (h, rm) | None \<Rightarrow> find_handler rs req_method path)
      else find_handler rs req_method path)"

definition get_handler :: "'h routes \<Rightarrow> string \<Rightarrow> string \<Rightarrow> ('h \<times> (string, string) odict) option" where
  "get_handler routes = find_handler (rev routes)"

section \<open>What a route matches\<close>

text \<open>
  The reference: a path is an instance of a route if filling each group with a non-empty text without
  slash, and the star with a text without newline, gives the path up to a final newline.
\<close>

inductive instance_of :: "token list \<Rightarrow> string \<Rightarrow> bool" where
  "s = [] \<or> s = [newline] \<Longrightarrow> instance_of [] s"
| "instance_of ts s \<Longrightarrow> instance_of (RSlash # ts) (CHR ''/'' # s)"
| "instance_of ts s \<Longrightarrow> instance_of (RLiteral l # ts) (l @ s)"
| "v \<noteq> [] \<Longrightarrow> CHR ''/'' \<notin> set v \<Longrightarrow> instance_of ts s \<Longrightarrow> instance_of (RGroup n # ts) (v @ s)"
| "newline \<notin> set v \<Longrightarrow> instance_of ts s \<Longrightarrow> instance_of (RStar # ts) (v @ s)"

inductive_cases instance_of_NilE: "instance_of [] s"
inductive_cases instance_of_SlashE: "instance_of (RSlash # ts) s"
inductive_cases instance_of_LiteralE: "instance_of (RLiteral l # ts) s"
inductive_cases instance_of_GroupE: "instance_of (RGroup n # ts) s"
inductive_cases instance_of_StarE: "instance_of (RStar # ts) s"

lemma first_some_None: "first_some xs = None \<longleftrightarrow> (\<forall>x \<in> set xs. x = None)"
  by (induction xs rule: first_some.induct) auto

lemma first_some_in: "first_some xs = Some y \<Longrightarrow> Some y \<in> set xs"
  by (induction xs rule: first_some.induct) auto

lemma set_longest_first: "set (longest_first lo hi) = {lo..hi}"
  by (auto simp: longest_first_def)

lemma takeWhile_prefix: "\<forall>c \<in> set v. P c \<Longrightarrow> length v \<le> length (takeWhile P (v @ s))"
  by (simp add: takeWhile_append2)

lemma take_takeWhile: "k \<le> length (takeWhile P s) \<Longrightarrow> c \<in> set (take k s) \<Longrightarrow> P c"
proof -
  assume k: "k \<le> length (takeWhile P s)" and c: "c \<in> set (take k s)"
  have "take k s = take k (takeWhile P s)"
    using take_append [of k "takeWhile P s" "dropWhile P s"] k by simp
  then have "c \<in> set (take k (takeWhile P s))" using c by metis
  then have "c \<in> set (takeWhile P s)" by (rule in_set_takeD)
  then show "P c" by (blast dest: set_takeWhileD)
qed

lemma instance_of_match: "instance_of ts s \<Longrightarrow> match_tokens ts s \<noteq> None"
proof (induction rule: instance_of.induct)
  case (4 v ts s n)
  have "length v \<le> length (takeWhile (\<lambda>c. c \<noteq> CHR ''/'') (v @ s))" using 4(2) by (intro takeWhile_prefix) auto
  moreover have "1 \<le> length v" using 4(1) by (cases v) auto
  ultimately show ?case using 4(4)
    by (auto simp: first_some_None set_longest_first intro!: bexI [of _ "length v"])
next
  case (5 v ts s)
  have "length v \<le> length (takeWhile (\<lambda>c. c \<noteq> newline) (v @ s))" using 5(1) by (intro takeWhile_prefix) auto
  then show ?case using 5(3)
    by (auto simp: first_some_None set_longest_first intro!: bexI [of _ "length v"])
qed (auto simp: starts_with_def)

text \<open>Putting the values of the groups back into the pattern.\<close>

fun fill :: "token list \<Rightarrow> string list \<Rightarrow> string option \<Rightarrow> string" where
  "fill (RSlash # ts) vs star = CHR ''/'' # fill ts vs star"
| "fill (RLiteral l # ts) vs star = l @ fill ts vs star"
| "fill (RGroup n # ts) (v # vs) star = v @ fill ts vs star"
| "fill (RStar # ts) vs (Some v) = v"
| "fill _ _ _ = []"

lemma match_sound:
  "match_tokens ts s = Some (b, star, rest) \<Longrightarrow>
     instance_of ts s \<and> map fst b = group_names ts \<and> (\<forall>(n, v) \<in> set b. v \<noteq> [] \<and> CHR ''/'' \<notin> set v)
     \<and> (star \<noteq> None \<longleftrightarrow> RStar \<in> set ts) \<and> rest \<in> {[], [newline]} \<and> (\<exists>t. s = t @ rest)
     \<and> (check_star False ts = Inr () \<longrightarrow> s = fill ts (map snd b) star @ rest)"
proof (induction ts arbitrary: s b star rest)
  case (Cons t ts)
  show ?case
  proof (cases t)
    case RSlash
    then have "match_tokens ts (drop 1 s) = Some (b, star, rest)" "s = CHR ''/'' # drop 1 s"
      using Cons.prems by (auto simp: starts_with_iff split: if_splits)
    then show ?thesis using Cons.IH [of "drop 1 s"] RSlash
      by (auto simp: group_names_def intro: instance_of.intros)
  next
    case (RLiteral l)
    then have "match_tokens ts (drop (length l) s) = Some (b, star, rest)" "s = l @ drop (length l) s"
      using Cons.prems by (auto simp: starts_with_iff split: if_splits)
    then show ?thesis using Cons.IH [of "drop (length l) s"] RLiteral
      by (auto simp: group_names_def intro: instance_of.intros)
  next
    case (RGroup n)
    let ?P = "\<lambda>c. c \<noteq> CHR ''/''"
    obtain k b' where k: "1 \<le> k" "k \<le> length (takeWhile ?P s)" "b = (n, take k s) # b'"
      and m: "match_tokens ts (drop k s) = Some (b', star, rest)"
      using Cons.prems RGroup by (auto simp: set_longest_first eq_commute [of "Some _" "map_option _ _"] dest!: first_some_in)
    have "CHR ''/'' \<notin> set (take k s)" using take_takeWhile [OF k(2)] by blast
    moreover have "take k s \<noteq> []" using k(1,2) by (auto dest: le_trans [OF _ length_takeWhile_le])
    ultimately show ?thesis using Cons.IH [OF m] RGroup k(3) instance_of.intros(4) [of "take k s" ts "drop k s" n]
      by (auto simp: group_names_def) (metis append_assoc append_take_drop_id)+
  next
    case RStar
    let ?P = "\<lambda>c. c \<noteq> newline"
    obtain k star' where k: "k \<le> length (takeWhile ?P s)" "star = Some (take (length s - length rest) s)"
      and m: "match_tokens ts (drop k s) = Some (b, star', rest)"
      using Cons.prems RStar by (auto simp: set_longest_first eq_commute [of "Some _" "map_option _ _"] dest!: first_some_in)
    have "newline \<notin> set (take k s)" using take_takeWhile [OF k(1)] by blast
    moreover obtain u where "drop k s = u @ rest" using Cons.IH [OF m] by blast
    then have "s = (take k s @ u) @ rest" by (metis append_assoc append_take_drop_id)
    then have "s = take (length s - length rest) s @ rest"
      by (metis add_diff_cancel_right' append_eq_conv_conj length_append)
    ultimately show ?thesis using Cons.IH [OF m] RStar k(2) instance_of.intros(5) [of "take k s" ts "drop k s"]
      by (auto simp: group_names_def)
  qed
qed (auto simp: group_names_def intro: instance_of.intros split: if_splits)

lemma compiled_star:
  assumes "compile_path_match pattern = Inr ts" shows "check_star False ts = Inr ()"
  using assms by (auto simp: compile_path_match_def compile_def Let_def rbind_eq_Inr split: prod.splits if_splits)

text \<open>
  C26: a compiled route matches exactly the instances of its pattern, and filling the pattern with the values
  it binds gives the path back, up to a final newline that \<open>$\<close> ignores. Every group is bound, once, to a
  non-empty value without slash.
\<close>

theorem route_matches_instances:
  assumes "compile_path_match pattern = Inr ts"
  shows "case match_tokens ts path of
      None \<Rightarrow> \<not> instance_of ts path
    | Some (b, star, rest) \<Rightarrow> instance_of ts path \<and> path = fill ts (map snd b) star @ rest \<and> rest \<in> {[], [newline]}
        \<and> map fst b = group_names ts \<and> distinct (map fst b) \<and> list_all (\<lambda>(_, v). v \<noteq> [] \<and> CHR ''/'' \<notin> set v) b"
proof (cases "match_tokens ts path")
  case None
  then show ?thesis using instance_of_match [of ts path] by auto
next
  case (Some r)
  obtain b star rest where r: "r = (b, star, rest)" by (cases r)
  have "distinct (group_names ts)"
    using assms by (auto simp: compile_path_match_def compile_def Let_def rbind_eq_Inr split: prod.splits if_splits)
  then show ?thesis
    using match_sound [OF Some [unfolded r]] compiled_star [OF assms] Some by (auto simp: r list_all_iff)
qed

theorem route_matches_instances_witness:
  "compile_path_match ''api/{x}/*.js'' = Inr [RSlash, RLiteral ''api'', RSlash, RGroup ''x'', RSlash, RStar, RLiteral ''.js'']
   \<and> match_tokens [RSlash, RLiteral ''api'', RSlash, RGroup ''x'', RSlash, RStar, RLiteral ''.js''] ''/api/a/b/c.js''
     = Some ([(''x'', ''a'')], Some ''b/c.js'', [])
   \<and> instance_of [RSlash, RLiteral ''api'', RSlash, RGroup ''x'', RSlash, RStar, RLiteral ''.js''] ''/api/a/b/c.js''"
proof -
  have c: "compile_path_match ''api/{x}/*.js'' = Inr [RSlash, RLiteral ''api'', RSlash, RGroup ''x'', RSlash, RStar, RLiteral ''.js'']"
    by code_simp
  have m: "match_tokens [RSlash, RLiteral ''api'', RSlash, RGroup ''x'', RSlash, RStar, RLiteral ''.js''] ''/api/a/b/c.js''
     = Some ([(''x'', ''a'')], Some ''b/c.js'', [])"
    by code_simp
  show ?thesis using route_matches_instances [OF c, of "''/api/a/b/c.js''"] c m by simp
qed

section \<open>Which handler answers\<close>

lemma find_handler_append:
  "find_handler (a @ b) m p = (case find_handler a m p of None \<Rightarrow> find_handler b m p | r \<Rightarrow> r)"
  by (induction a m p rule: find_handler.induct) (auto split: option.splits)

lemma register_all_append: "register_all (a @ b) routes = rbind (register_all a routes) (register_all b)"
proof (induction a arbitrary: routes)
  case (Cons r a)
  obtain ms p h where "r = (ms, p, h)" by (cases r)
  then show ?case using Cons by (cases "register ms p h routes") auto
qed simp

text \<open>The answer of one route of the configuration.\<close>

definition methods_of :: "route_methods \<Rightarrow> route_method list" where
  "methods_of ms = (case ms of One m \<Rightarrow> [m] | Many l \<Rightarrow> l)"

definition answer :: "string \<Rightarrow> string \<Rightarrow> route_methods \<times> string \<times> 'h \<Rightarrow> ('h \<times> (string, string) odict) option" where
  "answer req_method path = (\<lambda>(ms, pattern, h).
     if list_ex (\<lambda>m. admits m req_method) (methods_of ms)
     then (case compile_path_match pattern of
             Inr ts \<Rightarrow> map_option (\<lambda>rm. (h, rm)) (route_match ts path) | Inl _ \<Rightarrow> None)
     else None)"

lemma register_Inr:
  assumes "register ms pattern h routes = Inr routes'"
  shows "get_handler routes' m p = (case answer m p (ms, pattern, h) of None \<Rightarrow> get_handler routes m p | r \<Rightarrow> r)"
proof -
  obtain new where new: "rmap (\<lambda>m. rbind (compile_path_match pattern) (\<lambda>ts. Inr (m, ts, h))) (methods_of ms) = Inr new"
    "routes' = routes @ new"
    using assms by (auto simp: register_def methods_of_def Let_def rbind_eq_Inr)
  have "find_handler (rev new) m p = answer m p (ms, pattern, h)"
  proof (cases "compile_path_match pattern")
    case (Inl e)
    then have "methods_of ms = []" using new(1) by (cases "methods_of ms") auto
    then show ?thesis using new(1) by (auto simp: answer_def)
  next
    case (Inr ts)
    then have "rmap (\<lambda>m. rbind (compile_path_match pattern) (\<lambda>ts. Inr (m, ts, h))) (methods_of ms)
        = Inr (map (\<lambda>m. (m, ts, h)) (methods_of ms))" by (intro rmap_all_Inr) simp
    then have n: "new = map (\<lambda>m. (m, ts, h)) (methods_of ms)" using new(1) by simp
    have "find_handler (map (\<lambda>m. (m, ts, h)) l) m p =
        (if list_ex (\<lambda>m'. admits m' m) l then map_option (\<lambda>rm. (h, rm)) (route_match ts p) else None)" for l
      by (induction l) (auto split: option.splits)
    from this [of "rev (methods_of ms)"] show ?thesis
      by (simp add: n rev_map answer_def Inr list_ex_iff)
  qed
  then show ?thesis by (simp add: get_handler_def new(2) find_handler_append split: option.split)
qed

text \<open>
  a router answers a request with the first route of its list that admits the method and matches the
  path, where a GET route also admits HEAD; a route registered later comes before all others.
\<close>

theorem first_route_answers:
  assumes "new_router rs = Inr routes" and "register ms pattern h routes = Inr routes'"
  shows "get_handler routes m p = first_some (map (answer m p) rs)
    \<and> get_handler routes' m p = first_some (map (answer m p) ((ms, pattern, h) # rs))"
proof -
  have "get_handler routes m p = first_some (map (answer m p) rs)"
    using assms(1) unfolding new_router_def
  proof (induction rs arbitrary: routes)
    case Nil
    then show ?case by (simp add: get_handler_def)
  next
    case (Cons r rs)
    obtain ms pattern h where r: "r = (ms, pattern, h)" by (cases r)
    obtain old where old: "register_all (rev rs) [] = Inr old" "register ms pattern h old = Inr routes"
      using Cons.prems by (auto simp: r register_all_append rbind_eq_Inr)
    then show ?case
      using Cons.IH [OF old(1)] register_Inr [OF old(2), of m p] by (auto simp: r split: option.splits)
  qed
  then show ?thesis using register_Inr [OF assms(2), of m p] by (auto split: option.splits)
qed

theorem first_route_answers_witness:
  "\<exists>routes routes'. new_router [(One (Method ''GET''), ''/a'', 1), (One AnyMethod, ''*'', 2 :: nat)] = Inr routes
     \<and> register (One (Method ''POST'')) ''/a'' 3 routes = Inr routes'
     \<and> get_handler routes ''HEAD'' ''/a'' = Some (1, []) \<and> get_handler routes' ''POST'' ''/a'' = Some (3, [])"
proof -
  let ?rs = "[(One (Method ''GET''), ''/a'', 1), (One AnyMethod, ''*'', 2 :: nat)]"
  let ?r0 = "[(AnyMethod, [RSlash, RStar], 2), (Method ''GET'', [RSlash, RLiteral ''a''], 1 :: nat)]"
  have "new_router ?rs = Inr ?r0" by code_simp
  moreover have "register (One (Method ''POST'')) ''/a'' 3 ?r0 = Inr (?r0 @ [(Method ''POST'', [RSlash, RLiteral ''a''], 3)])"
    by code_simp
  moreover have "first_some (map (answer ''HEAD'' ''/a'') ?rs) = Some (1, [])"
    "first_some (map (answer ''POST'' ''/a'') ((One (Method ''POST''), ''/a'', 3) # ?rs)) = Some (3, [])"
    by code_simp+
  ultimately show ?thesis
    using first_route_answers [of ?rs ?r0 "One (Method ''POST'')" "''/a''" 3] by metis
qed

end
