(* ===== verification/Routes.thy ===== *)
theory Routes
  imports Router Config
begin

text \<open>
  The routes of the launcher (\<open>RoutesBuilder\<close> and \<open>get_route_builder\<close> of \<open>tools/serve/serve.py\<close>): the
  forbidden paths, the handlers of every mount point, aliases, and the order in which the router tries them.
\<close>

section \<open>Handlers\<close>

text \<open>The classes whose instances get a base path and a URL base.\<close>

datatype handler_class =
    Workers_Handler | Worker_Modules_Handler | Window_Handler | Any_Html_Handler | Shared_Workers_Handler
  | Shared_Worker_Modules_Handler | Service_Workers_Handler | Service_Worker_Modules_Handler
  | Shadow_Realm_Handler | Classic_Worker_Handler | Module_Worker_Handler
  | As_Is_Handler | Python_Script_Handler | File_Handler | Redirect_Handler

datatype handler =
    Made handler_class "string option" string
  | Error_Handler int
  | Static_Handler string "(string \<times> string) list" string "(string \<times> string) list"
  | Given_Handler nat
  | Script_Injector string handler

type_synonym route = "string \<times> string \<times> handler"

section \<open>The builder\<close>

record routes_builder =
  rb_inject :: "string option"
  rb_extra :: "route list"
  rb_mounts :: "(string, route list) odict"

definition forbidden_override :: "route list" where
  "forbidden_override =
     [(''GET'', ''/tools/runner/*'', Made File_Handler None ''/''),
      (''POST'', ''/tools/runner/update_manifest.py'', Made Python_Script_Handler None ''/'')]"

definition forbidden :: "route list" where
  "forbidden =
     [(''*'', ''/_certs/*'', Error_Handler 404), (''*'', ''/tools/*'', Error_Handler 404),
      (''*'', ''{spec}/tools/*'', Error_Handler 404), (''*'', ''/results/'', Error_Handler 404)]"

definition mount_routes :: "(string \<times> string \<times> handler_class) list" where
  "mount_routes =
     [(''GET'', ''*.worker.html'', Workers_Handler),
      (''GET'', ''*.worker-module.html'', Worker_Modules_Handler),
      (''GET'', ''*.window.html'', Window_Handler),
      (''GET'', ''*.any.html'', Any_Html_Handler),
      (''GET'', ''*.any.sharedworker.html'', Shared_Workers_Handler),
      (''GET'', ''*.any.sharedworker-module.html'', Shared_Worker_Modules_Handler),
      (''GET'', ''*.any.serviceworker.html'', Service_Workers_Handler),
      (''GET'', ''*.any.serviceworker-module.html'', Service_Worker_Modules_Handler),
      (''GET'', ''*.any.shadowrealm.html'', Shadow_Realm_Handler),
      (''GET'', ''*.any.worker.js'', Classic_Worker_Handler),
      (''GET'', ''*.any.worker-module.js'', Module_Worker_Handler),
      (''GET'', ''*.asis'', As_Is_Handler),
      (''*'', ''/.well-known/attribution-reporting/report-event-attribution'', Python_Script_Handler),
      (''*'', ''/.well-known/attribution-reporting/debug/report-event-attribution'', Python_Script_Handler),
      (''*'', ''/.well-known/attribution-reporting/report-aggregate-attribution'', Python_Script_Handler),
      (''*'', ''/.well-known/attribution-reporting/debug/report-aggregate-attribution'', Python_Script_Handler),
      (''*'', ''/.well-known/attribution-reporting/debug/verbose'', Python_Script_Handler),
      (''*'', ''/.well-known/private-aggregation/*'', Python_Script_Handler),
      (''*'', ''/.well-known/web-identity'', Python_Script_Handler),
      (''*'', ''_hp/*.py'', Python_Script_Handler),
      (''GET'', ''_hp/*'', File_Handler),
      (''OPTIONS'', ''*.asis'', As_Is_Handler),
      (''*'', ''/'', Redirect_Handler)]"

definition slash :: "char \<Rightarrow> bool" where
  "slash c \<longleftrightarrow> c = CHR ''/''"

definition add_mount_point :: "string \<Rightarrow> string option \<Rightarrow> routes_builder \<Rightarrow> routes_builder" where
  "add_mount_point url_base path rb =
     (let url_base = (if url_base \<noteq> ''/'' then ''/'' @ strip_by slash url_base @ ''/'' else ''/'');
          routes = map (\<lambda>(m, suffix, cls).
            let h = Made cls path url_base;
                h = (case rb_inject rb of None \<Rightarrow> h | Some script \<Rightarrow> Script_Injector script h)
            in (m, (if url_base \<noteq> ''/'' then url_base else []) @ suffix, h)) mount_routes
      in rb\<lparr>rb_mounts := od_set url_base routes (rb_mounts rb)\<rparr>)"

text \<open>\<open>__init__\<close>, with the content of the script to inject.\<close>

definition new_routes_builder :: "string option \<Rightarrow> routes_builder" where
  "new_routes_builder inject = add_mount_point ''/'' None \<lparr>rb_inject = inject, rb_extra = [], rb_mounts = []\<rparr>"

definition get_routes :: "routes_builder \<Rightarrow> route list" where
  "get_routes rb = forbidden_override @ forbidden @ rb_extra rb @ concat (rev (map snd (rb_mounts rb)))"

definition add_handler :: "string \<Rightarrow> string \<Rightarrow> handler \<Rightarrow> routes_builder \<Rightarrow> routes_builder" where
  "add_handler m pattern h rb = rb\<lparr>rb_extra := rb_extra rb @ [(m, pattern, h)]\<rparr>"

definition add_static ::
  "string \<Rightarrow> (string \<times> string) list \<Rightarrow> string \<Rightarrow> string \<Rightarrow> (string \<times> string) list option \<Rightarrow> routes_builder \<Rightarrow> routes_builder" where
  "add_static path format_args content_type pattern headers =
     add_handler ''GET'' pattern (Static_Handler path format_args content_type (case headers of None \<Rightarrow> [] | Some h \<Rightarrow> h))"

text \<open>\<open>s[0:s.rfind("/") + 1]\<close>\<close>

definition up_to_last_slash :: "string \<Rightarrow> string" where
  "up_to_last_slash s = rev (dropWhile (\<lambda>c. c \<noteq> CHR ''/'') (rev s))"

definition add_file_mount_point :: "string \<Rightarrow> string \<Rightarrow> routes_builder \<Rightarrow> routes_builder res" where
  "add_file_mount_point file_url base_path rb =
     (if \<not> starts_with ''/'' file_url then Inl AssertionError
      else Inr (rb\<lparr>rb_mounts := od_set file_url
             [(''GET'', file_url, Made File_Handler (Some base_path) (up_to_last_slash file_url))] (rb_mounts rb)\<rparr>))"

text \<open>The aliases of the configuration: a URL path and a local directory each.\<close>

fun add_aliases :: "(string \<times> string) list \<Rightarrow> routes_builder \<Rightarrow> routes_builder res" where
  "add_aliases [] rb = Inr rb"
| "add_aliases ((url, directory) # aliases) rb =
     (if \<not> starts_with ''/'' url \<or> directory = [] then add_aliases aliases rb
      else if ends_with ''/'' url then add_aliases aliases (add_mount_point url (Some directory) rb)
      else rbind (add_file_mount_point url directory rb) (add_aliases aliases))"

definition get_route_builder :: "(string \<times> string) list \<Rightarrow> string option \<Rightarrow> routes_builder res" where
  "get_route_builder aliases inject = add_aliases aliases (new_routes_builder inject)"

text \<open>The router the server makes of the routes.\<close>

definition router_of :: "routes_builder \<Rightarrow> handler routes res" where
  "router_of rb = new_router (map (\<lambda>(m, pattern, h). (One (Method m), pattern, h)) (get_routes rb))"

section \<open>Answers\<close>

inductive_simps instance_simps:
  "instance_of [] s" "instance_of (RSlash # ts) s" "instance_of (RLiteral l # ts) s" "instance_of (RGroup n # ts) s"
  "instance_of (RStar # ts) s"

definition route_answer :: "string \<Rightarrow> string \<Rightarrow> route \<Rightarrow> (handler \<times> (string, string) odict) option" where
  "route_answer m p = (\<lambda>(k, pattern, h). answer m p (One (Method k), pattern, h))"

lemma route_answer_iff:
  assumes "compile_path_match pattern = Inr ts"
  shows "route_answer m p (k, pattern, h) \<noteq> None \<longleftrightarrow> admits (Method k) m \<and> instance_of ts p"
proof -
  have "match_tokens ts p \<noteq> None \<longleftrightarrow> instance_of ts p"
    using route_matches_instances [OF assms, of p] by (auto split: option.splits prod.splits)
  then show ?thesis by (auto simp: route_answer_def answer_def methods_of_def assms route_match_def)
qed

lemma route_answer_handler: "route_answer m p (k, pattern, h) = Some (h', b) \<Longrightarrow> h' = h"
  by (auto simp: route_answer_def answer_def split: if_splits sum.splits)

lemma get_handler_routes:
  assumes "router_of rb = Inr routes"
  shows "get_handler routes m p = first_some (map (route_answer m p) (get_routes rb))"
proof -
  have "register (Many []) [] (Error_Handler 404) routes = Inr routes" by (simp add: register_def)
  from first_route_answers [OF assms [unfolded router_of_def] this, of m p] show ?thesis
    by (simp add: route_answer_def comp_def split_def)
qed

lemma first_some_Cons: "first_some (x # xs) = (case x of None \<Rightarrow> first_some xs | Some y \<Rightarrow> Some y)"
  by (cases x) simp_all

lemma first_answer_Cons:
  assumes "compile_path_match pattern = Inr ts"
  shows "\<exists>b. first_some (map (route_answer m p) ((k, pattern, h) # rs)) =
     (if admits (Method k) m \<and> instance_of ts p then Some (h, b) else first_some (map (route_answer m p) rs))"
  using route_answer_iff [OF assms, of m p k h] route_answer_handler [of m p k pattern h]
  by (cases "route_answer m p (k, pattern, h)") (auto simp: first_some_Cons)

lemma forbidden_patterns:
  "compile_path_match ''/tools/runner/*'' = Inr [RSlash, RLiteral ''tools'', RSlash, RLiteral ''runner'', RSlash, RStar]"
  "compile_path_match ''/tools/runner/update_manifest.py''
     = Inr [RSlash, RLiteral ''tools'', RSlash, RLiteral ''runner'', RSlash, RLiteral ''update_manifest.py'']"
  "compile_path_match ''/_certs/*'' = Inr [RSlash, RLiteral ''_certs'', RSlash, RStar]"
  "compile_path_match ''/tools/*'' = Inr [RSlash, RLiteral ''tools'', RSlash, RStar]"
  by code_simp+

lemma star_rest: "newline \<notin> set s \<Longrightarrow> instance_of [RStar] s"
  using instance_of.intros(5) [of s "[]" "[]" ] by (simp add: instance_of.intros)

lemma forbidden_first:
  assumes "router_of rb = Inr routes"
  shows "\<exists>b. get_handler routes m p =
     (if admits (Method ''GET'') m \<and> instance_of [RSlash, RLiteral ''tools'', RSlash, RLiteral ''runner'', RSlash, RStar] p
      then Some (Made File_Handler None ''/'', b)
      else if admits (Method ''POST'') m
        \<and> instance_of [RSlash, RLiteral ''tools'', RSlash, RLiteral ''runner'', RSlash, RLiteral ''update_manifest.py''] p
      then Some (Made Python_Script_Handler None ''/'', b)
      else if instance_of [RSlash, RLiteral ''_certs'', RSlash, RStar] p \<or> instance_of [RSlash, RLiteral ''tools'', RSlash, RStar] p
      then Some (Error_Handler 404, b)
      else first_some (map (route_answer m p) (drop 2 forbidden @ rb_extra rb @ concat (rev (map snd (rb_mounts rb))))))"
proof -
  have any: "admits (Method ''*'') m" by (simp add: admits_def)
  let ?rest = "drop 2 forbidden @ rb_extra rb @ concat (rev (map snd (rb_mounts rb)))"
  let ?fa = "\<lambda>rs. first_some (map (route_answer m p) rs)"
  let ?c = "(''*'', ''/_certs/*'', Error_Handler 404)" and ?t = "(''*'', ''/tools/*'', Error_Handler 404)"
    and ?u = "(''POST'', ''/tools/runner/update_manifest.py'', Made Python_Script_Handler None ''/'')"
    and ?f = "(''GET'', ''/tools/runner/*'', Made File_Handler None ''/'')"
  have "get_routes rb = ?f # ?u # ?c # ?t # ?rest" by (simp add: get_routes_def forbidden_def forbidden_override_def)
  then have "get_handler routes m p = ?fa (?f # ?u # ?c # ?t # ?rest)" using get_handler_routes [OF assms, of m p] by (simp only:)
  moreover obtain b1 where "?fa (?f # ?u # ?c # ?t # ?rest) =
      (if admits (Method ''GET'') m \<and> instance_of [RSlash, RLiteral ''tools'', RSlash, RLiteral ''runner'', RSlash, RStar] p
       then Some (Made File_Handler None ''/'', b1) else ?fa (?u # ?c # ?t # ?rest))"
    using first_answer_Cons [OF forbidden_patterns(1)] by blast
  moreover obtain b2 where "?fa (?u # ?c # ?t # ?rest) =
      (if admits (Method ''POST'') m
        \<and> instance_of [RSlash, RLiteral ''tools'', RSlash, RLiteral ''runner'', RSlash, RLiteral ''update_manifest.py''] p
       then Some (Made Python_Script_Handler None ''/'', b2) else ?fa (?c # ?t # ?rest))"
    using first_answer_Cons [OF forbidden_patterns(2)] by blast
  moreover obtain b3 where "?fa (?c # ?t # ?rest) =
      (if admits (Method ''*'') m \<and> instance_of [RSlash, RLiteral ''_certs'', RSlash, RStar] p
       then Some (Error_Handler 404, b3) else ?fa (?t # ?rest))"
    using first_answer_Cons [OF forbidden_patterns(3)] by blast
  moreover obtain b4 where "?fa (?t # ?rest) =
      (if admits (Method ''*'') m \<and> instance_of [RSlash, RLiteral ''tools'', RSlash, RStar] p
       then Some (Error_Handler 404, b4) else ?fa ?rest)"
    using first_answer_Cons [OF forbidden_patterns(4)] by blast
  ultimately show ?thesis using any by (simp only: simp_thms) (auto simp del: list.map)
qed



lemma default_router: "isl (router_of (new_routes_builder None)) = False"
  by code_simp


section \<open>Which files can be reached\<close>

text \<open>The handler below the wrappers that inject a script.\<close>

fun innermost :: "handler \<Rightarrow> handler" where
  "innermost (Script_Injector _ h) = innermost h"
| "innermost h = h"

lemma file_patterns: "compile_path_match ''_hp/*'' = Inr [RSlash, RLiteral ''_hp'', RSlash, RStar]"
  by code_simp

lemma first_some_map: "first_some (map f xs) = Some y \<Longrightarrow> \<exists>x \<in> set xs. f x = Some y"
  using first_some_in by fastforce

definition injecting :: "string option \<Rightarrow> handler \<Rightarrow> handler" where
  "injecting inject h = (case inject of None \<Rightarrow> h | Some script \<Rightarrow> Script_Injector script h)"

lemma innermost_injecting [simp]: "innermost (injecting inject (Made c b u)) = Made c b u"
  by (simp add: injecting_def split: option.split)

lemma default_routes:
  "get_routes (new_routes_builder inject) =
     forbidden_override @ forbidden @ map (\<lambda>(m, suffix, c). (m, suffix, injecting inject (Made c None ''/''))) mount_routes"
  by (simp add: get_routes_def new_routes_builder_def add_mount_point_def injecting_def Let_def split_def)

lemma mount_file_handlers: "list_all (\<lambda>(m, suffix, c). c = File_Handler \<longrightarrow> suffix = ''_hp/*'') mount_routes"
  by (simp add: mount_routes_def)

lemma forbidden_file_handlers:
  "list_all (\<lambda>(_, pattern, h). innermost h = Made File_Handler b u \<longrightarrow> pattern = ''/tools/runner/*'') forbidden_override"
  "list_all (\<lambda>(_, _, h). innermost h \<noteq> Made File_Handler b u) forbidden"
  by (simp_all add: forbidden_override_def forbidden_def)

text \<open>
  without aliases and added routes, files are served below two paths only: whatever the method, a file
  handler answers nothing but paths that start with \<open>/_hp/\<close> or \<open>/tools/runner/\<close>.
\<close>

theorem file_handlers_below_hp:
  assumes "router_of (new_routes_builder inject) = Inr routes"
    and "get_handler routes m p = Some (h, b)" and "innermost h = Made File_Handler base url_base"
  shows "starts_with ''/_hp/'' p \<or> starts_with ''/tools/runner/'' p"
proof -
  obtain k pattern where r: "(k, pattern, h) \<in> set (get_routes (new_routes_builder inject))"
    "route_answer m p (k, pattern, h) = Some (h, b)"
    using first_some_map [OF assms(2) [unfolded get_handler_routes [OF assms(1)]]] route_answer_handler by fast
  have "pattern = ''/tools/runner/*'' \<or> pattern = ''_hp/*''"
  proof -
    consider "(k, pattern, h) \<in> set forbidden_override" | "(k, pattern, h) \<in> set forbidden"
      | suffix c where "(k, suffix, c) \<in> set mount_routes" "pattern = suffix" "h = injecting inject (Made c None ''/'')"
      using r(1) unfolding default_routes by force
    then show ?thesis
    proof cases
      case 1
      then show ?thesis using assms(3) forbidden_file_handlers(1) [of base url_base] by (force simp: list_all_iff)
    next
      case 2
      then show ?thesis using assms(3) forbidden_file_handlers(2) [of base url_base] by (force simp: list_all_iff)
    next
      case 3
      then show ?thesis using assms(3) mount_file_handlers by (force simp: list_all_iff)
    qed
  qed
  then consider "instance_of [RSlash, RLiteral ''tools'', RSlash, RLiteral ''runner'', RSlash, RStar] p"
    | "instance_of [RSlash, RLiteral ''_hp'', RSlash, RStar] p"
    using r(2) route_answer_iff [OF forbidden_patterns(1), of m p k h] route_answer_iff [OF file_patterns, of m p k h] by auto
  then show ?thesis
  proof cases
    case 1
    then obtain s where "p = ''/tools/runner/'' @ s" by (auto simp: instance_simps)
    then show ?thesis by (simp add: starts_with_def)
  next
    case 2
    then obtain s where "p = ''/_hp/'' @ s" by (auto simp: instance_simps)
    then show ?thesis by (simp add: starts_with_def)
  qed
qed

theorem file_handlers_below_hp_witness:
  "\<exists>routes h b. router_of (new_routes_builder None) = Inr routes \<and> get_handler routes ''GET'' ''/_hp/a.html'' = Some (h, b)
     \<and> starts_with ''/_hp/'' ''/_hp/a.html''"
proof -
  obtain routes where r: "router_of (new_routes_builder None) = Inr routes"
    using default_router by (metis isl_def sum.exhaust)
  have "get_handler routes ''GET'' ''/_hp/a.html'' = Some (Made File_Handler None ''/'', [(''*'', ''a.html'')])"
    unfolding get_handler_routes [OF r] by code_simp
  moreover have "innermost (Made File_Handler None ''/'') = Made File_Handler None ''/''" by simp
  ultimately have "starts_with ''/_hp/'' ''/_hp/a.html'' \<or> starts_with ''/tools/runner/'' ''/_hp/a.html''"
    by (rule file_handlers_below_hp [OF r])
  then show ?thesis using r \<open>get_handler routes ''GET'' ''/_hp/a.html'' = _\<close> by (simp add: starts_with_def)
qed

section \<open>The scripts of the study\<close>

text \<open>Patterns that cannot match a path that starts with \<open>/_h\<close> and ends with \<open>y\<close>.\<close>

fun misses :: "token list \<Rightarrow> bool" where
  "misses (RSlash # RLiteral l # ts) \<longleftrightarrow> 2 \<le> length l \<and> take 2 l \<noteq> ''_h''"
| "misses [RSlash, RStar, RLiteral l] \<longleftrightarrow> l \<noteq> [] \<and> last l \<noteq> CHR ''y''"
| "misses _ \<longleftrightarrow> False"

lemma misses_instance: "misses ts \<Longrightarrow> starts_with ''/_h'' p \<Longrightarrow> last p = CHR ''y'' \<Longrightarrow> \<not> instance_of ts p"
proof (induction ts rule: misses.induct)
  case (1 l ts)
  have "take 2 l = ''_h''" if "l @ s = CHR ''_'' # CHR ''h'' # t" for s t
  proof -
    have "take 2 (l @ s) = take 2 l" using 1(1) by simp
    then show ?thesis using that by simp
  qed
  then show ?case using 1 by (auto simp: instance_simps starts_with_iff) metis
next
  case (2 l)
  then show ?case by (auto simp: instance_simps newline_def)
qed auto

lemma route_misses:
  assumes "compile_path_match pattern = Inr ts" "misses ts" "starts_with ''/_h'' p" "last p = CHR ''y''"
  shows "route_answer m p (k, pattern, h) = None"
  using route_answer_iff [OF assms(1), of m p k h] misses_instance [OF assms(2-4)] by blast

definition pattern_misses :: "string \<Rightarrow> bool" where
  "pattern_misses pattern \<longleftrightarrow> (case compile_path_match pattern of Inr ts \<Rightarrow> misses ts | Inl _ \<Rightarrow> False)"

lemma earlier_patterns_miss:
  "list_all (\<lambda>(_, pattern, _). pattern_misses pattern) (take 19 mount_routes)"
  "list_all (\<lambda>(_, pattern, _). pattern_misses pattern) (forbidden_override @ take 2 forbidden @ drop 3 forbidden)"
  by code_simp+

lemma spec_tools: "compile_path_match ''{spec}/tools/*'' = Inr [RSlash, RGroup ''spec'', RSlash, RLiteral ''tools'', RSlash, RStar]"
  "compile_path_match ''_hp/*.py'' = Inr [RSlash, RLiteral ''_hp'', RSlash, RStar, RLiteral ''.py'']"
  by code_simp+

lemma spec_tools_instance:
  assumes "newline \<notin> set s"
  shows "instance_of [RSlash, RGroup ''spec'', RSlash, RLiteral ''tools'', RSlash, RStar] (''/_hp/'' @ s @ ''.py'') \<longleftrightarrow> starts_with ''tools/'' s"
proof
  assume "instance_of [RSlash, RGroup ''spec'', RSlash, RLiteral ''tools'', RSlash, RStar] (''/_hp/'' @ s @ ''.py'')"
  then obtain v w where v: "CHR ''/'' \<notin> set v" "''_hp/'' @ s @ ''.py'' = v @ ''/tools/'' @ w"
    by (auto simp: instance_simps(2,3,4))
  have "takeWhile (\<lambda>c. c \<noteq> CHR ''/'') (v @ ''/tools/'' @ w) = v" using v(1) by (subst takeWhile_append2) auto
  then have "v = ''_hp''" unfolding v(2) [symmetric] by simp
  then have "s @ ''.py'' = ''tools/'' @ w" using v(2) by simp
  then show "starts_with ''tools/'' s" by (auto simp: starts_with_iff append_eq_append_conv2 Cons_eq_append_conv append_eq_Cons_conv)
next
  assume "starts_with ''tools/'' s"
  then obtain w where w: "s = ''tools/'' @ w" by (auto simp: starts_with_iff)
  have "newline \<notin> set (w @ ''.py'')" using assms by (simp add: w newline_def)
  then have "instance_of [RSlash, RLiteral ''tools'', RSlash, RStar] (''/tools/'' @ w @ ''.py'')"
    using star_rest by (simp add: instance_simps(2,3))
  from instance_of.intros(4) [OF _ _ this, of "''_hp''" "''spec''"]
  show "instance_of [RSlash, RGroup ''spec'', RSlash, RLiteral ''tools'', RSlash, RStar] (''/_hp/'' @ s @ ''.py'')"
    by (simp add: instance_simps(2) w)
qed

lemma first_some_skip: "\<forall>x \<in> set xs. f x = None \<Longrightarrow> first_some (map f (xs @ ys)) = first_some (map f ys)"
  by (induction xs) auto

lemma hp_script_route:
  assumes "router_of (new_routes_builder None) = Inr routes" and "newline \<notin> set s"
  shows "\<exists>b. get_handler routes m (''/_hp/'' @ s @ ''.py'') = Some
    (if starts_with ''tools/'' s then Error_Handler 404 else Made Python_Script_Handler None ''/'', b)"
proof -
  let ?p = "''/_hp/'' @ s @ ''.py''" and ?g = "\<lambda>(m, suffix, c). (m, suffix, injecting None (Made c None ''/''))"
  let ?fa = "\<lambda>rs. first_some (map (route_answer m ?p) rs)"
  let ?t = "(''*'', ''{spec}/tools/*'', Error_Handler 404)" and ?py = "(''*'', ''_hp/*.py'', Made Python_Script_Handler None ''/'')"
  let ?pre = "drop 3 forbidden @ map ?g (take 19 mount_routes)"
  have p: "starts_with ''/_h'' ?p" "last ?p = CHR ''y''" by (simp_all add: starts_with_def)
  have miss: "route_answer m ?p (k, pattern, h) = None" if "pattern_misses pattern" for k pattern h
    using that route_misses [OF _ _ p] by (auto simp: pattern_misses_def split: sum.splits)
  have routes: "get_routes (new_routes_builder None) = (forbidden_override @ take 2 forbidden) @ ?t # (?pre @ ?py # map ?g (drop 20 mount_routes))"
    by (simp add: default_routes forbidden_def mount_routes_def injecting_def eval_nat_numeral)
  have "get_handler routes m ?p = ?fa (?t # ?pre @ ?py # map ?g (drop 20 mount_routes))"
    unfolding get_handler_routes [OF assms(1)] routes
    by (rule first_some_skip) (use earlier_patterns_miss(2) miss in \<open>force simp: list_all_iff\<close>)
  moreover obtain b1 where "?fa (?t # ?pre @ ?py # map ?g (drop 20 mount_routes)) =
      (if admits (Method ''*'') m \<and> instance_of [RSlash, RGroup ''spec'', RSlash, RLiteral ''tools'', RSlash, RStar] ?p
       then Some (Error_Handler 404, b1) else ?fa (?pre @ ?py # map ?g (drop 20 mount_routes)))"
    using first_answer_Cons [OF spec_tools(1)] by blast
  moreover have "?fa (?pre @ ?py # map ?g (drop 20 mount_routes)) = ?fa (?py # map ?g (drop 20 mount_routes))"
    by (rule first_some_skip) (use earlier_patterns_miss miss in \<open>force simp: list_all_iff\<close>)
  moreover obtain b2 where "?fa (?py # map ?g (drop 20 mount_routes)) =
      (if admits (Method ''*'') m \<and> instance_of [RSlash, RLiteral ''_hp'', RSlash, RStar, RLiteral ''.py''] ?p
       then Some (Made Python_Script_Handler None ''/'', b2) else ?fa (map ?g (drop 20 mount_routes)))"
    using first_answer_Cons [OF spec_tools(2)] by blast
  moreover have "instance_of [RSlash, RLiteral ''_hp'', RSlash, RStar, RLiteral ''.py''] ?p"
    using instance_of.intros(5) [OF assms(2), of "[RLiteral ''.py'']" "''.py''"] instance_of.intros(3) [of "[]" "[]" "''.py''"]
    by (simp add: instance_simps(1-3))
  moreover have "instance_of [RSlash, RGroup ''spec'', RSlash, RLiteral ''tools'', RSlash, RStar] ?p \<longleftrightarrow> starts_with ''tools/'' s"
    by (rule spec_tools_instance [OF assms(2)])
  ultimately show ?thesis by (simp add: admits_def)
qed

text \<open>
  the endpoints of the study run: whatever the method, a path below \<open>/_hp/\<close> that ends with \<open>.py\<close> is answered
  by the script handler, unless it is below \<open>/_hp/tools/\<close>, which is forbidden. (The generator scripts in
  \<open>_hp/hp/tools\<close> are not below it and are run by any request for them.)
\<close>

theorem hp_scripts_are_run:
  assumes "router_of (new_routes_builder None) = Inr routes" and "newline \<notin> set s"
  shows "\<exists>b. get_handler routes m (''/_hp/'' @ s @ ''.py'') = Some
    (if starts_with ''tools/'' s then Error_Handler 404 else Made Python_Script_Handler None ''/'', b)"
  using assms by (rule hp_script_route)

theorem hp_scripts_are_run_witness:
  "\<exists>routes b b'. router_of (new_routes_builder None) = Inr routes
     \<and> get_handler routes ''GET'' ''/_hp/server/responses.py'' = Some (Made Python_Script_Handler None ''/'', b)
     \<and> get_handler routes ''GET'' ''/_hp/hp/tools/create_responses.py'' = Some (Made Python_Script_Handler None ''/'', b')"
proof -
  obtain routes where r: "router_of (new_routes_builder None) = Inr routes"
    using default_router by (metis isl_def sum.exhaust)
  have n: "newline \<notin> set ''server/responses''" "newline \<notin> set ''hp/tools/create_responses''" by (simp_all add: newline_def)
  show ?thesis
    using r hp_scripts_are_run [OF r n(1), of "''GET''"] hp_scripts_are_run [OF r n(2), of "''GET''"] by (simp add: starts_with_def)
qed

end
