(* ===== verification/Wrappers.thy ===== *)
theory Wrappers
  imports Handlers Routes
begin

text \<open>
  The handlers of \<open>tools/serve/serve.py\<close> that make a test page or a worker script around a JavaScript file: the
  paths of the file and of the resource, the metadata comments of the file (\<open>read_script_metadata\<close> and
  \<open>parse_variants\<close> of \<open>tools/manifest/sourcefile.py\<close>), the pages, and the injection of a script into HTML
  responses. The HTML tokenizer of the injection is a parameter.
\<close>

section \<open>Pages\<close>

text \<open>The text of a page by its lines, in which a circumflex stands for a double quote.\<close>

definition page :: "string list \<Rightarrow> ustr" where
  "page lines = map (\<lambda>c. if c = 94 then 34 else c) (join_with [10] (map cp lines))"

definition workers_page :: ustr where
  "workers_page = page
    [''<!doctype html>'',
     ''<meta charset=utf-8>'',
     ''%(meta)s'',
     ''<script src=^/resources/testharness.js^></script>'',
     ''<script src=^/resources/testharnessreport.js^></script>'',
     ''<div id=log></div>'',
     ''<script>'',
     ''fetch_tests_from_worker(new Worker(^%(path)s%(query)s^));'',
     ''</script>'',
     []]"

definition worker_modules_page :: ustr where
  "worker_modules_page = page
    [''<!doctype html>'',
     ''<meta charset=utf-8>'',
     ''%(meta)s'',
     ''<script src=^/resources/testharness.js^></script>'',
     ''<script src=^/resources/testharnessreport.js^></script>'',
     ''<div id=log></div>'',
     ''<script>'',
     ''fetch_tests_from_worker(new Worker(^%(path)s%(query)s^, { type: ^module^ }));'',
     ''</script>'',
     []]"

definition window_page :: ustr where
  "window_page = page
    [''<!doctype html>'',
     ''<meta charset=utf-8>'',
     ''%(meta)s'',
     ''<script src=^/resources/testharness.js^></script>'',
     ''<script src=^/resources/testharnessreport.js^></script>'',
     ''%(script)s'',
     ''<div id=log></div>'',
     ''<script src=^%(path)s^></script>'',
     []]"

definition any_html_page :: ustr where
  "any_html_page = page
    [''<!doctype html>'',
     ''<meta charset=utf-8>'',
     ''%(meta)s'',
     ''<script>'',
     ''self.GLOBAL = {'',
     ''  isWindow: function() { return true; },'',
     ''  isWorker: function() { return false; },'',
     ''  isShadowRealm: function() { return false; },'',
     ''};'',
     ''</script>'',
     ''<script src=^/resources/testharness.js^></script>'',
     ''<script src=^/resources/testharnessreport.js^></script>'',
     ''%(script)s'',
     ''<div id=log></div>'',
     ''<script src=^%(path)s^></script>'',
     []]"

definition shared_workers_page :: ustr where
  "shared_workers_page = page
    [''<!doctype html>'',
     ''<meta charset=utf-8>'',
     ''%(meta)s'',
     ''<script src=^/resources/testharness.js^></script>'',
     ''<script src=^/resources/testharnessreport.js^></script>'',
     ''<div id=log></div>'',
     ''<script>'',
     ''fetch_tests_from_worker(new SharedWorker(^%(path)s%(query)s^));'',
     ''</script>'',
     []]"

definition shared_worker_modules_page :: ustr where
  "shared_worker_modules_page = page
    [''<!doctype html>'',
     ''<meta charset=utf-8>'',
     ''%(meta)s'',
     ''<script src=^/resources/testharness.js^></script>'',
     ''<script src=^/resources/testharnessreport.js^></script>'',
     ''<div id=log></div>'',
     ''<script>'',
     ''fetch_tests_from_worker(new SharedWorker(^%(path)s%(query)s^, { type: ^module^ }));'',
     ''</script>'',
     []]"

definition service_workers_page :: ustr where
  "service_workers_page = page
    [''<!doctype html>'',
     ''<meta charset=utf-8>'',
     ''%(meta)s'',
     ''<script src=^/resources/testharness.js^></script>'',
     ''<script src=^/resources/testharnessreport.js^></script>'',
     ''<div id=log></div>'',
     ''<script>'',
     ''(async function() {'',
     ''  const scope = 'does/not/exist';'',
     ''  let reg = await navigator.serviceWorker.getRegistration(scope);'',
     ''  if (reg) await reg.unregister();'',
     ''  reg = await navigator.serviceWorker.register(^%(path)s%(query)s^, {scope});'',
     ''  fetch_tests_from_worker(reg.installing);'',
     ''})();'',
     ''</script>'',
     []]"

definition service_worker_modules_page :: ustr where
  "service_worker_modules_page = page
    [''<!doctype html>'',
     ''<meta charset=utf-8>'',
     ''%(meta)s'',
     ''<script src=^/resources/testharness.js^></script>'',
     ''<script src=^/resources/testharnessreport.js^></script>'',
     ''<div id=log></div>'',
     ''<script>'',
     ''(async function() {'',
     ''  const scope = 'does/not/exist';'',
     ''  let reg = await navigator.serviceWorker.getRegistration(scope);'',
     ''  if (reg) await reg.unregister();'',
     ''  reg = await navigator.serviceWorker.register('',
     ''    ^%(path)s%(query)s^,'',
     ''    { scope, type: 'module' },'',
     ''  );'',
     ''  fetch_tests_from_worker(reg.installing);'',
     ''})();'',
     ''</script>'',
     []]"

definition shadow_realm_page :: ustr where
  "shadow_realm_page = page
    [''<!doctype html>'',
     ''<meta charset=utf-8>'',
     ''%(meta)s'',
     ''<script src=^/resources/testharness.js^></script>'',
     ''<script src=^/resources/testharnessreport.js^></script>'',
     ''<script>'',
     ''(async function() {'',
     ''  const r = new ShadowRealm();'',
     ''  r.evaluate(^globalThis.self = globalThis; undefined;^);'',
     ''  await new Promise(r.evaluate(`'',
     ''    (resolve, reject) => {'',
     ''      (async () => {'',
     ''        globalThis.self.GLOBAL = {'',
     ''          isWindow: function() { return false; },'',
     ''          isWorker: function() { return false; },'',
     ''          isShadowRealm: function() { return true; },'',
     ''        };'',
     ''        await import(^/resources/testharness.js^);'',
     ''        %(script)s'',
     ''        await import(^%(path)s^);'',
     ''      })().then(resolve, (e) => reject(e.toString()));'',
     ''    }'',
     ''  `));'',
     [],
     ''  await fetch_tests_from_shadow_realm(r);'',
     ''  done();'',
     ''})();'',
     ''</script>'',
     []]"

definition classic_worker_page :: ustr where
  "classic_worker_page = page
    [''%(meta)s'',
     ''self.GLOBAL = {'',
     ''  isWindow: function() { return false; },'',
     ''  isWorker: function() { return true; },'',
     ''  isShadowRealm: function() { return false; },'',
     ''};'',
     ''importScripts(^/resources/testharness.js^);'',
     ''%(script)s'',
     ''importScripts(^%(path)s^);'',
     ''done();'',
     []]"

definition module_worker_page :: ustr where
  "module_worker_page = page
    [''%(meta)s'',
     ''self.GLOBAL = {'',
     ''  isWindow: function() { return false; },'',
     ''  isWorker: function() { return true; },'',
     ''  isShadowRealm: function() { return false; },'',
     ''};'',
     ''import ^/resources/testharness.js^;'',
     ''%(script)s'',
     ''import ^%(path)s^;'',
     ''done();'',
     []]"

definition wrapper_page :: "handler_class \<Rightarrow> ustr" where
  "wrapper_page c = (case c of
     Workers_Handler \<Rightarrow> workers_page
   | Worker_Modules_Handler \<Rightarrow> worker_modules_page
   | Window_Handler \<Rightarrow> window_page
   | Any_Html_Handler \<Rightarrow> any_html_page
   | Shared_Workers_Handler \<Rightarrow> shared_workers_page
   | Shared_Worker_Modules_Handler \<Rightarrow> shared_worker_modules_page
   | Service_Workers_Handler \<Rightarrow> service_workers_page
   | Service_Worker_Modules_Handler \<Rightarrow> service_worker_modules_page
   | Shadow_Realm_Handler \<Rightarrow> shadow_realm_page
   | Classic_Worker_Handler \<Rightarrow> classic_worker_page
   | Module_Worker_Handler \<Rightarrow> module_worker_page
   | _ \<Rightarrow> [])"

text \<open>
  The suffixes of \<open>path_replace\<close>: of the URL, of the file on disk and of the resource the page loads; a pair
  of the source has the same suffix for both.
\<close>

definition path_replace :: "handler_class \<Rightarrow> (string \<times> string \<times> string) list" where
  "path_replace c = (case c of
     Workers_Handler \<Rightarrow>
       [(''.any.worker.html'', ''.any.js'', ''.any.worker.js''), (''.worker.html'', ''.worker.js'', ''.worker.js'')]
   | Worker_Modules_Handler \<Rightarrow>
       [(''.any.worker-module.html'', ''.any.js'', ''.any.worker-module.js''), (''.worker.html'', ''.worker.js'', ''.worker.js'')]
   | Window_Handler \<Rightarrow> [(''.window.html'', ''.window.js'', ''.window.js'')]
   | Any_Html_Handler \<Rightarrow> [(''.any.html'', ''.any.js'', ''.any.js'')]
   | Shared_Workers_Handler \<Rightarrow> [(''.any.sharedworker.html'', ''.any.js'', ''.any.worker.js'')]
   | Shared_Worker_Modules_Handler \<Rightarrow> [(''.any.sharedworker-module.html'', ''.any.js'', ''.any.worker-module.js'')]
   | Service_Workers_Handler \<Rightarrow> [(''.any.serviceworker.html'', ''.any.js'', ''.any.worker.js'')]
   | Service_Worker_Modules_Handler \<Rightarrow> [(''.any.serviceworker-module.html'', ''.any.js'', ''.any.worker-module.js'')]
   | Shadow_Realm_Handler \<Rightarrow> [(''.any.shadowrealm.html'', ''.any.js'', ''.any.js'')]
   | Classic_Worker_Handler \<Rightarrow> [(''.any.worker.js'', ''.any.js'', ''.any.js'')]
   | Module_Worker_Handler \<Rightarrow> [(''.any.worker-module.js'', ''.any.js'', ''.any.js'')]
   | _ \<Rightarrow> [])"

definition global_type :: "handler_class \<Rightarrow> string option" where
  "global_type c = (case c of
     Workers_Handler \<Rightarrow> Some ''dedicatedworker''
   | Worker_Modules_Handler \<Rightarrow> Some ''dedicatedworker-module''
   | Any_Html_Handler \<Rightarrow> Some ''window''
   | Shared_Workers_Handler \<Rightarrow> Some ''sharedworker''
   | Shared_Worker_Modules_Handler \<Rightarrow> Some ''sharedworker-module''
   | Service_Workers_Handler \<Rightarrow> Some ''serviceworker''
   | Service_Worker_Modules_Handler \<Rightarrow> Some ''serviceworker-module''
   | Shadow_Realm_Handler \<Rightarrow> Some ''shadowrealm''
   | _ \<Rightarrow> None)"

definition worker_class :: "handler_class \<Rightarrow> bool" where
  "worker_class c \<longleftrightarrow> c \<in> {Classic_Worker_Handler, Module_Worker_Handler}"

section \<open>Paths\<close>

definition replace_end :: "'a list \<Rightarrow> 'a list \<Rightarrow> 'a list \<Rightarrow> 'a list res" where
  "replace_end s old new =
     (if \<not> ends_with old s then Inl AssertionError
      else Inr (if old = [] then new else take (length s - length old) s @ new))"

fun replace_suffixes :: "bool \<Rightarrow> (string \<times> string \<times> string) list \<Rightarrow> ustr \<Rightarrow> ustr res" where
  "replace_suffixes resource_path [] path = Inr path"
| "replace_suffixes resource_path ((src, disk, resource) # items) path =
     rbind (if ends_with (cp src) path then replace_end path (cp src) (cp (if resource_path then resource else disk)) else Inr path)
       (replace_suffixes resource_path items)"

definition wrapped_path :: "handler_class \<Rightarrow> bool \<Rightarrow> ustr \<Rightarrow> ustr res" where
  "wrapped_path c resource_path path = replace_suffixes resource_path (path_replace c) path"

definition wrapped_file :: "handler_env \<Rightarrow> handler_class \<Rightarrow> ustr option \<Rightarrow> string \<Rightarrow> ustr res" where
  "wrapped_file env c base_path url_base = rbind (filesystem_path env base_path url_base) (wrapped_path c False)"

section \<open>Metadata\<close>

text \<open>A line with its end, matched with \<open>//\s*META:\s*(\w*)=(.*)$\<close>.\<close>

definition match_meta :: "string \<Rightarrow> (string \<times> string) option" where
  "match_meta line =
     (if \<not> starts_with ''//'' line then None
      else let r = dropWhile is_space (drop 2 line)
           in if \<not> starts_with ''META:'' r then None
              else let r = dropWhile is_space (drop 5 r); key = takeWhile word_byte r; r = drop (length key) r
                   in if \<not> starts_with ''='' r then None
                      else Some (key, takeWhile (\<lambda>c. c \<noteq> newline) (drop 1 r)))"

text \<open>The lines of a binary file, with their ends.\<close>

fun file_lines :: "string \<Rightarrow> string \<Rightarrow> string list" where
  "file_lines cur [] = (if cur = [] then [] else [cur])"
| "file_lines cur (c # cs) = (if c = newline then (cur @ [c]) # file_lines [] cs else file_lines (cur @ [c]) cs)"

text \<open>The pairs the generator yields, up to the first other line; an exception ends it.\<close>

fun meta_of_lines :: "string list \<Rightarrow> (ustr \<times> ustr) res list" where
  "meta_of_lines [] = []"
| "meta_of_lines (l # ls) =
     (case match_meta l of
        None \<Rightarrow> []
      | Some (k, v) \<Rightarrow>
          (case rbind (utf8_decode k) (\<lambda>k. rbind (utf8_decode v) (\<lambda>v. Inr (k, v))) of
             Inl e \<Rightarrow> [Inl e] | Inr kv \<Rightarrow> Inr kv # meta_of_lines ls))"

definition script_metadata :: "handler_env \<Rightarrow> ustr \<Rightarrow> (ustr \<times> ustr) res list" where
  "script_metadata env path =
     (case os_read (he_files env) path of
        Inl e \<Rightarrow> [Inl (if e = OSError then HTTPException 404 [] else e)]
      | Inr data \<Rightarrow> meta_of_lines (file_lines [] data))"

definition any_variants :: "string list" where
  "any_variants = [''window'', ''serviceworker'', ''serviceworker-module'', ''sharedworker'', ''sharedworker-module'',
     ''dedicatedworker'', ''dedicatedworker-module'', ''worker'', ''worker-module'', ''shadowrealm'', ''jsshell'']"

definition get_any_variants :: "ustr \<Rightarrow> ustr set" where
  "get_any_variants item =
     (if item \<notin> cp ` set any_variants then {}
      else if item = cp ''worker'' then cp ` {''dedicatedworker'', ''sharedworker'', ''serviceworker''} else {item})"

definition get_default_any_variants :: "ustr set" where
  "get_default_any_variants = cp ` {''window'', ''dedicatedworker''}"

definition parse_variants :: "ustr \<Rightarrow> ustr set" where
  "parse_variants value =
     (if value = [] then get_default_any_variants
      else (\<Union>item \<in> set (split_on 44 value). get_any_variants (strip_by text_space item)))"

fun first_global :: "(ustr \<times> ustr) res list \<Rightarrow> ustr res" where
  "first_global [] = Inr []"
| "first_global (Inl e # ms) = Inl e"
| "first_global (Inr (k, v) # ms) = (if k = cp ''global'' then Inr v else first_global ms)"

definition check_exposure :: "handler_env \<Rightarrow> handler_class \<Rightarrow> ustr \<Rightarrow> unit res" where
  "check_exposure env c path = (case global_type c of
     None \<Rightarrow> Inr ()
   | Some g \<Rightarrow>
       rbind (first_global (script_metadata env path)) (\<lambda>variants.
         if cp g \<in> parse_variants variants then Inr ()
         else Inl (HTTPException 404 (''This test cannot be loaded in '' @ g @ '' mode''))))"

section \<open>Replacements\<close>

definition quote :: ustr where
  "quote = [34]"

definition meta_replacement :: "handler_class \<Rightarrow> ustr \<Rightarrow> ustr \<Rightarrow> ustr option" where
  "meta_replacement c key value =
     (if worker_class c then None
      else if key = cp ''timeout'' \<and> value = cp ''long'' then Some (page [''<meta name=^timeout^ content=^long^>''])
      else if key = cp ''title''
      then Some (cp ''<title>'' @ replace_sub [60] (cp ''&lt;'') (replace_sub [38] (cp ''&amp;'') value) @ cp ''</title>'')
      else None)"

definition js_escape :: "ustr \<Rightarrow> ustr" where
  "js_escape value = replace_sub [34] [92, 34] (replace_sub [92] [92, 92] value)"

definition script_replacement :: "handler_class \<Rightarrow> ustr \<Rightarrow> ustr \<Rightarrow> ustr option" where
  "script_replacement c key value =
     (if worker_class c
      then (if key = cp ''script''
            then Some (if c = Classic_Worker_Handler then cp ''importScripts('' @ quote @ js_escape value @ quote @ cp '')''
                       else cp ''import '' @ quote @ js_escape value @ quote @ cp '';'')
            else if key = cp ''title'' then Some (cp ''self.META_TITLE = '' @ quote @ js_escape value @ quote @ cp '';'') else None)
      else if key \<noteq> cp ''script'' then None
      else if c = Shadow_Realm_Handler then Some (cp ''await import('' @ quote @ value @ quote @ cp '');'')
      else Some (cp ''<script src='' @ quote @ replace_sub [34] (cp ''&quot;'') (replace_sub [38] (cp ''&amp;'') value) @ quote
                 @ cp ''></script>''))"

definition replaced :: "(ustr \<Rightarrow> ustr \<Rightarrow> ustr option) \<Rightarrow> (ustr \<times> ustr) res list \<Rightarrow> ustr list res" where
  "replaced f ms = rbind (rmap id ms) (\<lambda>kvs.
     Inr (filter (\<lambda>t. t \<noteq> []) (concat (map (\<lambda>(k, v). case f k v of None \<Rightarrow> [] | Some t \<Rightarrow> [t]) kvs))))"

section \<open>The handler\<close>

definition wrapper_headers :: "handler_class \<Rightarrow> string" where
  "wrapper_headers c = (if worker_class c then ''text/javascript'' else ''text/html'')"

fun set_lines :: "string list list \<Rightarrow> unit writing" where
  "set_lines [] = give ()"
| "set_lines (line # ls) =
     (case line of [k, v] \<Rightarrow> and_then (headers_set k (PBytes v)) (\<lambda>_. set_lines ls) | _ \<Rightarrow> raise ValueError)"

definition wrapped_content :: "handler_env \<Rightarrow> handler_class \<Rightarrow> ustr \<Rightarrow> ustr \<Rightarrow> ustr res" where
  "wrapped_content env c file path =
     (let query = cp (up_query (req_url_parts (he_request env)));
          query = (if query \<noteq> [] then 63 # query else [])
      in rbind (replaced (meta_replacement c) (script_metadata env file)) (\<lambda>meta.
         rbind (replaced (script_replacement c) (script_metadata env file)) (\<lambda>script.
           percent_format [(''meta'', join_with [10] meta), (''script'', join_with [10] script), (''path'', path), (''query'', query)]
             (wrapper_page c))))"

definition wrapper_request :: "handler_env \<Rightarrow> handler_class \<Rightarrow> ustr option \<Rightarrow> string \<Rightarrow> ustr writing" where
  "wrapper_request env c base_path url_base =
     and_then (of_res (wrapped_file env c base_path url_base)) (\<lambda>file.
     and_then (of_res (load_headers env file)) (\<lambda>lines.
     and_then (set_lines ([''Content-Type'', wrapper_headers c] # lines)) (\<lambda>_.
     and_then (of_res (check_exposure env c file)) (\<lambda>_.
     and_then (of_res (wrapped_path c True (cp (up_path (req_url_parts (he_request env)))))) (\<lambda>path.
     and_then (of_res (wrapped_content env c file path)) (\<lambda>content.
     and_then (set_content (CData (DText content))) (\<lambda>_. give path)))))))"

definition wrapper_handler :: "handler_env \<Rightarrow> handler_class \<Rightarrow> ustr option \<Rightarrow> string \<Rightarrow> unit piped" where
  "wrapper_handler env c base_path url_base =
     http_errors_only (then_pipe (wrapper_request env c base_path url_base) (wrap_pipeline env))"

section \<open>Injecting a script\<close>

text \<open>\<open>inject\<close> is \<open>inject_script\<close>, which finds the place with the tokenizer of html5lib.\<close>

definition injected_tag :: "string \<Rightarrow> string" where
  "injected_tag s =
     ''<script>'' @ [newline] @ s @ [newline] @ ''// Remove the injected script tag from the DOM.'' @ [newline]
     @ ''document.currentScript.remove();'' @ [newline] @ ''</script>'' @ [newline]"

definition script_injector :: "(string \<Rightarrow> string \<Rightarrow> string) \<Rightarrow> string \<Rightarrow> unit piped \<Rightarrow> unit piped" where
  "script_injector inject script wrap =
     and_piped wrap (\<lambda>_. ends_with_result (and_then get_state (\<lambda>st.
       case rs_headers st of
         HList _ \<Rightarrow> give ()
       | HObject h \<Rightarrow>
           (case rh_get h (PStr ''Content-Type'') None of
              [] \<Rightarrow> raise IndexError
            | t # _ \<Rightarrow>
                if t \<noteq> ''text/html'' then give ()
                else (case rs_content st of
                    CItems _ \<Rightarrow> give ()
                  | _ \<Rightarrow> and_then resolve_content (\<lambda>html. set_content (CData (DBytes (inject html (injected_tag script))))))))))"

end
