(* ===== verification/Server.thy ===== *)
theory Server
  imports Wrappers Input_File
begin

text \<open>
  The HTTP/1.1 side of \<open>tools/wptserve/wptserve/server.py\<close>: rewriting of request paths, the choice of the handler,
  running it, and the answer to its exceptions. Reading the request line and its headers is the standard
  library's; what it made of them is the input here.
\<close>

section \<open>Rewriting\<close>

text \<open>A dictionary from paths to the methods and the new path.\<close>

type_synonym rewrite_rules = "(string, string list \<times> string) odict"

datatype rule_methods = One_Method string | Some_Methods "string list"

definition register_rule :: "rule_methods \<Rightarrow> string \<Rightarrow> string \<Rightarrow> rewrite_rules \<Rightarrow> rewrite_rules" where
  "register_rule ms input_path output_path rules =
     od_set input_path (case ms of One_Method m \<Rightarrow> [m] | Some_Methods l \<Rightarrow> l, output_path) rules"

definition new_rewriter :: "(rule_methods \<times> string \<times> string) list \<Rightarrow> rewrite_rules" where
  "new_rewriter rules = fold (\<lambda>(ms, i, d). register_rule ms i d) (rev rules) []"

definition netloc_schemes :: "string list" where
  "netloc_schemes =
     [[], ''ftp'', ''http'', ''gopher'', ''nntp'', ''telnet'', ''imap'', ''wais'', ''file'', ''mms'', ''https'', ''shttp'',
      ''snews'', ''prospero'', ''rtsp'', ''rtspu'', ''rsync'', ''svn'', ''svn+ssh'', ''sftp'', ''nfs'', ''git'', ''git+ssh'',
      ''ws'', ''wss'']"

definition urlunsplit :: "url_parts \<Rightarrow> string" where
  "urlunsplit u =
     (let p = up_path u; s = up_scheme u;
          url = (if up_netloc u \<noteq> [] \<or> s \<noteq> [] \<and> s \<in> set netloc_schemes \<and> \<not> starts_with ''//'' p
                 then ''//'' @ up_netloc u @ (if p \<noteq> [] \<and> \<not> starts_with ''/'' p then ''/'' @ p else p) else p);
          url = (if s \<noteq> [] then s @ '':'' @ url else url);
          url = (if up_query u \<noteq> [] then url @ ''?'' @ up_query u else url)
      in if up_fragment u \<noteq> [] then url @ ''#'' @ up_fragment u else url)"

definition rewrite :: "rewrite_rules \<Rightarrow> string \<Rightarrow> string \<Rightarrow> string res" where
  "rewrite rules command path =
     rbind (urlsplit path) (\<lambda>split_url.
       case od_get rules (up_path split_url) of
         None \<Rightarrow> Inr path
       | Some (ms, destination) \<Rightarrow>
           if ''*'' \<in> set ms \<or> command \<in> set ms
           then Inr (urlunsplit (split_url\<lparr>up_path := destination\<rparr>)) else Inr path)"

section \<open>The server\<close>

text \<open>
  What the handlers of a server use besides the request: the scripts, handlers added by a caller, the tokenizer
  that places an injected script, and the description of an exception in an error response (of its cause, for a
  status from 500 to 599).
\<close>

record site =
  si_scripts :: scripts
  si_given :: "nat \<Rightarrow> handler_env \<Rightarrow> unit piped"
  si_inject :: "string \<Rightarrow> string \<Rightarrow> string"
  si_describe :: "exc \<Rightarrow> error_value"

definition default_location :: string where
  "default_location = ''https://swag.cispa.saarland/crawler.html''"

fun run_handler :: "site \<Rightarrow> handler_env \<Rightarrow> handler \<Rightarrow> unit piped" where
  "run_handler site env (Made c base_path url_base) =
     (let b = map_option cp base_path
      in case c of
           File_Handler \<Rightarrow> file_handler env b url_base
         | Python_Script_Handler \<Rightarrow> python_script_handler (si_scripts site) env b url_base
         | As_Is_Handler \<Rightarrow> as_is_handler env b url_base
         | Redirect_Handler \<Rightarrow> redirect_handler env default_location
         | _ \<Rightarrow> wrapper_handler env c b url_base)"
| "run_handler site env (Error_Handler status) = error_handler env status"
| "run_handler site env (Static_Handler path args content_type headers) = static_handler env (cp path) args content_type headers"
| "run_handler site env (Given_Handler n) = si_given site n env"
| "run_handler site env (Script_Injector script h) = script_injector (si_inject site) script (run_handler site env h)"

text \<open>The attributes \<open>base_path\<close> and \<open>url_base\<close> of a handler, which change the request.\<close>

definition handler_bases :: "handler \<Rightarrow> string option \<times> string" where
  "handler_bases h = (case h of
     Made c b u \<Rightarrow> if c = Redirect_Handler then (None, ''/'') else (b, u) | _ \<Rightarrow> (None, ''/''))"

definition with_bases :: "handler \<Rightarrow> handler_env \<Rightarrow> handler_env" where
  "with_bases h env =
     env\<lparr>he_doc_root := (case fst (handler_bases h) of None \<Rightarrow> he_doc_root env | Some b \<Rightarrow> if b = [] then he_doc_root env else cp b),
         he_url_base := (if snd (handler_bases h) \<noteq> ''/'' then snd (handler_bases h) else he_url_base env)\<rparr>"

definition answer_error :: "site \<Rightarrow> handler_env \<Rightarrow> exc \<Rightarrow> unit writing" where
  "answer_error site env e =
     set_error (he_suppress env) (cp (req_url (he_request env)))
       (case e of HTTPException code _ \<Rightarrow> code | _ \<Rightarrow> 500) (si_describe site e)"

text \<open>The handler, with its exceptions turned into an error response.\<close>

definition handle_safely :: "site \<Rightarrow> handler_env \<Rightarrow> handler option \<Rightarrow> unit piped" where
  "handle_safely site env h st = (case h of
     None \<Rightarrow> Some (set_error (he_suppress env) (cp (req_url (he_request env))) 404 NoError st)
   | Some h \<Rightarrow>
       (case run_handler site (with_bases h env) h st of
          None \<Rightarrow> None
        | Some (Inl e, st') \<Rightarrow> Some (answer_error site env e st')
        | Some (Inr _, st') \<Rightarrow> Some (Inr (), st')))"

text \<open>
  \<open>finish_handling\<close>: the result says whether the connection is closed; the rest of the request's body is read if it
  is kept. What the body's stream contains afterwards does not matter to the response.
\<close>

definition finish_handling :: "site \<Rightarrow> handler_env \<Rightarrow> handler option \<Rightarrow> bool \<Rightarrow> bool piped" where
  "finish_handling site env h close =
     and_piped (handle_safely site env h) (\<lambda>_. ends_with_result
       (and_then get_state (\<lambda>st.
        and_then (if w_content_written st then give () else write_response (he_server env)) (\<lambda>_.
        and_then get_state (\<lambda>st.
          let close' = (close \<or> rs_close st)
          in if close' then give True
             else and_then (of_res (fst (in_read (- 1) (req_input (he_request env))))) (\<lambda>_. give False))))))"

record server =
  srv_rules :: rewrite_rules
  srv_routes :: "handler routes"
  srv_site :: site
  srv_env :: handler_env

definition request_env :: "server \<Rightarrow> request \<Rightarrow> handler_env" where
  "request_env srv rq =
     (srv_env srv)\<lparr>he_request := rq, he_url_base := ''/'',
        he_server := (he_server (srv_env srv))\<lparr>rq_method := req_method rq, rq_protocol := req_protocol rq\<rparr>\<rparr>"

text \<open>\<open>handle_connect\<close>; with encryption after connecting, the rest of the connection is another server's.\<close>

definition handle_connect :: "server_env \<Rightarrow> unit writing" where
  "handle_connect env = and_then (set_status (StNum 200)) (\<lambda>_. write_response env)"

definition upgraded_landing_page :: "request \<Rightarrow> bool" where
  "upgraded_landing_page rq \<longleftrightarrow> req_protocol rq = ''HTTP/1.1'' \<and> md_get (request_GET rq) (cp ''scheme'') None = Some (cp ''http'')
     \<and> starts_with ''https'' (req_url rq)"

definition finish_handling_h1 :: "server \<Rightarrow> bool \<Rightarrow> head \<Rightarrow> bool \<Rightarrow> bool piped" where
  "finish_handling_h1 srv line_is_valid head close =
     then_pipe (of_res (rbind (rewrite (srv_rules srv) (hd_command head) (hd_path head)) (\<lambda>path. mk_request (head\<lparr>hd_path := path\<rparr>)))) (\<lambda>rq.
       let env = request_env srv rq
       in if req_method rq = ''CONNECT''
          then ends_with_result (and_then (handle_connect (he_server env)) (\<lambda>_. give close))
          else if \<not> line_is_valid
          then ends_with_result (and_then (set_error (he_suppress env) (cp (req_url rq)) 414 NoError) (\<lambda>_.
                 and_then (write_response (he_server env)) (\<lambda>_. give close)))
          else if upgraded_landing_page rq then ends_with_result (raise ValueError)
          else finish_handling (srv_site srv) env
                 (map_option fst (get_handler (srv_routes srv) (req_method rq) (up_path (req_url_parts rq)))) close)"

section \<open>One request of a connection\<close>

text \<open>What reading the request line gives, and what the standard library makes of the line and the headers.\<close>

datatype line_read = Read_Error | Read_Line string

datatype parsed = Rejected string bool | Parsed head bool

definition max_line :: nat where
  "max_line = 65536"

text \<open>Whether the connection is closed, and whether the line is valid.\<close>

definition get_request_line :: "line_read \<Rightarrow> bool \<times> bool" where
  "get_request_line r = (case r of
     Read_Error \<Rightarrow> (True, False)
   | Read_Line l \<Rightarrow> if max_line < length l then (False, False) else (l = [], True))"

text \<open>
  \<open>handle_one_request\<close>: the bytes sent and whether the connection is closed. The handler of exceptions looks at a
  variable that is always \<open>None\<close>, so an exception ends the request without an answer.
\<close>

definition handle_one_request :: "server \<Rightarrow> line_read \<Rightarrow> parsed \<Rightarrow> (string \<times> bool) option" where
  "handle_one_request srv line parsed =
     (case get_request_line line of (close, valid) \<Rightarrow>
        if close then Some ([], True)
        else (case parsed of
            Rejected out close' \<Rightarrow> Some (out, close')
          | Parsed head close' \<Rightarrow>
              (case finish_handling_h1 srv valid head close' new_response of
                 None \<Rightarrow> None
               | Some (Inl e, st) \<Rightarrow> Some (w_out st, close')
               | Some (Inr close'', st) \<Rightarrow> Some (w_out st, close''))))"

section \<open>Addresses\<close>

definition get_url :: "bool \<Rightarrow> bool \<Rightarrow> string \<Rightarrow> int \<Rightarrow> string \<Rightarrow> string \<Rightarrow> string \<Rightarrow> string option" where
  "get_url started use_ssl host port path query fragment =
     (if \<not> started then None
      else Some (urlunsplit \<lparr>up_scheme = (if use_ssl then ''https'' else ''http''), up_netloc = host @ '':'' @ int_str port,
                   up_path = path, up_query = query, up_fragment = fragment\<rparr>))"

end
