(* ===== verification/Handler_Facts.thy ===== *)
theory Handler_Facts
  imports Handlers
begin

text \<open>
  What the handlers promise: files below the root of the handler only, the bytes of the requested ranges, and
  the errors of each branch.
\<close>

section \<open>Paths below the root\<close>

definition dots :: "ustr" where
  "dots = cp ''..''"

definition components :: "ustr list \<Rightarrow> ustr list" where
  "components cs = rev (fold (\<lambda>c acc. if c = [] \<or> c = cp ''.'' then acc else if c = cp ''..'' then tl acc else c # acc) cs [])"

lemma norm_components_split: "norm_components p = components (split_on 47 p)"
  by (simp add: norm_components_def components_def)

text \<open>Components without the parent directory are only added.\<close>

lemma components_append:
  "dots \<notin> set ys \<Longrightarrow> components (xs @ ys) = components xs @ filter (\<lambda>c. c \<noteq> [] \<and> c \<noteq> cp ''.'') ys"
  by (induction ys rule: rev_induct) (auto simp: components_def dots_def)

text \<open>A path inside a directory, up to dots and double slashes.\<close>

definition inside :: "ustr \<Rightarrow> ustr \<Rightarrow> bool" where
  "inside root p \<longleftrightarrow> (\<exists>cs. norm_components p = norm_components root @ cs)"

lemma split_join:
  assumes "\<not> starts_with (cp ''/'') r"
  shows "\<exists>xs. components xs = norm_components root \<and> split_on 47 (path_join root r) = xs @ split_on 47 r"
proof -
  have slash: "cp ''/'' = [47]" by (simp add: cp_def)
  consider "root = []" | a where "root = a @ [47]" | "root \<noteq> []" "\<not> ends_with [47] root"
    by (auto simp: ends_with_iff)
  then show ?thesis
  proof cases
    case 1
    then show ?thesis using assms
      by (intro exI [of _ "[]"]) (simp add: path_join_def components_def norm_components_def)
  next
    case 2
    have "components (split_on 47 a @ [[]]) = components (split_on 47 a) @ filter (\<lambda>c. c \<noteq> [] \<and> c \<noteq> cp ''.'') [[]]"
      by (rule components_append) (simp add: dots_def cp_def)
    then have "components (split_on 47 a) = norm_components root"
      using split_on_append [of 47 a "[]"] by (simp add: norm_components_split 2)
    moreover have "split_on 47 (path_join root r) = split_on 47 a @ split_on 47 r"
      using assms by (simp add: path_join_def 2 slash ends_with_iff split_on_append)
    ultimately show ?thesis by blast
  next
    case 3
    then show ?thesis using assms
      by (intro exI [of _ "split_on 47 root"]) (simp add: path_join_def slash norm_components_split split_on_append)
  qed
qed


lemma no_dots_component: "\<not> contains_sub dots r \<Longrightarrow> c \<in> set (split_on 47 r) \<Longrightarrow> c \<noteq> dots"
  unfolding contains_sub_iff using split_on_part by metis

lemma joined_components:
  assumes "\<not> starts_with (cp ''/'') r" and "dots \<notin> set (split_on 47 r)"
  shows "norm_components (path_join root r) = norm_components root @ filter (\<lambda>c. c \<noteq> [] \<and> c \<noteq> cp ''.'') (split_on 47 r)"
proof -
  obtain xs where "components xs = norm_components root" "split_on 47 (path_join root r) = xs @ split_on 47 r"
    using split_join [OF assms(1)] by blast
  then show ?thesis using components_append [OF assms(2)] by (simp add: norm_components_split)
qed

lemma inside_join: "\<not> starts_with (cp ''/'') r \<Longrightarrow> dots \<notin> set (split_on 47 r) \<Longrightarrow> inside root (path_join root r)"
  using joined_components by (auto simp: inside_def)

text \<open>A suffix without a slash changes the last component.\<close>

lemma split_on_suffix: "c \<notin> set s \<Longrightarrow> split_on c (r @ s) = butlast (split_on c r) @ [last (split_on c r) @ s]"
  by (induction r) (auto simp: split_on_absent split: list.split)

lemma inside_suffix:
  assumes "\<not> starts_with (cp ''/'') r" "\<not> contains_sub dots r" "47 \<notin> set s" "2 < length s" "hd s \<noteq> 47"
  shows "inside root (path_join root r @ s)"
proof -
  have "\<not> starts_with (cp ''/'') (r @ s)" using assms(1,4,5) by (cases r; cases s) (auto simp: cp_def starts_with_iff)
  moreover have "dots \<notin> set (split_on 47 (r @ s))"
  proof
    assume "dots \<in> set (split_on 47 (r @ s))"
    then consider "dots \<in> set (split_on 47 r)" | "dots = last (split_on 47 r) @ s"
      by (auto simp: split_on_suffix [OF assms(3)] dest: in_set_butlastD)
    then show False
    proof cases
      case 2
      have "length s \<le> length dots" unfolding 2 by simp
      then show False using assms(4) by (simp add: dots_def cp_def)
    qed (use no_dots_component [OF assms(2)] in blast)
  qed
  moreover have "path_join root r @ s = path_join root (r @ s)"
    using assms(1) calculation(1) by (simp add: path_join_def)
  ultimately show ?thesis by (simp add: inside_join)
qed

text \<open>The directory of a path has its components but the last.\<close>

lemma components_slashes: "list_all (\<lambda>c. c = 47) s \<Longrightarrow> components (split_on 47 (a @ s)) = components (split_on 47 a)"
proof (induction s rule: rev_induct)
  case (snoc c s)
  have "components (split_on 47 (a @ s) @ [[]]) = components (split_on 47 (a @ s)) @ filter (\<lambda>c. c \<noteq> [] \<and> c \<noteq> cp ''.'') [[]]"
    by (rule components_append) (simp add: dots_def cp_def)
  then show ?case using snoc split_on_append [of 47 "a @ s" "[]"] by simp
qed simp

lemma norm_dirname: "norm_components (dirname p) = components (butlast (split_on 47 p))"
proof (cases "47 \<in> set p")
  case False
  then have up: "rev (dropWhile (\<lambda>c. c \<noteq> 47) (rev p)) = []" by auto
  have "dirname p = []" unfolding dirname_def Let_def up by simp
  then show ?thesis using False by (simp add: norm_components_split split_on_absent components_def)
next
  case True
  then obtain h f where p: "p = h @ 47 # f" "47 \<notin> set f" by (meson split_list_last)
  then have up: "rev (dropWhile (\<lambda>c. c \<noteq> 47) (rev p)) = h @ [47]"
    by (auto simp: dropWhile_append3)
  let ?h = "h @ [47]"
  have "components (split_on 47 (dirname p)) = components (split_on 47 ?h)"
  proof (cases "list_ex (\<lambda>c. c \<noteq> 47) ?h")
    case True
    have "?h = rev (dropWhile (\<lambda>c. c = 47) (rev ?h)) @ rev (takeWhile (\<lambda>c. c = 47) (rev ?h))"
      by (metis rev_append rev_rev_ident takeWhile_dropWhile_id)
    moreover have "list_all (\<lambda>c. c = 47) (rev (takeWhile (\<lambda>c. c = 47) (rev ?h)))"
      by (auto simp: list_all_iff dest: set_takeWhileD)
    ultimately have "components (split_on 47 ?h) = components (split_on 47 (rev (dropWhile (\<lambda>c. c = 47) (rev ?h))))"
      using components_slashes by metis
    then show ?thesis using True by (simp add: dirname_def up)
  qed (simp add: dirname_def up)
  also have "\<dots> = components (split_on 47 h)" using components_slashes [of "[47]" h] by simp
  also have "split_on 47 h = butlast (split_on 47 p)"
    using p by (simp add: split_on_append split_on_absent)
  finally show ?thesis by (simp add: norm_components_split)
qed

lemma inside_dir_file:
  assumes "\<not> starts_with (cp ''/'') r" "\<not> contains_sub dots r" "47 \<notin> set n" "n \<noteq> dots"
  shows "inside root (path_join (dirname (path_join root r)) n)"
proof -
  obtain xs where xs: "components xs = norm_components root" "split_on 47 (path_join root r) = xs @ split_on 47 r"
    using split_join [OF assms(1)] by blast
  have "dots \<notin> set (butlast (split_on 47 r))"
    using no_dots_component [OF assms(2)] in_set_butlastD by metis
  then have "\<exists>cs. norm_components (dirname (path_join root r)) = norm_components root @ cs"
    using components_append xs by (simp add: norm_dirname butlast_append)
  moreover have "norm_components (path_join d n) = norm_components d @ filter (\<lambda>c. c \<noteq> [] \<and> c \<noteq> cp ''.'') (split_on 47 n)" for d
    using assms(3,4) by (intro joined_components) (auto simp: split_on_absent starts_with_iff cp_def)
  ultimately show ?thesis by (auto simp: inside_def)
qed


section \<open>Only files below the root matter\<close>

definition agree_inside :: "ustr \<Rightarrow> files \<Rightarrow> files \<Rightarrow> bool" where
  "agree_inside root fs fs' \<longleftrightarrow> (\<forall>p. inside root p \<longrightarrow>
     fl_dir fs p = fl_dir fs' p \<and> fl_exists fs p = fl_exists fs' p \<and> fl_size fs p = fl_size fs' p \<and> fl_read fs p = fl_read fs' p)"

lemma agree_insideD:
  assumes "agree_inside root fs fs'" "inside root p"
  shows "os_isdir fs p = os_isdir fs' p" "os_exists fs p = os_exists fs' p" "os_size fs p = os_size fs' p"
    "os_read fs p = os_read fs' p"
  using assms by (simp_all add: agree_inside_def os_isdir_def os_exists_def os_size_def os_read_def)

lemma with_files [simp]:
  "template_env_at (env\<lparr>he_files := fs\<rparr>) = template_env_at env"
  "pipe_string (env\<lparr>he_files := fs\<rparr>) = pipe_string env"
  "byte_ranges (env\<lparr>he_files := fs\<rparr>) = byte_ranges env"
  "set_response_multipart (env\<lparr>he_files := fs\<rparr>) = set_response_multipart env"
  "root_of (env\<lparr>he_files := fs\<rparr>) = root_of env"
  "url_rest (env\<lparr>he_files := fs\<rparr>) = url_rest env"
  by (rule ext, simp add: template_env_at_def pipe_string_def byte_ranges_def root_of_def url_rest_def Let_def
      cong: option.case_cong | simp add: set_response_multipart_def Let_def)+

lemma wrap_with_files [simp]:
  "pipe_env_at (env\<lparr>he_files := fs\<rparr>) = pipe_env_at env"
  "wrap_pipeline (env\<lparr>he_files := fs\<rparr>) = wrap_pipeline env"
  "filesystem_path (env\<lparr>he_files := fs\<rparr>) = filesystem_path env"
  by (rule ext, simp add: pipe_env_at_def wrap_pipeline_def Let_def | simp add: fun_eq_iff filesystem_path_def)+

lemma get_data_agree:
  "os_read fs path = os_read fs' path \<Longrightarrow> get_data (env\<lparr>he_files := fs\<rparr>) path = get_data (env\<lparr>he_files := fs'\<rparr>) path"
  by (rule ext) (simp add: get_data_def cong: option.case_cong if_cong)

lemma load_file_agree:
  assumes "agree_inside root fs fs'" "inside root (path @ cp ''.sub.headers'')" "inside root (path @ cp ''.headers'')"
  shows "load_file (env\<lparr>he_files := fs\<rparr>) path = load_file (env\<lparr>he_files := fs'\<rparr>) path"
  using agree_insideD [OF assms(1,2)] agree_insideD [OF assms(1,3)] by (simp add: load_file_def Let_def cong: sum.case_cong if_cong)

lemma header_suffixes:
  "47 \<notin> set (cp ''.headers'')" "47 \<notin> set (cp ''.sub.headers'')" "2 < length (cp ''.headers'')" "2 < length (cp ''.sub.headers'')"
  "hd (cp ''.headers'') \<noteq> 47" "hd (cp ''.sub.headers'') \<noteq> 47"
  by (simp_all add: cp_def)

lemma filesystem_path_Inr:
  "filesystem_path env base_path url_base = Inr p \<Longrightarrow>
     p = path_join (root_of env base_path) (url_rest env url_base) \<and> \<not> contains_sub dots (url_rest env url_base)
     \<and> starts_with (root_of env base_path) p"
  by (auto simp: filesystem_path_def Let_def dots_def split: if_splits)



text \<open>
  the check of the root compares texts: a URL with the absolute path of a directory beside the root, whose name
  begins with that of the root, passes it.
\<close>

theorem sibling_directory_is_served:
  assumes "starts_with (cp ''/'') root" "url_rest env url_base = root @ s" "\<not> contains_sub dots (root @ s)"
  shows "filesystem_path env (Some root) url_base = Inr (root @ s)"
proof -
  have "starts_with (cp ''/'') (root @ s)" using assms(1) by (auto simp: starts_with_iff)
  then have "path_join root (root @ s) = root @ s" by (simp add: path_join_def)
  then show ?thesis using assms by (simp add: filesystem_path_def root_of_def dots_def starts_with_append)
qed

section \<open>Byte ranges\<close>

definition file_part :: "string \<Rightarrow> range \<Rightarrow> string" where
  "file_part d r = map (\<lambda>i. d ! nat i) [lower r .. upper r - 1]"

lemma get_range_part:
  assumes "wf_range (int (length d)) r" shows "get_range_data d (Some r) = Inr (file_part d r)"
proof -
  have w: "0 \<le> lower r" "lower r < upper r" "upper r \<le> int (length d)" using assms by (simp_all add: wf_range_def)
  have "take (nat (upper r - lower r)) (drop (nat (lower r)) d) = file_part d r"
  proof (rule nth_equalityI)
    show "length (take (nat (upper r - lower r)) (drop (nat (lower r)) d)) = length (file_part d r)"
      using w by (simp add: file_part_def)
    fix i assume "i < length (take (nat (upper r - lower r)) (drop (nat (lower r)) d))"
    then have "int i < upper r - lower r" "nat (lower r) + i = nat (lower r + int i)" using w by auto
    then show "take (nat (upper r - lower r)) (drop (nat (lower r)) d) ! i = file_part d r ! i"
      using w by (simp add: file_part_def)
  qed
  then show ?thesis using w by (simp add: get_range_data_def)
qed

lemma append_parts_data:
  "list_all (wf_range (int (length d))) rs \<Longrightarrow> \<exists>m'. append_parts d t (map Some rs) m = Inr m'
     \<and> map pt_data (mp_items m') = map pt_data (mp_items m) @ map (file_part d) rs"
proof (induction rs arbitrary: m)
  case (Cons r rs)
  then show ?case
    using Cons.IH [of "append_part (file_part d r) t [(''Content-Range'', PStr (header_value r))] m"]
    by (simp add: get_range_part of_option_simps append_part_def mk_part_def)
qed simp



section \<open>Errors\<close>

text \<open>
  the errors of a static file request: a null character in the path is a \<open>ValueError\<close>, a directory is
  forbidden, a missing file is not found, and nothing of the response is changed before.
\<close>

theorem file_errors:
  assumes "filesystem_path env base_path url_base = Inr p"
  shows "(0 \<in> set p \<longrightarrow> file_handler env base_path url_base st = Some (Inl ValueError, st))
    \<and> (os_isdir (he_files env) p \<longrightarrow> file_handler env base_path url_base st = Some (Inl (HTTPException 403 []), st))
    \<and> (0 \<notin> set p \<and> \<not> fl_dir (he_files env) p \<and> fl_size (he_files env) p = None
        \<longrightarrow> file_handler env base_path url_base st = Some (Inl (HTTPException 404 []), st))"
  using assms
  by (auto simp: file_handler_def os_isdir_def os_size_def serve_file_def ends_with_result_def not_found_on_os_error_def
      of_option_simps act_simps)


section \<open>Pipelines of scripts\<close>

text \<open>
  the pipeline of a URL is applied twice to what a Python script returns: once by the handler of the
  function and once by the handler of the script.
\<close>

theorem script_pipes_run_twice:
  assumes "filesystem_path env base_path url_base = Inr p" and "scripts p = Inr (Some f)"
    and "f env st = Some (Inr (RvContent c), st1)" and "\<not> contains_sub (cp ''.sub.'') p"
    and "pipe_string env p = cp s" "s \<noteq> []" "parse_pipeline s = Inr fs"
    and "run_pipeline (pipe_env_at env []) fs (st1\<lparr>rs_content := c\<rparr>) = Some (Inr (), st2)"
    and "run_pipeline (pipe_env_at env p) fs st2 = Some (Inr (), st3)"
  shows "python_script_handler scripts env base_path url_base st = Some (Inr (), st3)"
proof -
  have "contains_sub (cp ''.sub.'') [] = False" by (simp add: cp_def)
  then have "pipe_string env [] = cp s" using assms(4,5) by (simp add: pipe_string_def Let_def)
  then have w: "wrap_pipeline env [] = run_pipeline (pipe_env_at env []) fs" "wrap_pipeline env p = run_pipeline (pipe_env_at env p) fs"
    using assms(5,6,7) by (simp_all add: wrap_pipeline_def cp_def comp_def list_all_iff)
  have "function_handler env (f env) st = Some (Inr (), st2)"
    using assms(3,8) by (simp add: function_handler_def and_piped_def then_pipe_def ends_with_result_def http_errors_only_def w
        set_content_def act_simps)
  then show ?thesis
    using assms(1,2,9) by (simp add: python_script_handler_def not_found_on_os_error_def w)
qed


section \<open>Concrete requests\<close>

definition demo_url :: "string \<Rightarrow> string \<Rightarrow> url_parts" where
  "demo_url path query = \<lparr>up_scheme = ''http'', up_netloc = ''h:80'', up_path = path, up_query = query, up_fragment = []\<rparr>"

definition demo_files :: files where
  "demo_files = \<lparr>fl_dir = (\<lambda>p. p = cp ''/srv''), fl_exists = (\<lambda>p. p = cp ''/srv/a.txt''),
     fl_size = (\<lambda>p. if p = cp ''/srv/a.txt'' then Some 10 else None),
     fl_read = (\<lambda>p. if p = cp ''/srv/a.txt'' then Some ''0123456789'' else None)\<rparr>"

definition demo_env :: "string \<Rightarrow> string \<Rightarrow> raw_headers \<Rightarrow> handler_env" where
  "demo_env path query raw =
     \<lparr>he_request = \<lparr>req_method = ''GET'', req_protocol = ''HTTP/1.1'', req_path = path, req_url = ''http://h:80'' @ path,
         req_url_parts = demo_url path query, req_raw_headers = raw, req_input = new_input_file [] 0\<rparr>,
      he_doc_root = cp ''/srv'', he_url_base = ''/'', he_config = [], he_files = demo_files, he_uuid = (\<lambda>_ _. []),
      he_hash_file = (\<lambda>_. None), he_hash = (\<lambda>_ _. []), he_sleep = (\<lambda>_. None), he_gzip = id,
      he_wide_pipeline = (\<lambda>_ st. Some (Inr (), st)), he_boundary = ''b'', he_suppress = True, he_server = demo_server\<rparr>"

lemma demo_env_simps [simp]:
  "he_request (demo_env path query raw) = \<lparr>req_method = ''GET'', req_protocol = ''HTTP/1.1'', req_path = path,
     req_url = ''http://h:80'' @ path, req_url_parts = demo_url path query, req_raw_headers = raw, req_input = new_input_file [] 0\<rparr>"
  "he_doc_root (demo_env path query raw) = cp ''/srv''" "he_files (demo_env path query raw) = demo_files"
  by (simp_all add: demo_env_def)

lemma demo_rest:
  "unquote (cp path) = cp path \<Longrightarrow> path = CHR ''/'' # r \<Longrightarrow> url_rest (demo_env path query raw) ''/'' = cp r"
  by (simp add: url_rest_def demo_url_def cp_def starts_with_def)

lemma demo_paths:
  "filesystem_path (demo_env ''/none'' query raw) None ''/'' = Inr (cp ''/srv/none'')"
  "filesystem_path (demo_env ''/a.txt'' query raw) None ''/'' = Inr (cp ''/srv/a.txt'')"
proof -
  have "url_rest (demo_env ''/none'' query raw) ''/'' = cp ''none''" by (rule demo_rest, rule unquote_plain) (simp_all add: cp_def)
  then show "filesystem_path (demo_env ''/none'' query raw) None ''/'' = Inr (cp ''/srv/none'')"
    by (simp add: filesystem_path_def root_of_def cp_def path_join_def starts_with_def ends_with_def)
  have "url_rest (demo_env ''/a.txt'' query raw) ''/'' = cp ''a.txt''" by (rule demo_rest, rule unquote_plain) (simp_all add: cp_def)
  then show "filesystem_path (demo_env ''/a.txt'' query raw) None ''/'' = Inr (cp ''/srv/a.txt'')"
    by (simp add: filesystem_path_def root_of_def cp_def path_join_def starts_with_def ends_with_def)
qed

lemma demo_size: "os_size demo_files (cp ''/srv/a.txt'') = Inr 10" "os_read demo_files (cp ''/srv/a.txt'') = Inr ''0123456789''"
  "\<not> os_isdir demo_files (cp ''/srv/a.txt'')"
  by (simp_all add: os_size_def os_read_def os_isdir_def demo_files_def cp_def of_option_simps)

lemma demo_missing: "file_handler (demo_env ''/none'' [] []) None ''/'' st = Some (Inl (HTTPException 404 []), st)"
  by (simp add: file_handler_def demo_paths os_isdir_def os_size_def serve_file_def not_found_on_os_error_def demo_files_def cp_def
      of_option_simps act_simps)

lemma demo_headers: "get_headers (demo_env ''/a.txt'' query raw) (cp ''/srv/a.txt'') = Inr [[''Content-Type'', ''text/plain'']]"
proof -
  have read: "os_read demo_files (cp s) = Inl OSError" if "s \<in> {''/srv/a.txt.headers'', ''/srv/__dir__.headers''}" for s
    using that by (auto simp: os_read_def demo_files_def cp_def of_option_simps)
  have ex: "\<not> os_exists demo_files (cp s)" if "s \<in> {''/srv/a.txt.sub.headers'', ''/srv/__dir__.sub.headers''}" for s
    using that by (auto simp: os_exists_def demo_files_def cp_def)
  have eqs: "cp ''/srv/a.txt'' @ cp s = cp (''/srv/a.txt'' @ s)" "cp ''/srv/__dir__'' @ cp s = cp (''/srv/__dir__'' @ s)" for s
    by (simp_all add: cp_def)
  have "path_join (dirname (cp ''/srv/a.txt'')) (cp ''__dir__'') = cp ''/srv/__dir__''"
    "guess_content_type (cp ''/srv/a.txt'') = ''text/plain''"
    by code_simp+
  then show ?thesis
    by (simp add: get_headers_def load_headers_def load_file_def Let_def eqs read ex)
qed


theorem sibling_directory_is_served_witness:
  "filesystem_path (demo_env ''//srv-private/key'' [] []) (Some (cp ''/srv'')) ''/'' = Inr (cp ''/srv-private/key'')
   \<and> \<not> inside (cp ''/srv'') (cp ''/srv-private/key'')"
proof -
  let ?env = "demo_env ''//srv-private/key'' [] []"
  have "url_rest ?env ''/'' = cp ''/srv-private/key''" by (rule demo_rest, rule unquote_plain) (simp_all add: cp_def)
  moreover have "cp ''/srv-private/key'' = cp ''/srv'' @ cp ''-private/key''" by (simp add: cp_def)
  moreover have "\<not> contains_sub dots (cp ''/srv'' @ cp ''-private/key'')" by code_simp
  moreover have "norm_components (cp ''/srv-private/key'') = [cp ''srv-private'', cp ''key'']" "norm_components (cp ''/srv'') = [cp ''srv'']"
    by code_simp+
  then have "\<not> inside (cp ''/srv'') (cp ''/srv-private/key'')" by (simp add: inside_def cp_def)
  ultimately show ?thesis
    using sibling_directory_is_served [of "cp ''/srv''" ?env "''/''" "cp ''-private/key''"] by (simp add: starts_with_def cp_def)
qed



theorem file_errors_witness:
  "file_handler (demo_env ''/none'' [] []) None ''/'' new_response = Some (Inl (HTTPException 404 []), new_response)"
  using file_errors [OF demo_paths(1), of "[]" "[]" new_response] by (simp add: demo_files_def cp_def)



theorem script_pipes_run_twice_witness:
  "\<exists>st. python_script_handler (\<lambda>_. Inr (Some (\<lambda>_. ends_with_result (give (RvContent (CData (DBytes ''abc'')))))))
      (demo_env ''/x.py'' ''pipe=slice(1)'' []) None ''/'' new_response = Some (Inr (), st)
    \<and> rs_content st = CData (DBytes ''c'')"
proof -
  let ?env = "demo_env ''/x.py'' ''pipe=slice(1)'' []" and ?f = "\<lambda>_. ends_with_result (give (RvContent (CData (DBytes ''abc''))))"
  let ?with = "\<lambda>b n. new_response\<lparr>rs_headers := HObject [(''content-length'', ''Content-Length'', [n])], rs_content := CData (DBytes b)\<rparr>"
  have "url_rest ?env ''/'' = cp ''x.py''" by (rule demo_rest, rule unquote_plain) (simp_all add: cp_def)
  then have path: "filesystem_path ?env None ''/'' = Inr (cp ''/srv/x.py'')"
    by (simp add: filesystem_path_def root_of_def cp_def path_join_def starts_with_def ends_with_def)
  have sub: "\<not> contains_sub (cp ''.sub.'') (cp ''/srv/x.py'')" by code_simp
  have "parse_qs (cp ''pipe=slice(1)'') = [(cp ''pipe'', [cp ''slice(1)''])]"
    by (simp add: parse_qs_def split_once_def cp_def unquote_plain plus_to_space_def md_of_pairs_def md_add_def od_get_def)
  then have pipe: "pipe_string ?env (cp ''/srv/x.py'') = cp ''slice(1)''"
    using sub by (simp add: pipe_string_def demo_url_def md_last_def od_get_def)
  have parse: "parse_pipeline ''slice(1)'' = Inr [(Pipe_slice, [''1''])]" by code_simp
  have conv: "convert_args Pipe_slice [''1''] = Inr [VInt 1]" by code_simp
  have digits: "int_str 2 = ''2''" "int_str 1 = ''1''" "py_lower ''Content-Length'' = ''content-length''" by code_simp+
  have run: "run_pipeline (pipe_env_at ?env p) [(Pipe_slice, [''1''])] (new_response\<lparr>rs_content := CData (DBytes ''abc'')\<rparr>)
      = Some (Inr (), ?with ''bc'' ''2'')"
    "run_pipeline (pipe_env_at ?env p) [(Pipe_slice, [''1''])] (?with ''bc'' ''2'') = Some (Inr (), ?with ''c'' ''1'')" for p
    by (simp_all add: conv run_pipe_def opt_int_def pipe_slice_def resolve_content_def and_then_get_state iter_content_def
        is_file_def join_chunks_def py_slice_def slice_bound_def slice_of_def set_content_def headers_set_def and_then_change
        act_simps rh_set_def digits new_response_def Let_def)
  have "?f ?env new_response = Some (Inr (RvContent (CData (DBytes ''abc''))), new_response)"
    by (simp add: ends_with_result_def act_simps)
  then have "python_script_handler (\<lambda>_. Inr (Some ?f)) ?env None ''/'' new_response = Some (Inr (), ?with ''c'' ''1'')"
    by (intro script_pipes_run_twice [where f = ?f, OF path _ _ sub pipe _ parse run(1) run(2)]) simp_all
  then show ?thesis by simp
qed

end
