(* ===== verification/Server_Facts.thy ===== *)
theory Server_Facts
  imports Server Handler_Facts
begin

text \<open>
  What the server promises for every request: the handlers leave writing to it, so exactly one response is
  sent, and an exception of a handler is answered with an error response.
\<close>

section \<open>Handlers leave writing to the server\<close>

definition untouched :: "response \<Rightarrow> response \<Rightarrow> bool" where
  "untouched s t \<longleftrightarrow> w_out t = w_out s \<and> w_calls t = w_calls s \<and> w_seen t = w_seen s \<and> w_complete t = w_complete s
     \<and> w_status_written t = w_status_written s \<and> w_content_written t = w_content_written s \<and> rs_required t = rs_required s
     \<and> rs_head_body t = rs_head_body s \<and> rs_close t = rs_close s"

interpretation untouched: state_order untouched
  by unfold_locales (auto simp: untouched_def)

abbreviation quiet :: "'a writing \<Rightarrow> bool" where
  "quiet m \<equiv> steps untouched m"

definition quiet_piped :: "'a piped \<Rightarrow> bool" where
  "quiet_piped m \<longleftrightarrow> (\<forall>s r s'. m s = Some (r, s') \<longrightarrow> untouched s s')"

lemmas quiet_intros =
  untouched.steps_pure untouched.steps_and_then untouched.steps_if untouched.steps_change

lemma untouched_updates [intro!]:
  "untouched s (s\<lparr>rs_status := x\<rparr>)" "untouched s (s\<lparr>rs_headers := y\<rparr>)" "untouched s (s\<lparr>rs_content := z\<rparr>)"
  "untouched s (s\<lparr>rs_headers := y, rs_content := z\<rparr>)"
  by (simp_all add: untouched_def)

lemma quiet_set_status: "quiet (set_status v)"
  unfolding set_status_def by (auto intro!: quiet_intros split: status_value.split option.split list.split)

lemma quiet_headers: "quiet (headers_set n v)" "quiet (headers_append n v)" "quiet (headers_update items)"
  unfolding headers_set_def headers_append_def headers_update_def
  by (auto intro!: quiet_intros split: header_list.split)

lemma quiet_set_content: "quiet (set_content c)"
  unfolding set_content_def by (auto intro!: quiet_intros)

lemma quiet_set_error: "quiet (set_error b url c e)"
  unfolding set_error_def Let_def by (auto intro!: quiet_intros quiet_set_status)

lemma quiet_resolve: "quiet resolve_content"
  unfolding resolve_content_def close_content_def by (auto intro!: quiet_intros)

lemmas quiet_basic = quiet_set_status quiet_headers quiet_set_content quiet_set_error quiet_resolve

lemma quiet_pipes: "quiet (pipe_status c)" "quiet (pipe_header n v a)" "quiet (pipe_slice x y)" "quiet (pipe_gzip z)" "quiet (pipe_sub f t)"
  "quiet no_cache_headers"
  unfolding pipe_status_def pipe_header_def pipe_slice_def pipe_gzip_def pipe_sub_def no_cache_headers_def Let_def
  by (auto intro!: quiet_intros quiet_basic)

lemma quiet_pipedI: "quiet m \<Longrightarrow> quiet_piped (ends_with_result m)"
  by (auto simp: quiet_piped_def ends_with_result_def steps_def) (metis snd_conv)

lemma quiet_then_pipe: "quiet m \<Longrightarrow> (\<And>x. quiet_piped (f x)) \<Longrightarrow> quiet_piped (then_pipe m f)"
  unfolding quiet_piped_def then_pipe_def steps_def
  by (auto split: prod.splits sum.splits) (metis snd_conv untouched.le_trans)+

lemma quiet_and_piped: "quiet_piped m \<Longrightarrow> (\<And>x. quiet_piped (f x)) \<Longrightarrow> quiet_piped (and_piped m f)"
  unfolding quiet_piped_def and_piped_def
  by (auto split: option.splits prod.splits sum.splits) (metis untouched.le_trans)+

lemma quiet_guards: "quiet_piped m \<Longrightarrow> quiet_piped (not_found_on_os_error m)" "quiet_piped m \<Longrightarrow> quiet_piped (http_errors_only m)"
  unfolding quiet_piped_def not_found_on_os_error_def http_errors_only_def by auto

lemma quiet_trickle: "quiet_piped (pipe_trickle sleep d)"
proof -
  let ?m = "and_then (of_res (parse_delays sleep d)) (\<lambda>ds. and_then resolve_content
      (\<lambda>content. and_then no_cache_headers (\<lambda>_. give (ds, content))))"
  have "quiet ?m" by (intro quiet_intros quiet_basic quiet_pipes)
  moreover have "quiet_piped (\<lambda>st. map_option (\<lambda>items. (Inr (), st\<lparr>rs_content := CItems items\<rparr>)) t)" for t
    by (auto simp: quiet_piped_def)
  moreover have "pipe_trickle sleep d =
      then_pipe ?m (\<lambda>x st. map_option (\<lambda>items. (Inr (), st\<lparr>rs_content := CItems items\<rparr>)) (trickle_items (snd x) (fst x)))"
    by (rule ext) (simp add: pipe_trickle_def then_pipe_def split: prod.split sum.split)
  ultimately show ?thesis by (simp add: quiet_then_pipe)
qed

lemma quiet_run_pipe: "quiet_piped (run_pipe env p vals)"
  unfolding quiet_piped_def run_pipe_def
  using quiet_trickle [unfolded quiet_piped_def]
  by (auto split: pipe_name.splits list.splits pipe_value.splits intro: untouched.le_refl dest: quiet_pipes [THEN stepsD])

lemma quiet_run_pipeline: "quiet_piped (run_pipeline env fs)"
proof (induction fs)
  case Nil
  then show ?case by (simp add: quiet_piped_def untouched_def)
next
  case (Cons pa fs)
  obtain p args where pa: "pa = (p, args)" by (cases pa)
  show ?case
    unfolding quiet_piped_def
  proof (intro allI impI)
    fix s r s' assume run: "run_pipeline env (pa # fs) s = Some (r, s')"
    show "untouched s s'"
    proof (cases "convert_args p args")
      case (Inl e)
      then show ?thesis using run by (simp add: pa untouched_def)
    next
      case (Inr vals)
      then obtain r1 s1 where r1: "run_pipe env p vals s = Some (r1, s1)"
        using run by (auto simp: pa split: option.splits)
      then have "untouched s s1" using quiet_run_pipe unfolding quiet_piped_def by blast
      moreover have "r1 = Inl e \<Longrightarrow> s' = s1" "r1 = Inr u \<Longrightarrow> run_pipeline env fs s1 = Some (r, s')" for e u
        using run by (simp_all add: pa Inr r1)
      then have "untouched s1 s'" using Cons untouched.le_refl unfolding quiet_piped_def by (cases r1) blast+
      ultimately show ?thesis by (rule untouched.le_trans)
    qed
  qed
qed

section \<open>Handlers\<close>

text \<open>What scripts, other handlers and unusual pipelines must not do.\<close>

definition quiet_env :: "handler_env \<Rightarrow> bool" where
  "quiet_env env \<longleftrightarrow> (\<forall>s. quiet_piped (he_wide_pipeline env s))"

definition quiet_site :: "site \<Rightarrow> bool" where
  "quiet_site site \<longleftrightarrow> (\<forall>p f env. si_scripts site p = Inr (Some f) \<longrightarrow> quiet_piped (f env)) \<and> (\<forall>n env. quiet_piped (si_given site n env))"

lemma quiet_wrap: "quiet_env env \<Longrightarrow> quiet_piped (wrap_pipeline env path)"
  unfolding wrap_pipeline_def Let_def quiet_env_def
  by (auto intro!: quiet_pipedI quiet_intros quiet_then_pipe quiet_run_pipeline)

lemma quiet_update_lines: "quiet (update_lines ls)" "quiet (set_lines ls)"
  by (induction ls) (auto intro!: quiet_intros quiet_basic split: list.split)

lemma quiet_byte_ranges: "quiet (byte_ranges env n)"
  unfolding byte_ranges_def by (auto intro!: quiet_intros quiet_basic split: sum.split exc.split)

lemma quiet_get_data: "quiet (get_data env p rs)"
  unfolding get_data_def set_response_multipart_def Let_def
  by (auto intro!: quiet_intros quiet_basic split: option.split list.split)

lemmas quiet_rules =
  quiet_intros quiet_basic quiet_then_pipe quiet_and_piped quiet_guards quiet_pipedI quiet_wrap quiet_update_lines
  quiet_byte_ranges quiet_get_data

lemma quiet_file_handler: "quiet_env env \<Longrightarrow> quiet_piped (file_handler env b u)"
  unfolding file_handler_def serve_file_def by (auto intro!: quiet_rules)

lemma quiet_function_handler: "quiet_env env \<Longrightarrow> quiet_piped func \<Longrightarrow> quiet_piped (function_handler env func)"
  unfolding function_handler_def Let_def by (auto intro!: quiet_rules split: handler_result.split)

lemma quiet_script_handler: "quiet_env env \<Longrightarrow> quiet_site site \<Longrightarrow> quiet_piped (python_script_handler (si_scripts site) env b u)"
proof -
  assume env: "quiet_env env" and site: "quiet_site site"
  have "quiet_piped (then_pipe (of_res (si_scripts site path)) (\<lambda>main. case main of
      Some f \<Rightarrow> and_piped (function_handler env (f env)) (\<lambda>_. wrap_pipeline env path)
    | None \<Rightarrow> ends_with_result (raise (HTTPException 500 (''No main function in script '' @ shown_path path)))))" for path
  proof (cases "si_scripts site path")
    case (Inl e)
    then show ?thesis using untouched.le_refl by (auto simp: quiet_piped_def)
  next
    case (Inr m)
    then show ?thesis using env site
      by (cases m) (auto simp: quiet_site_def intro!: quiet_rules quiet_function_handler)
  qed
  then have "quiet_piped (not_found_on_os_error (then_pipe (of_res (si_scripts site path)) (\<lambda>main. case main of
      Some f \<Rightarrow> and_piped (function_handler env (f env)) (\<lambda>_. wrap_pipeline env path)
    | None \<Rightarrow> ends_with_result (raise (HTTPException 500 (''No main function in script '' @ shown_path path))))))" for path
    by (rule quiet_guards)
  then show ?thesis unfolding python_script_handler_def by (rule quiet_then_pipe [OF untouched.steps_pure(3)])
qed

lemma quiet_other_handlers:
  "quiet_env env \<Longrightarrow> quiet_piped (redirect_handler env l)"
  "quiet_env env \<Longrightarrow> quiet_piped (string_handler env d c hs)"
  "quiet_env env \<Longrightarrow> quiet_piped (static_handler env p a c hs)"
  "quiet_env env \<Longrightarrow> quiet_piped (wrapper_handler env k b u)"
  "quiet_piped (error_handler env st)"
  unfolding redirect_handler_def string_handler_def static_handler_def wrapper_handler_def error_handler_def wrapper_request_def
  by (auto intro!: quiet_rules quiet_function_handler)

lemma quiet_injector: "quiet_piped h \<Longrightarrow> quiet_piped (script_injector f s h)"
  unfolding script_injector_def by (auto intro!: quiet_rules split: header_list.split list.split content.split)

text \<open>Every handler but the one for \<open>.asis\<close> files, which sends the file itself.\<close>

fun server_writes :: "handler \<Rightarrow> bool" where
  "server_writes (Made c _ _) \<longleftrightarrow> c \<noteq> As_Is_Handler"
| "server_writes (Script_Injector _ h) \<longleftrightarrow> server_writes h"
| "server_writes _ \<longleftrightarrow> True"

lemma quiet_handler:
  assumes "quiet_site site" "quiet_env env" shows "server_writes h \<Longrightarrow> quiet_piped (run_handler site env h)"
proof (induction h)
  case (Made c b u)
  then show ?case using assms
    by (cases c) (simp_all add: Let_def quiet_file_handler quiet_script_handler quiet_other_handlers)
qed (use assms in \<open>simp_all add: quiet_other_handlers quiet_injector quiet_site_def\<close>)


section \<open>One response per request\<close>

lemma handle_safely_untouched:
  assumes "quiet_site site" "quiet_env env" "\<And>x. h = Some x \<Longrightarrow> server_writes x" "handle_safely site env h st = Some (r, st1)"
  shows "r = Inr () \<and> untouched st st1"
proof -
  have err: "set_error b url c e s = (r', s') \<Longrightarrow> r' = Inr () \<and> untouched s s'" for b url c e s r' s'
    using set_error_sets [of b url c e s] quiet_set_error [THEN stepsD] by auto
  show ?thesis
  proof (cases h)
    case None
    then show ?thesis using assms(4) err by (auto simp: handle_safely_def)
  next
    case (Some x)
    have "quiet_env (with_bases x env)" using assms(2) by (simp add: quiet_env_def with_bases_def)
    then have q: "quiet_piped (run_handler site (with_bases x env) x)" using quiet_handler assms(1,3) Some by blast
    obtain r2 s2 where run: "run_handler site (with_bases x env) x st = Some (r2, s2)"
      using assms(4) by (auto simp: handle_safely_def Some split: option.splits)
    then have u: "untouched st s2" using q unfolding quiet_piped_def by blast
    show ?thesis
    proof (cases r2)
      case (Inl e)
      then have "answer_error site env e s2 = (r, st1)" using assms(4) run by (simp add: handle_safely_def Some)
      then have "r = Inr () \<and> untouched s2 st1" unfolding answer_error_def by (rule err)
      then show ?thesis using u untouched.le_trans by blast
    next
      case (Inr a)
      then show ?thesis using assms(4) run u by (simp add: handle_safely_def Some)
    qed
  qed
qed

lemma finish_handling_eq:
  assumes "handle_safely site env h st = Some (Inr (), st1)" "\<not> w_content_written st1"
  shows "finish_handling site env h close st = Some (case write_response (he_server env) st1 of
      (Inl e, st2) \<Rightarrow> (Inl e, st2)
    | (Inr _, st2) \<Rightarrow> (if close \<or> rs_close st2 then Inr True
                      else map_sum id (\<lambda>_. False) (fst (in_read (- 1) (req_input (he_request env)))), st2))"
  using assms
  by (cases "write_response (he_server env) st1"; cases "fst (write_response (he_server env) st1)";
      cases "fst (in_read (- 1) (req_input (he_request env)))")
    (auto simp: finish_handling_def ends_with_result_def and_then_get_state act_simps Let_def)



section \<open>Exceptions of handlers\<close>

definition status_of :: "exc \<Rightarrow> int" where
  "status_of e = (case e of HTTPException code _ \<Rightarrow> code | _ \<Rightarrow> 500)"

text \<open>The bytes of an error response with this body.\<close>

definition error_response :: "server_env \<Rightarrow> int \<Rightarrow> string \<Rightarrow> string" where
  "error_response sv code body =
     rq_protocol sv @ '' '' @ int_str code @ '' '' @ default_message code @ CRLF
     @ concat (map header_line [(''Content-Type'', ''application/json''), (''Content-Length'', int_str (int (length body))),
         (''Server'', version_string sv), (''Date'', date_string sv)])
     @ CRLF @ (if rq_method sv = ''HEAD'' then [] else body)"

lemma lower_content_type: "py_lower ''Content-Type'' = ''content-type''"
  by code_simp

lemma error_sent:
  assumes "untouched new_response st" "is_ascii (version_string sv)" "is_ascii (date_string sv)"
  shows "\<exists>st1 body. set_error b url code e st = (Inr (), st1) \<and> list_all (printable \<circ> of_char) body
     \<and> (\<exists>st2. write_response (working sv) st1 = (Inr (), st2) \<and> w_out st2 = error_response sv code body \<and> rs_close st2 = False)"
proof -
  let ?items = "\<lambda>n. [(''Content-Type'', PStr ''application/json''), (''Content-Length'', PInt n)]"
  obtain d body n where e: "set_error b url code e st = (Inr (), st\<lparr>rs_status := (code, None),
         rs_headers := HList (map (\<lambda>(k, v). (PStr k, v)) (?items n)), rs_content := CData d\<rparr>)"
      "encode d = Inr body" "n = int (length body)" "list_all (printable \<circ> of_char) body"
    using set_error_sets [of b url code e st] by auto
  let ?st1 = "st\<lparr>rs_status := (code, None), rs_headers := HList (map (\<lambda>(k, v). (PStr k, v)) (?items n)), rs_content := CData d\<rparr>"
  have fresh: "rs_required ?st1" "w_seen ?st1 = {}" "w_out ?st1 = []" "rs_head_body ?st1 = False" "rs_close ?st1 = False"
    using assms(1) by (simp_all add: untouched_def new_response_def)
  have ascii: "list_all (\<lambda>(k, v). is_ascii k \<and> (case v of PStr t \<Rightarrow> is_ascii t | _ \<Rightarrow> True)) (?items n)"
    by (simp add: is_ascii_def)
  have msg: "status_text ?st1 = Inr (default_message code)" by (simp add: status_text_def iso_encode_val_def)
  obtain st2 where "write_response (working sv) ?st1 = (Inr (), st2)" "rs_close st2 = False"
    "w_out st2 = status_line sv ?st1 (default_message code) @ concat (map (\<lambda>(k, v). header_line (k, maybe_encode v)) (?items n))
         @ concat (map header_line (added_headers sv ((py_lower \<circ> fst) ` set (?items n)) (length body)))
         @ CRLF @ (if rq_method sv = ''HEAD'' then [] else body)"
    using list_response_sent [OF _ ascii _ e(2) msg fresh(1,2) assms(2,3)] fresh by auto
  moreover have "w_out st2 = error_response sv code body"
    unfolding calculation(3) error_response_def e(3)
    by (simp add: status_line_def added_headers_def lower_content_type)
  ultimately show ?thesis using e(1,4) by blast
qed


section \<open>Requests without an answer\<close>

text \<open>
  C9: a request that cannot be made an object of (as with a \<open>Content-Length\<close> that is not a number), or that was
  upgraded to HTTPS on the landing page, gets no byte of a response, and the connection stays open whenever
  the parser of the request kept it open.
\<close>

theorem unanswered_requests:
  assumes "l \<noteq> []" and "length l \<le> max_line"
    and "rewrite (srv_rules srv) (hd_command head) (hd_path head) = Inr path"
    and "mk_request (head\<lparr>hd_path := path\<rparr>) = rq"
    and "(\<exists>e. rq = Inl e) \<or> (\<exists>r. rq = Inr r \<and> req_method r \<noteq> ''CONNECT'' \<and> upgraded_landing_page r)"
  shows "handle_one_request srv (Read_Line l) (Parsed head close) = Some ([], close)"
proof -
  have "get_request_line (Read_Line l) = (False, True)" using assms(1,2) by (simp add: get_request_line_def)
  moreover have "\<exists>e. finish_handling_h1 srv True head close new_response = Some (Inl e, new_response)"
    using assms(3-5) by (elim disjE exE) (auto simp: finish_handling_h1_def Let_def ends_with_result_def raise_def)
  ultimately show ?thesis by (auto simp: handle_one_request_def new_response_def)
qed


section \<open>Delivery of a file\<close>

lemma concat_file_chunks: "0 < n \<Longrightarrow> concat (file_chunks n xs) = xs"
  by (induction n xs rule: file_chunks.induct) (subst file_chunks.simps, auto)

definition added_file_headers :: "server_env \<Rightarrow> string set \<Rightarrow> (string \<times> string) list" where
  "added_file_headers env names = filter (\<lambda>(k, _). py_lower k \<notin> names) [(''Server'', version_string env), (''Date'', date_string env)]"

lemma file_ends_headers:
  assumes "w_status_written s" "rs_content s = CFile f" "rs_required s" "is_ascii (version_string env)" "is_ascii (date_string env)"
  shows "\<exists>s'. ends_headers env s (concat (map header_line (added_file_headers env (w_seen s))) @ CRLF) (''content-length'' \<notin> w_seen s) s'"
proof -
  let ?line = "\<lambda>k v. if py_lower k \<in> w_seen s then [] else header_line (k, v)"
  obtain s1 where s1: "sends (write_missing_header (working env) ''Server'' (PStr (version_string env))) s True
      (?line ''Server'' (version_string env)) {''server''} s1"
    using sends_missing_header [OF assms(1), of "''Server''" "PStr (version_string env)" "version_string env" env] assms(4)
    by (auto simp: encode_val_ascii)
  have w1: "w_status_written s1" and seen: "''date'' \<in> w_seen s1 \<longleftrightarrow> ''date'' \<in> w_seen s" using s1 assms(1) by (auto simp: sends_def)
  obtain s2 where s2: "sends (write_missing_header (working env) ''Date'' (PStr (date_string env))) s1 True
      (?line ''Date'' (date_string env)) {''date''} s2"
    using sends_missing_header [OF w1, of "''Date''" "PStr (date_string env)" "date_string env" env] assms(5) seen
    by (auto simp: encode_val_ascii)
  have s3: "sends (and_then get_state (\<lambda>st. case rs_content st of
        CData d \<Rightarrow> if seen_header ''content-length'' st then give True
          else and_then (of_res (encode d)) (\<lambda>b. write_header (working env) (PStr ''Content-Length'') (PInt (int (length b))))
      | _ \<Rightarrow> give True)) s2 True [] {} s2"
    using s1 s2 assms(2) by (simp add: sends_def and_then_get_state give_def)
  have strings: "version_string (working env) = version_string env" "date_string (working env) = date_string env"
    by (simp_all add: working_def)
  have d: "sends (write_default_headers (working env)) s True
      (?line ''Server'' (version_string env) @ ?line ''Date'' (date_string env) @ []) ({''server''} \<union> ({''date''} \<union> {})) s2"
    unfolding write_default_headers_def strings by (rule sends_or_fail_at [OF s1 sends_or_fail_at [OF s2 s3]])
  obtain s4 where s4: "sends (write_val (working env) (PStr CRLF)) s2 True CRLF {} s4"
    using sends_write_val [OF encode_val_ascii, of CRLF] by auto
  have "end_headers (working env) s =
      (Inr True, s4\<lparr>rs_close := rs_close s4 \<or> \<not> seen_header ''content-length'' s4, w_complete := True\<rparr>)"
    using d s4 assms(3) by (simp add: end_headers_def and_then_get_state or_fail_def and_then_change act_simps sends_def)
  then show ?thesis
    using d s4 assms(1) by (simp add: ends_headers_def sends_def seen_header_def added_file_headers_def)
qed

lemma file_content_sent:
  assumes "rs_content st = CFile \<lparr>file_rest = body, file_closed = False\<rparr>" "w_complete st" "w_status_written st" "rq_method env \<noteq> ''HEAD''"
  shows "\<exists>st'. write_content (working env) st = (Inr (), st') \<and> w_out st' = w_out st @ body \<and> rs_close st' = rs_close st"
proof -
  have pieces: "\<exists>s'. sends (for_each (write_file_chunk (working env)) (map (\<lambda>p. Inr (Plain (DBytes p))) ps)) s () (concat ps) {} s'"
    if "is_file (rs_content s)" "w_complete s" "w_status_written s" for ps s
    using that
  proof (induction ps arbitrary: s)
    case (Cons p ps)
    obtain s1 where s1: "sends (write_encoded (working env) (Inr p)) s True p {} s1" using sends_write_encoded [OF refl] by blast
    then have "sends (write_file_chunk (working env) (Inr (Plain (DBytes p)))) s () p {} s1"
      using Cons.prems by (simp add: write_file_chunk_def writer_content_def write_raw_content_def write_data_def encode_def
          and_then_get_state sends_def give_def)
    moreover have "is_file (rs_content s1)" "w_complete s1" "w_status_written s1" using s1 Cons.prems by (simp_all add: sends_def)
    from Cons.IH [OF this] obtain s2 where "sends (for_each (write_file_chunk (working env)) (map (\<lambda>p. Inr (Plain (DBytes p))) ps)) s1 ()
        (concat ps) {} s2" by blast
    ultimately show ?case by (auto simp: sends_def)
  qed (simp add: sends_give)
  have chunks: "iter_content (rs_content st) = map (\<lambda>p. Inr (Plain (DBytes p))) (file_chunks (32 * 1024) body)"
    by (simp add: assms(1) iter_content_def)
  obtain s1 where s1: "sends (for_each (write_file_chunk (working env)) (iter_content (rs_content st))) st () body {} s1"
    unfolding chunks using pieces [of st "file_chunks (32 * 1024) body"] assms(1-3) by (auto simp: is_file_def concat_file_chunks)
  then have "write_content (working env) st = (Inr (), s1\<lparr>rs_content := CFile \<lparr>file_rest = [], file_closed = True\<rparr>\<rparr>)"
    using assms by (simp add: write_content_def and_then_get_state is_file_def sends_def close_content_def change_def working_def)
  then show ?thesis using s1 by (simp add: sends_def)
qed

lemma update_pairs:
  "rs_headers st = HObject h \<Longrightarrow> update_lines (map (\<lambda>(k, v). [k, v]) hs) st
     = (Inr (), st\<lparr>rs_headers := HObject (rh_update (map (\<lambda>(k, v). (PBytes k, PBytes v)) hs) h)\<rparr>)"
proof (induction hs arbitrary: st h)
  case (Cons kv hs)
  obtain k v where kv: "kv = (k, v)" by (cases kv)
  let ?st = "st\<lparr>rs_headers := HObject (rh_append (PBytes k) (PBytes v) h)\<rparr>"
  have "headers_update [(PBytes k, PBytes v)] st = (Inr (), ?st)"
    using Cons.prems by (simp add: headers_update_def and_then_get_state rh_update_def change_def)
  then show ?case using Cons.IH [of ?st] by (simp add: kv rh_update_def)
qed (simp add: give_def rh_update_def)

lemma file_handler_plain:
  assumes "filesystem_path env b u = Inr p" and "\<not> os_isdir (he_files env) p" and "os_size (he_files env) p = Inr n"
    and "os_read (he_files env) p = Inr body" and "get_headers env p = Inr (map (\<lambda>(k, v). [k, v]) hs)"
    and "\<not> rq_contains (he_headers env) ''Range''" and "pipe_string env p = []" and "rs_headers st = HObject h"
  shows "file_handler env b u st = Some (Inr (),
     st\<lparr>rs_headers := HObject (rh_update (map (\<lambda>(k, v). (PBytes k, PBytes v)) hs) h),
        rs_content := CFile \<lparr>file_rest = body, file_closed = False\<rparr>\<rparr>)"
proof -
  have "serve_file env p st = (Inr (), st\<lparr>rs_headers := HObject (rh_update (map (\<lambda>(k, v). (PBytes k, PBytes v)) hs) h),
        rs_content := CFile \<lparr>file_rest = body, file_closed = False\<rparr>\<rparr>)"
    using assms by (simp add: serve_file_def update_pairs byte_ranges_def get_data_def set_content_def of_option_simps change_def)
  then show ?thesis using assms(1,2,7)
    by (simp add: file_handler_def not_found_on_os_error_def wrap_pipeline_def ends_with_result_def give_def)
qed

definition header_dict :: "(string \<times> string) list \<Rightarrow> resp_headers" where
  "header_dict hs = rh_update (map (\<lambda>(k, v). (PBytes k, PBytes v)) hs) []"

lemma no_item_of_name:
  assumes "\<not> rh_contains (header_dict hs) (PStr n)"
  shows "py_lower n \<notin> (py_lower \<circ> fst) ` set (rh_items (header_dict hs))"
proof -
  have "rh_inv (header_dict hs)" unfolding header_dict_def by (rule rh_inv_update) simp
  from rh_items_values [OF this, of "PStr n"]
  moreover have "rh_values (header_dict hs) (PStr n) = []"
    using assms by (auto simp: rh_values_alt rh_contains_def split: option.split)
  ultimately have "filter (\<lambda>(k, v). py_lower k = py_lower n) (rh_items (header_dict hs)) = []" by simp
  then show ?thesis by (auto simp: filter_empty_conv)
qed

text \<open>
  C8: what a client gets for a file: status 200, the headers of the file's header files and its content type, and
  exactly the bytes of the file; without a length among the headers the end of the file is the end of the
  connection.
\<close>

theorem file_is_delivered:
  assumes "filesystem_path (with_bases (Made File_Handler b u) env) (map_option cp b) u = Inr p"
    and "\<not> os_isdir (he_files env) p" and "os_size (he_files env) p = Inr n" and "os_read (he_files env) p = Inr body"
    and "get_headers (with_bases (Made File_Handler b u) env) p = Inr (map (\<lambda>(k, v). [k, v]) hs)"
    and "\<not> rh_contains (header_dict hs) (PStr ''Content-Length'')"
    and "\<not> rq_contains (he_headers env) ''Range''" and "pipe_string env p = []"
    and "he_server env = working sv" and "rq_method sv \<noteq> ''HEAD''" and "is_ascii (version_string sv)" and "is_ascii (date_string sv)"
  shows "\<exists>st'. finish_handling site env (Some (Made File_Handler b u)) close new_response = Some (Inr True, st')
     \<and> w_out st' = rq_protocol sv @ '' 200 OK'' @ CRLF
         @ concat (map header_line (rh_items (header_dict hs)
             @ added_file_headers sv ((py_lower \<circ> fst) ` set (rh_items (header_dict hs))))) @ CRLF @ body"
proof -
  let ?env = "with_bases (Made File_Handler b u) env" and ?names = "(py_lower \<circ> fst) ` set (rh_items (header_dict hs))"
  let ?st = "new_response\<lparr>rs_headers := HObject (header_dict hs), rs_content := CFile \<lparr>file_rest = body, file_closed = False\<rparr>\<rparr>"
  let ?extra = "concat (map header_line (added_file_headers sv ?names)) @ CRLF"
  have same: "he_files ?env = he_files env" "he_request ?env = he_request env" "pipe_string ?env p = pipe_string env p"
    by (simp_all add: with_bases_def pipe_string_def)
  have "file_handler ?env (map_option cp b) u new_response = Some (Inr (), ?st)"
    using file_handler_plain [OF assms(1) _ _ _ assms(5), of n body new_response "[]"] assms(2-4,7,8)
    by (simp add: same new_response_def header_dict_def)
  then have safely: "handle_safely site env (Some (Made File_Handler b u)) new_response = Some (Inr (), ?st)"
    by (simp add: handle_safely_def)
  have code: "int_str 200 = ''200''" by code_simp
  have st: "status_text ?st = Inr ''OK''" "rs_required ?st" "w_seen ?st = {}" "w_out ?st = []"
    "status_line sv ?st ''OK'' = rq_protocol sv @ '' 200 OK'' @ CRLF"
    by (simp_all add: new_response_def status_text_def iso_encode_val_def default_message_def response_codes_def status_line_def code)
  have items: "\<And>s. w_status_written s \<Longrightarrow> \<exists>s'. sends (for_each (\<lambda>(k, v). and_then (write_header (working sv) k v) (\<lambda>_. give ()))
        (header_items (rs_headers ?st))) s () (concat (map header_line (rh_items (header_dict hs)))) ?names s'"
    using sends_object_headers by simp
  have ends: "\<exists>s'. ends_headers sv s ?extra True s'"
    if "w_status_written s" "w_seen s = ?names" "rs_content s = rs_content ?st" "rs_required s" for s
    using file_ends_headers [of s _ sv] that assms(11,12) no_item_of_name [OF assms(6)] by force
  obtain st3 where st3: "write_status_headers (working sv) ?st = (Inr (), st3)" "w_complete st3" "w_status_written st3"
    "w_out st3 = rq_protocol sv @ '' 200 OK'' @ CRLF @ concat (map header_line (rh_items (header_dict hs))) @ ?extra"
    "rs_content st3 = CFile \<lparr>file_rest = body, file_closed = False\<rparr>" "rs_close st3"
    using headers_sent [OF st(1-3) items ends] st(4,5) by auto
  obtain st4 where st4: "write_content (working sv) st3 = (Inr (), st4)" "w_out st4 = w_out st3 @ body" "rs_close st4"
    using file_content_sent [OF st3(5,2,3) assms(10)] st3(6) by auto
  have "write_response (working sv) ?st = (Inr (), st4)" using st3(1) st4(1) by (simp add: write_response_def)
  then have "finish_handling site env (Some (Made File_Handler b u)) close new_response = Some (Inr True, st4)"
    using finish_handling_eq [OF safely] st4(3) assms(9) by (simp add: new_response_def)
  then show ?thesis using st3(4) st4(2) by simp
qed

section \<open>Rewriting\<close>

definition origin_form :: "string \<Rightarrow> bool" where
  "origin_form p \<longleftrightarrow> starts_with ''/'' p \<and> \<not> starts_with ''//'' p
     \<and> list_all (\<lambda>c. c \<notin> {CHR 0x09, CHR 0x0A, CHR 0x0D, CHR ''#'', CHR ''?''}) p"

definition query_text :: "string \<Rightarrow> string" where
  "query_text q = (if q = [] then [] else ''?'' @ q)"

lemma urlsplit_origin_form:
  assumes "origin_form p" "list_all (\<lambda>c. c \<notin> {CHR 0x09, CHR 0x0A, CHR 0x0D, CHR ''#''}) q"
  shows "urlsplit (p @ query_text q) = Inr \<lparr>up_scheme = [], up_netloc = [], up_path = p, up_query = q, up_fragment = []\<rparr>"
proof -
  obtain r where p: "p = CHR ''/'' # r" using assms(1) by (cases p) (auto simp: origin_form_def starts_with_def)
  let ?s = "p @ query_text q"
  have filt: "filter (\<lambda>c. c \<notin> {CHR 0x09, CHR 0x0A, CHR 0x0D}) (dropWhile (\<lambda>c. (of_char c :: nat) \<le> 32) ?s) = ?s"
  proof -
    have "dropWhile (\<lambda>c. (of_char c :: nat) \<le> 32) ?s = ?s" by (simp add: p)
    moreover have "filter (\<lambda>c. c \<notin> {CHR 0x09, CHR 0x0A, CHR 0x0D}) ?s = ?s"
      using assms by (intro filter_True) (auto simp: origin_form_def query_text_def list_all_iff)
    ultimately show ?thesis by simp
  qed
  obtain t d where colon: "break_at '':'' ?s = (CHR ''/'' # t, d)" by (simp add: break_at_def p)
  have slashes: "\<not> starts_with ''//'' ?s"
    using assms(1) p by (cases r) (auto simp: origin_form_def starts_with_def query_text_def)
  have hash: "break_at ''#'' ?s = (?s, [])"
    using assms by (auto simp: break_at_def origin_form_def query_text_def list_all_iff takeWhile_eq_all_conv dropWhile_eq_Nil_conv)
  have no_mark: "\<forall>c \<in> set p. c \<notin> set ''?''" using assms(1) by (auto simp: origin_form_def list_all_iff)
  have mark: "break_at ''?'' ?s = (p, query_text q)"
    unfolding break_at_def using no_mark by (cases q) (auto simp: query_text_def takeWhile_append2 dropWhile_append2)
  have rest: "drop 1 (query_text q) = q" by (simp add: query_text_def)
  have letter: "\<not> is_upper CHR ''/''" "\<not> is_lower CHR ''/''" by (simp_all add: is_upper_def is_lower_def)
  show ?thesis
    unfolding urlsplit_def Let_def filt colon
    by (simp only: prod.case list.sel letter simp_thms if_False slashes hash mark rest drop_Nil list.set empty_iff not_True_eq_False)
qed

text \<open>
  rewriting changes the path of a request only, keeps its query, and uses the first rule of the list for the
  path, if that rule admits the method; other requests are not changed.
\<close>

theorem rewriting_changes_path_only:
  assumes "origin_form p" and "list_all (\<lambda>c. c \<notin> {CHR 0x09, CHR 0x0A, CHR 0x0D, CHR ''#''}) q"
  shows "rewrite (new_rewriter rules) m (p @ query_text q) = Inr
    ((case find (\<lambda>(_, i, _). i = p) rules of
        Some (ms, _, d) \<Rightarrow> if (case ms of One_Method k \<Rightarrow> k \<in> {''*'', m} | Some_Methods l \<Rightarrow> ''*'' \<in> set l \<or> m \<in> set l) then d else p
      | None \<Rightarrow> p) @ query_text q)"
proof -
  let ?val = "\<lambda>(ms, i, d). (i, (case ms of One_Method m \<Rightarrow> [m] | Some_Methods l \<Rightarrow> l, d))"
  have "new_rewriter rules = fold (\<lambda>(k, v). od_set k v) (map ?val (rev rules)) []"
    by (simp add: new_rewriter_def register_rule_def [abs_def] fold_map comp_def split_def)
  then have "od_get (new_rewriter rules) p = map_of (map ?val rules) p"
    by (simp add: od_get_put_all rev_map)
  also have "\<dots> = (case find (\<lambda>(_, i, _). i = p) rules of None \<Rightarrow> None | Some r \<Rightarrow> Some (snd (?val r)))"
    by (induction rules) auto
  finally have rules: "od_get (new_rewriter rules) p = (case find (\<lambda>(_, i, _). i = p) rules of None \<Rightarrow> None | Some r \<Rightarrow> Some (snd (?val r)))" .
  have unsplit: "urlunsplit \<lparr>up_scheme = [], up_netloc = [], up_path = d, up_query = q, up_fragment = []\<rparr> = d @ query_text q" for d
    by (simp add: urlunsplit_def query_text_def)
  show ?thesis
    unfolding rewrite_def urlsplit_origin_form [OF assms]
    by (auto simp: rules unsplit split: option.split rule_methods.splits)
qed


section \<open>Concrete requests\<close>

definition demo_site :: site where
  "demo_site = \<lparr>si_scripts = (\<lambda>_. Inl OSError), si_given = (\<lambda>_ _. ends_with_result (give ())), si_inject = (\<lambda>h _. h),
     si_describe = (\<lambda>_. NoError)\<rparr>"

definition served :: "string \<Rightarrow> handler_env" where
  "served path = (demo_env path [] [])\<lparr>he_server := working demo_server\<rparr>"

lemma quiet_demo: "quiet_site demo_site" "quiet_env (served path)"
  by (auto simp: quiet_site_def demo_site_def quiet_env_def served_def demo_env_def quiet_piped_def ends_with_result_def act_simps
      intro: untouched.le_refl)

lemma with_server_parts:
  "template_env_at (env\<lparr>he_server := sv\<rparr>) = template_env_at env"
  "pipe_string (env\<lparr>he_server := sv\<rparr>) = pipe_string env"
  "byte_ranges (env\<lparr>he_server := sv\<rparr>) = byte_ranges env"
  "set_response_multipart (env\<lparr>he_server := sv\<rparr>) = set_response_multipart env"
  "root_of (env\<lparr>he_server := sv\<rparr>) = root_of env"
  "url_rest (env\<lparr>he_server := sv\<rparr>) = url_rest env"
  by (rule ext, simp add: template_env_at_def pipe_string_def byte_ranges_def root_of_def url_rest_def Let_def
      cong: option.case_cong | simp add: set_response_multipart_def Let_def)+

lemma with_server_loads:
  "pipe_env_at (env\<lparr>he_server := sv\<rparr>) = pipe_env_at env"
  "load_file (env\<lparr>he_server := sv\<rparr>) = load_file env"
  "get_data (env\<lparr>he_server := sv\<rparr>) = get_data env"
  by (rule ext, simp add: pipe_env_at_def load_file_def with_server_parts Let_def cong: sum.case_cong if_cong
    | intro ext, simp add: get_data_def with_server_parts cong: option.case_cong if_cong)+

lemma with_server:
  "filesystem_path (env\<lparr>he_server := sv\<rparr>) = filesystem_path env"
  "wrap_pipeline (env\<lparr>he_server := sv\<rparr>) = wrap_pipeline env"
  "get_headers (env\<lparr>he_server := sv\<rparr>) = get_headers env"
  "serve_file (env\<lparr>he_server := sv\<rparr>) = serve_file env"
  "file_handler (env\<lparr>he_server := sv\<rparr>) = file_handler env"
  by (intro ext, simp add: filesystem_path_def wrap_pipeline_def get_headers_def load_headers_def serve_file_def file_handler_def
      with_server_parts with_server_loads Let_def)+

lemma served_simps [simp]:
  "he_server (served path) = working demo_server" "he_files (served path) = demo_files"
  "he_request (served path) = he_request (demo_env path [] [])"
  "with_bases (Made File_Handler None ''/'') (served path) = served path"
  "filesystem_path (served path) = filesystem_path (demo_env path [] [])"
  "get_headers (served path) = get_headers (demo_env path [] [])"
  "file_handler (served path) = file_handler (demo_env path [] [])"
  "pipe_string (served path) = pipe_string (demo_env path [] [])"
  unfolding served_def with_server with_server_parts by (simp_all add: with_bases_def handler_bases_def)

lemma served_view: "view [] 0 0 (new_input_file [] 0)"
  by (simp add: view_def new_input_file_def)

lemma demo_missing_run: "run_handler demo_site (with_bases (Made File_Handler None ''/'') (served ''/none'')) (Made File_Handler None ''/'') new_response
    = Some (Inl (HTTPException 404 []), new_response)"
  by (simp add: demo_missing)

lemma demo_server_ascii: "is_ascii (version_string demo_server)" "is_ascii (date_string demo_server)"
  by (simp_all add: demo_server_def is_ascii_def)



theorem file_is_delivered_witness:
  "\<exists>st'. finish_handling demo_site (served ''/a.txt'') (Some (Made File_Handler None ''/'')) False new_response = Some (Inr True, st')
     \<and> w_out st' = ''HTTP/1.1 200 OK'' @ CRLF @ ''Content-Type: text/plain'' @ CRLF @ ''Server: S'' @ CRLF @ ''Date: D'' @ CRLF
         @ CRLF @ ''0123456789''"
proof -
  let ?hs = "[(''Content-Type'', ''text/plain'')]"
  have items: "rh_items (header_dict ?hs) = ?hs"
    by (simp add: header_dict_def rh_update_def rh_append_def rh_set_def rh_items_def Let_def od_get_def)
  have len: "\<not> rh_contains (header_dict ?hs) (PStr ''Content-Length'')" by code_simp
  have pipe: "pipe_string (served ''/a.txt'') (cp ''/srv/a.txt'') = []"
  proof -
    have "\<not> contains_sub (cp ''.sub.'') (cp ''/srv/a.txt'')" "parse_qs (cp []) = []" by code_simp+
    then show ?thesis by (simp add: pipe_string_def demo_url_def md_last_def od_get_def)
  qed
  have "\<not> rq_contains (he_headers (served ''/a.txt'')) ''Range''" by simp code_simp
  then show ?thesis
    using file_is_delivered [of None "''/''" "served ''/a.txt''" "cp ''/srv/a.txt''" 10 "''0123456789''" ?hs demo_server demo_site False]
      demo_size len pipe demo_server_ascii
    by (simp add: demo_paths demo_headers items added_file_headers_def header_line_def lower_content_type) (simp add: demo_server_def)
qed

theorem rewriting_changes_path_only_witness:
  "rewrite (new_rewriter [(One_Method ''GET'', ''/resources/WebIDLParser.js'', ''/resources/webidl2/lib/webidl2.js'')]) ''GET''
     ''/resources/WebIDLParser.js?x=1'' = Inr ''/resources/webidl2/lib/webidl2.js?x=1''"
  using rewriting_changes_path_only [of "''/resources/WebIDLParser.js''" "''x=1''"
      "[(One_Method ''GET'', ''/resources/WebIDLParser.js'', ''/resources/webidl2/lib/webidl2.js'')]" "''GET''"]
  by (simp add: origin_form_def starts_with_def query_text_def)


definition upgraded_head :: head where
  "upgraded_head = \<lparr>hd_scheme = ''https'', hd_server_host = ''h'', hd_server_port = 443, hd_protocol = ''HTTP/1.1'', hd_command = ''GET'',
     hd_path = ''/p?scheme=http'', hd_headers = [], hd_body = []\<rparr>"

definition upgraded_request :: request where
  "upgraded_request = \<lparr>req_method = ''GET'', req_protocol = ''HTTP/1.1'', req_path = ''/p?scheme=http'',
     req_url = ''https://h:443/p?scheme=http'',
     req_url_parts = \<lparr>up_scheme = ''https'', up_netloc = ''h:443'', up_path = ''/p'', up_query = ''scheme=http'', up_fragment = []\<rparr>,
     req_raw_headers = [], req_input = new_input_file [] 0\<rparr>"

definition demo_http_server :: server where
  "demo_http_server = \<lparr>srv_rules = [], srv_routes = [], srv_site = demo_site, srv_env = served ''/''\<rparr>"

theorem unanswered_requests_witness:
  "handle_one_request demo_http_server (Read_Line ''GET /p?scheme=http HTTP/1.1'') (Parsed upgraded_head False) = Some ([], False)"
proof -
  have "urlsplit ''/p?scheme=http'' = Inr \<lparr>up_scheme = [], up_netloc = [], up_path = ''/p'', up_query = ''scheme=http'', up_fragment = []\<rparr>"
    by code_simp
  then have path: "rewrite (srv_rules demo_http_server) (hd_command upgraded_head) (hd_path upgraded_head) = Inr ''/p?scheme=http''"
    by (simp add: rewrite_def demo_http_server_def upgraded_head_def od_get_def)
  have url: "request_url upgraded_head = ''https://h:443/p?scheme=http''" by code_simp
  have "urlsplit ''https://h:443/p?scheme=http'' = Inr (req_url_parts upgraded_request)"
    by code_simp
  then have rq: "mk_request (upgraded_head\<lparr>hd_path := ''/p?scheme=http''\<rparr>) = Inr upgraded_request"
    using url by (simp add: mk_request_def upgraded_head_def upgraded_request_def raw_get_def raw_get_all_def)
  have "request_GET upgraded_request = [(cp ''scheme'', [cp ''http''])]"
    by (simp add: request_GET_def upgraded_request_def unquote_plain parse_qsl_def split_once_def cp_def unquote_latin1_plain
        plus_to_space_def md_of_pairs_def md_add_def od_get_def)
  then have "upgraded_landing_page upgraded_request"
    by (simp add: upgraded_landing_page_def md_get_def md_first_def od_get_def) (simp add: upgraded_request_def starts_with_def)
  moreover have "req_method upgraded_request \<noteq> ''CONNECT''" by (simp add: upgraded_request_def)
  ultimately show ?thesis
    by (intro unanswered_requests [OF _ _ path rq]) (auto simp: max_line_def)
qed

end
