(* ===== verification/Test_Endpoints.thy ===== *)
theory Test_Endpoints
  imports Wpt_Utils Http_Headers
begin

text \<open>
  The study's server endpoints (\<open>_hp/server\<close>): \<open>responses.py\<close> serves a stored response with the body of
  its feature, \<open>get_resp_ids.py\<close> lists response ids, \<open>store_results.py\<close> stores the results of a page.
  Their caches (\<open>functools.lru_cache\<close>) are part of the state. Parameters: how the database reads a text
  as an id, the files below \<open>/app/_hp/common\<close>, the JSON parser, and the database's check of the rows of a
  commit.
\<close>

section \<open>Least recently used caches\<close>

text \<open>The most recently used entry comes first; exceptions are not cached.\<close>

definition lru_call ::
  "nat option \<Rightarrow> ('k \<Rightarrow> 'v res) \<Rightarrow> 'k \<Rightarrow> ('k \<times> 'v) list \<Rightarrow> 'v res \<times> ('k \<times> 'v) list" where
  "lru_call maxsize f k cache =
     (case map_of cache k of
        Some v \<Rightarrow> (Inr v, (k, v) # filter (\<lambda>p. fst p \<noteq> k) cache)
      | None \<Rightarrow>
          (case f k of
             Inl e \<Rightarrow> (Inl e, cache)
           | Inr v \<Rightarrow> (Inr v, case maxsize of None \<Rightarrow> (k, v) # cache | Some n \<Rightarrow> take n ((k, v) # cache))))"

definition cache_ok :: "('k \<Rightarrow> 'v res) \<Rightarrow> ('k \<times> 'v) list \<Rightarrow> bool" where
  "cache_ok f cache \<longleftrightarrow> list_all (\<lambda>(k, v). f k = Inr v) cache"

lemma lru_call_ok:
  assumes "cache_ok f cache"
  shows "fst (lru_call n f k cache) = f k" "cache_ok f (snd (lru_call n f k cache))"
proof -
  have hit: "f k = Inr v" if "map_of cache k = Some v" for v
    using assms map_of_SomeD [OF that] by (auto simp: cache_ok_def list_all_iff)
  show "fst (lru_call n f k cache) = f k"
    using hit by (auto simp: lru_call_def split: option.splits sum.splits)
  have sub: "list_all P (take m xs)" if "list_all P xs" for P m and xs :: "('k \<times> 'v) list"
    using that by (meson in_set_takeD list_all_iff)
  have "cache_ok f (take m ((k, v) # cache))" if "f k = Inr v" for m v
    using assms that sub [of _ "(k, v) # cache" m] by (simp add: cache_ok_def)
  then show "cache_ok f (snd (lru_call n f k cache))"
    using assms hit
    by (auto simp: lru_call_def cache_ok_def list_all_iff simp del: take_Cons split: option.splits sum.splits)
qed

lemma lru_call_bounded:
  "length cache \<le> n \<Longrightarrow> 0 < n \<Longrightarrow> distinct (map fst cache) \<Longrightarrow> length (snd (lru_call (Some n) f k cache)) \<le> n"
proof -
  assume a: "length cache \<le> n" "0 < n" "distinct (map fst cache)"
  have "length (filter (\<lambda>p. fst p \<noteq> k) cache) < length cache" if "map_of cache k = Some v" for v
    using map_of_SomeD [OF that] by (intro length_filter_less) auto
  then show ?thesis
    using a by (fastforce simp: lru_call_def split: option.splits sum.splits)
qed

section \<open>responses.py\<close>

text \<open>
  \<open>get_response\<close>: an id the database cannot read makes the query fail before \<open>response\<close> is bound, so the
  function fails in its \<open>return\<close>; an unknown id gives \<open>None\<close>, whose missing attribute is caught.
\<close>

definition get_response ::
  "(string \<Rightarrow> int option) \<Rightarrow> response_row table \<Rightarrow> string \<Rightarrow> response_row option res" where
  "get_response db_id db resp_id =
     (case db_id resp_id of
        None \<Rightarrow> Inl UnboundLocalError
      | Some i \<Rightarrow> Inr (map_of (rows db) i))"

text \<open>A body is a text (the empty one) or bytes.\<close>

datatype body = TextBody string | BytesBody string

definition read_common :: "(string \<Rightarrow> string option) \<Rightarrow> string \<Rightarrow> body res" where
  "read_common files name = rbind (of_option OSError (files (''/app/_hp/common/'' @ name))) (\<lambda>c. Inr (BytesBody c))"

definition get_body ::
  "(string \<Rightarrow> string option) \<Rightarrow> string \<Rightarrow> string \<Rightarrow> int \<Rightarrow> body res" where
  "get_body files host feature_group resp =
     (if feature_group = ''pp'' then read_common files ''frame-fullscreen-pp.html''
      else if feature_group = ''coop'' then read_common files ''swag.jpg''
      else if feature_group = ''hsts'' \<or> feature_group = ''cors'' then Inr (TextBody [])
      else if feature_group = ''rp'' then read_common files ''frame-referrer.html''
      else if feature_group = ''corp'' then
        (if resp = 1 then read_common files ''swag.jpg'' else read_common files ''frame-corp.html'')
      else if feature_group = ''tao'' then read_common files ''swag.jpg''
      else if feature_group = ''framing'' then read_common files ''iframes.html''
      else if feature_group = ''csp-script'' then
        rbind (read_common files ''frame-script-csp.html'') (\<lambda>b.
          case b of BytesBody c \<Rightarrow> Inr (BytesBody (replace_sub ''{base_host}'' host c)) | TextBody t \<Rightarrow> Inr (TextBody t))
      else if feature_group = ''csp-img'' then read_common files ''frame-img-csp.html''
      else if feature_group = ''coep'' then read_common files ''frame-coep.html''
      else if feature_group = ''xcto'' then read_common files ''script-xcto.js''
      else Inr (TextBody []))"

record endpoint_env =
  ee_db_id :: "string \<Rightarrow> int option"
  ee_files :: "string \<Rightarrow> string option"
  ee_host :: string

record endpoint_state =
  es_db :: "response_row table"
  es_responses :: "(string \<times> response_row option) list"
  es_resp_ids :: "((string \<times> string) \<times> int list) list"

text \<open>
  \<open>main\<close> of responses.py: the status, the headers and the body. The body cache never changes a result, as
  the files do not change, and is left out. \<open>bytes.replace\<close> is only reached with a bytes body.
\<close>

definition load_response ::
  "endpoint_env \<Rightarrow> (string, string) multidict \<Rightarrow> int \<Rightarrow> endpoint_state
     \<Rightarrow> (int \<times> (ustr \<times> ustr) list) option res \<times> endpoint_state" where
  "load_response env params resp st =
     (if resp = 1 then
        (case md_getitem params ''resp_id'' of
           Inl e \<Rightarrow> (Inl e, st)
         | Inr resp_id \<Rightarrow>
             (case lru_call (Some 500000) (get_response (ee_db_id env) (es_db st)) resp_id (es_responses st) of
                (Inl e, cache) \<Rightarrow> (Inl e, st\<lparr>es_responses := cache\<rparr>)
              | (Inr r, cache) \<Rightarrow>
                  (Inr (map_option (\<lambda>r. (status_code r, raw_header r)) r), st\<lparr>es_responses := cache\<rparr>)))
      else (Inr (Some (200, [])), st))"

definition xcto_body :: "(string, string) multidict \<Rightarrow> body \<Rightarrow> body res" where
  "xcto_body params file =
     (case file of
        TextBody t \<Rightarrow> Inl TypeError
      | BytesBody c \<Rightarrow> rbind (md_getitem params ''count'') (\<lambda>n. Inr (BytesBody (replace_sub ''<replace-id>'' n c))))"

definition responses_main ::
  "endpoint_env \<Rightarrow> (string, string) multidict \<Rightarrow> endpoint_state
     \<Rightarrow> (int \<times> (ustr \<times> ustr) list \<times> body) res \<times> endpoint_state" where
  "responses_main env params st =
     (case rbind (md_getitem params ''resp'') (\<lambda>r. of_option ValueError (py_int r)) of
        Inl e \<Rightarrow> (Inl e, st)
      | Inr resp \<Rightarrow>
          (case load_response env params resp st of
             (Inl e, st') \<Rightarrow> (Inl e, st')
           | (Inr r, st') \<Rightarrow>
               (rbind (md_getitem params ''feature_group'') (\<lambda>fg.
                 rbind (get_body (ee_files env) (ee_host env) fg resp) (\<lambda>file.
                   rbind (if fg = ''xcto'' then xcto_body params file else Inr file) (\<lambda>file.
                     case r of None \<Rightarrow> Inl AttributeError | Some (code, hs) \<Rightarrow> Inr (code, hs, file)))), st')))"

section \<open>get_resp_ids.py\<close>

definition parse_resp_type :: "string \<Rightarrow> resp_type option" where
  "parse_resp_type s =
     (if s = ''debug'' then Some Debug else if s = ''basic'' then Some Basic
      else if s = ''parsing'' then Some Parsing else None)"

text \<open>The rows in the order of the table; an unknown type is a database error, reported as no ids.\<close>

definition server_resp_ids :: "response_row table \<Rightarrow> string \<times> string \<Rightarrow> int list res" where
  "server_resp_ids db = (\<lambda>(lab, mode).
     case parse_resp_type mode of
       None \<Rightarrow> Inr []
     | Some rt \<Rightarrow> Inr (map fst (filter (\<lambda>(_, r). label r = cp lab \<and> resp_type r = rt) (rows db))))"

definition get_resp_ids_main ::
  "(string, string) multidict \<Rightarrow> endpoint_state \<Rightarrow> int list res \<times> endpoint_state" where
  "get_resp_ids_main params st =
     (case rbind (md_getitem params ''label'') (\<lambda>l. rbind (md_getitem params ''resp_type'') (\<lambda>m. Inr (l, m))) of
        Inl e \<Rightarrow> (Inl e, st)
      | Inr key \<Rightarrow>
          (case lru_call None (server_resp_ids (es_db st)) key (es_resp_ids st) of
             (r, cache) \<Rightarrow> (r, st\<lparr>es_resp_ids := cache\<rparr>)))"

section \<open>store_results.py\<close>

datatype json = JNull | JBool bool | JInt int | JFloat string | JStr string | JArr "json list"
  | JObj "(string \<times> json) list"

definition json_get :: "json \<Rightarrow> string \<Rightarrow> json res" where
  "json_get j key =
     (case j of JObj kvs \<Rightarrow> of_option KeyError (map_of kvs key) | _ \<Rightarrow> Inl TypeError)"

definition py_class :: "string \<Rightarrow> string" where
  "py_class name = ''<class '' @ [char_of (39 :: nat)] @ name @ [char_of (39 :: nat)] @ ''>''"

fun json_type :: "json \<Rightarrow> string" where
  "json_type JNull = py_class ''NoneType''"
| "json_type (JBool b) = py_class ''bool''"
| "json_type (JInt i) = py_class ''int''"
| "json_type (JFloat f) = py_class ''float''"
| "json_type (JStr s) = py_class ''str''"
| "json_type (JArr xs) = py_class ''list''"
| "json_type (JObj kvs) = py_class ''dict''"

record result_row =
  rs_outcome_type :: string
  rs_outcome_value :: json
  rs_test_name :: string
  rs_test_status :: json
  rs_test_message :: json
  rs_test_stack :: json
  rs_browser_id :: json
  rs_response_id :: string
  rs_resp_scheme :: json
  rs_resp_host :: json
  rs_relation :: json
  rs_org_scheme :: json
  rs_org_host :: json
  rs_full_url :: json

text \<open>\<open>test["name"].split("|")\<close>\<close>

definition name_parts :: "json \<Rightarrow> string list res" where
  "name_parts j = (case j of JStr s \<Rightarrow> Inr (split_on (CHR ''|'') s) | _ \<Rightarrow> Inl AttributeError)"

definition result_of_test :: "json \<Rightarrow> json \<Rightarrow> json \<Rightarrow> json \<Rightarrow> json \<Rightarrow> result_row res" where
  "result_of_test browser_id org_scheme org_host full_url test =
     rbind (json_get test ''outcome'') (\<lambda>outcome.
     rbind (rbind (json_get test ''name'') name_parts) (\<lambda>parts.
     rbind (json_get test ''status'') (\<lambda>status.
     rbind (json_get test ''message'') (\<lambda>message.
     rbind (json_get test ''stack'') (\<lambda>stack.
     rbind (json_get test ''resp_scheme'') (\<lambda>resp_scheme.
     rbind (json_get test ''resp_host'') (\<lambda>resp_host.
     rbind (json_get test ''relation'') (\<lambda>relation.
       Inr \<lparr>rs_outcome_type = json_type outcome, rs_outcome_value = outcome, rs_test_name = hd parts,
            rs_test_status = status, rs_test_message = message, rs_test_stack = stack,
            rs_browser_id = browser_id, rs_response_id = last parts, rs_resp_scheme = resp_scheme,
            rs_resp_host = resp_host, rs_relation = relation, rs_org_scheme = org_scheme,
            rs_org_host = org_host, rs_full_url = full_url\<rparr>))))))))"

definition iterate_json :: "json \<Rightarrow> json list res" where
  "iterate_json j =
     (case j of JArr xs \<Rightarrow> Inr xs | JObj kvs \<Rightarrow> Inr (map (JStr \<circ> fst) kvs)
      | JStr s \<Rightarrow> Inr (map (\<lambda>c. JStr [c]) s) | _ \<Rightarrow> Inl TypeError)"

text \<open>
  \<open>main\<close> of store_results.py: the rows are added to a session and committed together; every exception,
  also one of the database (\<open>db_check\<close>), is answered with an error object.
\<close>

datatype store_answer = Success | StoreError exc

definition store_results_main ::
  "(string \<Rightarrow> json res) \<Rightarrow> (result_row list \<Rightarrow> exc option) \<Rightarrow> string \<Rightarrow> result_row list
     \<Rightarrow> store_answer \<times> result_row list" where
  "store_results_main parse db_check body table =
     (case
        rbind (parse body) (\<lambda>req.
        rbind (json_get req ''browser_id'') (\<lambda>browser_id.
        rbind (json_get req ''org_scheme'') (\<lambda>org_scheme.
        rbind (json_get req ''org_host'') (\<lambda>org_host.
        rbind (json_get req ''full_url'') (\<lambda>full_url.
        rbind (rbind (json_get req ''tests'') iterate_json)
          (rmap (result_of_test browser_id org_scheme org_host full_url)))))))
      of
        Inl e \<Rightarrow> (StoreError e, table)
      | Inr new \<Rightarrow>
          (case db_check new of Some e \<Rightarrow> (StoreError e, table) | None \<Rightarrow> (Success, table @ new)))"

section \<open>Properties\<close>

definition endpoints_ok :: "endpoint_env \<Rightarrow> endpoint_state \<Rightarrow> bool" where
  "endpoints_ok env st \<longleftrightarrow> table_inv uq_response (es_db st)
     \<and> cache_ok (get_response (ee_db_id env) (es_db st)) (es_responses st)
     \<and> cache_ok (server_resp_ids (es_db st)) (es_resp_ids st)"

lemma load_response_cached:
  "endpoints_ok env st \<Longrightarrow> md_getitem params ''resp_id'' = Inr rid \<Longrightarrow>
   fst (load_response env params 1 st)
     = map_sum id (map_option (\<lambda>r. (status_code r, raw_header r))) (get_response (ee_db_id env) (es_db st) rid)"
  using lru_call_ok(1) [of "get_response (ee_db_id env) (es_db st)" "es_responses st" "Some 500000" rid]
  by (cases "lru_call (Some 500000) (get_response (ee_db_id env) (es_db st)) rid (es_responses st)")
    (auto simp: load_response_def endpoints_ok_def split: sum.splits)

lemma load_response_ok: "endpoints_ok env st \<Longrightarrow> endpoints_ok env (snd (load_response env params resp st))"
proof -
  assume ok: "endpoints_ok env st"
  have "cache_ok (get_response (ee_db_id env) (es_db st))
      (snd (lru_call (Some 500000) (get_response (ee_db_id env) (es_db st)) rid (es_responses st)))" for rid
    using ok lru_call_ok(2) by (auto simp: endpoints_ok_def)
  then have "endpoints_ok env (st\<lparr>es_responses :=
      snd (lru_call (Some 500000) (get_response (ee_db_id env) (es_db st)) rid (es_responses st))\<rparr>)" for rid
    using ok by (simp add: endpoints_ok_def)
  then show ?thesis
    using ok by (auto simp: load_response_def split: sum.splits prod.splits) (metis snd_conv)+
qed

lemma responses_main_eq:
  assumes "md_getitem params ''resp'' = Inr rs" and "py_int rs = Some resp"
    and "md_getitem params ''feature_group'' = Inr fg" and "fg \<noteq> ''xcto''"
    and "get_body (ee_files env) (ee_host env) fg resp = Inr b"
  shows "responses_main env params st =
    (case load_response env params resp st of
       (Inl e, st') \<Rightarrow> (Inl e, st')
     | (Inr None, st') \<Rightarrow> (Inl AttributeError, st')
     | (Inr (Some (code, hs)), st') \<Rightarrow> (Inr (code, hs, b), st'))"
  using assms by (auto simp: responses_main_def split: sum.splits prod.splits option.splits)

lemma responses_main_row:
  assumes "endpoints_ok env st" and "md_getitem params ''resp'' = Inr rs" and "py_int rs = Some resp"
    and "md_getitem params ''resp_id'' = Inr rid" and "ee_db_id env rid = Some i" and "(i, r) \<in> set (rows (es_db st))"
    and "md_getitem params ''feature_group'' = Inr fg" and "fg \<noteq> ''xcto''"
    and "get_body (ee_files env) (ee_host env) fg resp = Inr b"
  shows "fst (responses_main env params st)
      = Inr (if resp = 1 then (status_code r, raw_header r, b) else (200, [], b))
    \<and> endpoints_ok env (snd (responses_main env params st))"
proof
  have d: "distinct (map fst (rows (es_db st)))" using assms(1) by (simp add: endpoints_ok_def table_inv_def)
  have "get_response (ee_db_id env) (es_db st) rid = Inr (Some r)"
    using assms(5,6) d by (simp add: get_response_def)
  then have l: "fst (load_response env params 1 st) = Inr (Some (status_code r, raw_header r))"
    using load_response_cached [OF assms(1,4)] by simp
  show "fst (responses_main env params st) = Inr (if resp = 1 then (status_code r, raw_header r, b) else (200, [], b))"
  proof (cases "resp = 1")
    case True
    then show ?thesis using l responses_main_eq [OF assms(2,3,7,8,9), of st]
      by (cases "load_response env params 1 st") simp
  next
    case False
    then show ?thesis using responses_main_eq [OF assms(2,3,7,8,9), of st] by (simp add: load_response_def)
  qed
  show "endpoints_ok env (snd (responses_main env params st))"
    using load_response_ok [OF assms(1), of params resp]
    unfolding responses_main_eq [OF assms(2,3,7,8,9)]
    by (cases "load_response env params resp st") (auto split: sum.splits option.splits)
qed

text \<open>
  C29: a request for a stored response with \<open>resp=1\<close> gets exactly its status and its headers, with the body
  of the feature, whatever the caches hold from earlier requests; with another \<open>resp\<close> it gets status 200
  and no special header. The caches stay consistent with the database.
\<close>

theorem responses_main_serves_row:
  assumes "endpoints_ok env st" and "md_getitem params ''resp'' = Inr rs" and "py_int rs = Some resp"
    and "md_getitem params ''resp_id'' = Inr rid" and "ee_db_id env rid = Some i" and "(i, r) \<in> set (rows (es_db st))"
    and "md_getitem params ''feature_group'' = Inr fg" and "fg \<noteq> ''xcto''"
    and "get_body (ee_files env) (ee_host env) fg resp = Inr b"
  shows "fst (responses_main env params st)
      = Inr (if resp = 1 then (status_code r, raw_header r, b) else (200, [], b))
    \<and> endpoints_ok env (snd (responses_main env params st))"
  using assms by (rule responses_main_row)

definition demo_row :: response_row where
  "demo_row = \<lparr>raw_header = [(cp ''x-frame-options'', cp ''DENY'')], status_code = 302, label = cp ''XFO'', resp_type = Basic\<rparr>"

definition demo_endpoint_env :: endpoint_env where
  "demo_endpoint_env = \<lparr>ee_db_id = py_int, ee_files = (\<lambda>_. Some ''<html>''), ee_host = ''a.test''\<rparr>"

definition demo_state :: endpoint_state where
  "demo_state = \<lparr>es_db = \<lparr>rows = [(1, demo_row)], next_id = 2\<rparr>, es_responses = [], es_resp_ids = []\<rparr>"

theorem responses_main_serves_row_witness:
  "fst (responses_main demo_endpoint_env
      (md_of_pairs [(''resp'', int_str 1), (''resp_id'', int_str 1), (''feature_group'', ''framing'')]) demo_state)
    = Inr (302, [(cp ''x-frame-options'', cp ''DENY'')], BytesBody ''<html>'')"
proof -
  let ?params = "md_of_pairs [(''resp'', int_str 1), (''resp_id'', int_str 1), (''feature_group'', ''framing'')]"
  have g: "md_getitem ?params ''resp'' = Inr (int_str 1)" "md_getitem ?params ''resp_id'' = Inr (int_str 1)"
      "md_getitem ?params ''feature_group'' = Inr ''framing''"
    by (simp_all add: md_of_pairs_def md_add_def md_getitem_def md_first_def)
  have "endpoints_ok demo_endpoint_env demo_state"
    by (simp add: endpoints_ok_def table_inv_def cache_ok_def demo_state_def)
  from responses_main_serves_row [OF this g(1) _ g(2), of 1 1 demo_row "''framing''" "BytesBody ''<html>''"] g(3)
  show ?thesis
    by (simp add: demo_endpoint_env_def demo_state_def demo_row_def get_body_def read_common_def)
qed

text \<open>
  the results of a page are stored completely or not at all: the answer is a success exactly when one
  row per test was added, and after an error, of the request or of the database, the table is unchanged.
\<close>

theorem store_results_atomic:
  "case store_results_main parse db_check body table of
     (Success, table') \<Rightarrow> \<exists>req tests new. parse body = Inr req \<and> rbind (json_get req ''tests'') iterate_json = Inr tests
        \<and> length new = length tests \<and> db_check new = None \<and> table' = table @ new
   | (StoreError e, table') \<Rightarrow> table' = table"
  unfolding store_results_main_def
  by (auto split: sum.splits option.splits simp: rbind_eq_Inr dest!: rmap_length)

end
