(* ===== verification/Study_Server.thy ===== *)
theory Study_Server
  imports Server_Facts Test_Endpoints Routes
begin

text \<open>
  The study's server: wptserve with the routes of \<open>serve.py\<close> and the scripts of \<open>_hp/server\<close>. A request for a
  stored response is followed from the request line to the bytes on the connection.
\<close>

section \<open>responses.py as a script\<close>

text \<open>\<open>rewrites\<close> of serve.py.\<close>

definition study_rewrites :: rewrite_rules where
  "study_rewrites = new_rewriter [(One_Method ''GET'', ''/resources/WebIDLParser.js'', ''/resources/webidl2/lib/webidl2.js'')]"

text \<open>The parameters as ASCII texts, if they are.\<close>

definition ascii_text :: "ustr \<Rightarrow> string option" where
  "ascii_text u = (if list_all (\<lambda>c. c < 128) u then Some (map char_of u) else None)"

fun all_some :: "'a option list \<Rightarrow> 'a list option" where
  "all_some [] = Some []"
| "all_some (x # xs) = (case x of None \<Rightarrow> None | Some y \<Rightarrow> map_option ((#) y) (all_some xs))"

definition ascii_params :: "(ustr, ustr) multidict \<Rightarrow> (string, string) multidict option" where
  "ascii_params d = all_some (map (\<lambda>(k, vs).
     case (ascii_text k, all_some (map ascii_text vs)) of (Some k, Some vs) \<Rightarrow> Some (k, vs) | _ \<Rightarrow> None) d)"

text \<open>A header of a row, which \<open>ResponseHeaders\<close> encodes; the error response replaces what was set before it fails.\<close>

definition header_values :: "ustr \<times> ustr \<Rightarrow> (pyval \<times> pyval) res" where
  "header_values h =
     (if list_all (\<lambda>c. c < 256) (fst h) \<and> list_all (\<lambda>c. c < 256) (snd h)
      then Inr (PStr (map char_of (fst h)), PStr (map char_of (snd h))) else Inl UnicodeError)"

definition body_data :: "body \<Rightarrow> data" where
  "body_data b = (case b of TextBody t \<Rightarrow> DText (cp t) | BytesBody c \<Rightarrow> DBytes c)"

definition body_bytes :: "body \<Rightarrow> string" where
  "body_bytes b = (case b of TextBody t \<Rightarrow> t | BytesBody c \<Rightarrow> c)"

text \<open>
  The function \<open>main\<close> for one request, with the caches as earlier requests left them; what it returns for
  parameters beyond ASCII is the argument \<open>wide\<close>.
\<close>

type_synonym script_answer = "(int \<times> (ustr \<times> ustr) list \<times> body) res"

definition responses_function ::
  "endpoint_env \<Rightarrow> endpoint_state \<Rightarrow> ((ustr, ustr) multidict \<Rightarrow> script_answer) \<Rightarrow> handler_env \<Rightarrow> handler_result piped" where
  "responses_function ee es wide env =
     (let params = request_GET (he_request env)
      in ends_with_result (of_res (
           rbind (case ascii_params params of None \<Rightarrow> wide params | Some ps \<Rightarrow> fst (responses_main ee ps es)) (\<lambda>(code, hs, b).
           rbind (rmap header_values hs) (\<lambda>hs. Inr (RvStatus (StNum code) hs (CData (body_data b))))))))"

section \<open>A stored response on the connection\<close>

lemma all_some_map: "(\<And>x. x \<in> set xs \<Longrightarrow> f (g x) = Some x) \<Longrightarrow> all_some (map f (map g xs)) = Some xs"
  by (induction xs) auto

definition ascii_multidict :: "(string, string) multidict \<Rightarrow> bool" where
  "ascii_multidict d \<longleftrightarrow> list_all (\<lambda>(k, vs). is_ascii k \<and> list_all is_ascii vs) d"

lemma ascii_text_cp: "is_ascii s \<Longrightarrow> ascii_text (cp s) = Some s"
  by (auto simp: ascii_text_def is_ascii_def cp_def list_all_iff comp_def)

lemma ascii_params_cp:
  assumes "ascii_multidict d" shows "ascii_params (map (\<lambda>(k, vs). (cp k, map cp vs)) d) = Some d"
  unfolding ascii_params_def
proof (rule all_some_map)
  fix kvs assume m: "kvs \<in> set d"
  obtain k vs where kvs: "kvs = (k, vs)" by (cases kvs)
  have a: "is_ascii k" "\<And>v. v \<in> set vs \<Longrightarrow> is_ascii v" using assms m by (auto simp: ascii_multidict_def list_all_iff kvs)
  have "all_some (map ascii_text (map cp vs)) = Some vs" using a(2) by (intro all_some_map ascii_text_cp)
  then show "(case (case kvs of (k, vs) \<Rightarrow> (cp k, map cp vs)) of (k, vs) \<Rightarrow>
      case (ascii_text k, all_some (map ascii_text vs)) of (Some k, Some vs) \<Rightarrow> Some (k, vs) | _ \<Rightarrow> None) = Some kvs"
    using a(1) by (simp add: kvs ascii_text_cp)
qed

lemma od_get_cp: "od_get (map (\<lambda>(k, vs). (cp k, map cp vs)) d) (cp k) = map_option (map cp) (od_get d k)"
  by (induction d) (auto simp: od_get_def)

lemma od_set_cp: "od_set (cp k) (map cp vs) (map (\<lambda>(k, vs). (cp k, map cp vs)) d) = map (\<lambda>(k, vs). (cp k, map cp vs)) (od_set k vs d)"
  by (induction d) auto

lemma ascii_od_set: "ascii_multidict d \<Longrightarrow> is_ascii k \<Longrightarrow> list_all is_ascii vs \<Longrightarrow> ascii_multidict (od_set k vs d)"
  by (induction d) (auto simp: ascii_multidict_def)

lemma md_of_pairs_cp:
  "md_of_pairs (map (\<lambda>(k, v). (cp k, cp v)) kvs) = map (\<lambda>(k, vs). (cp k, map cp vs)) (md_of_pairs kvs)"
proof -
  let ?c = "map (\<lambda>(k, vs). (cp k, map cp vs))"
  have add: "md_add (cp k) (cp v) (?c d) = ?c (md_add k v d)" for k v and d :: "(string, string) multidict"
  proof (cases "od_get d k")
    case None
    then show ?thesis using od_set_cp [of k "[v]" d] by (simp add: md_add_def od_get_cp)
  next
    case (Some vs)
    then show ?thesis using od_set_cp [of k "vs @ [v]" d] by (simp add: md_add_def od_get_cp)
  qed
  have "fold (\<lambda>(k, v). md_add k v) (map (\<lambda>(k, v). (cp k, cp v)) kvs) (?c d) = ?c (fold (\<lambda>(k, v). md_add k v) kvs d)" for d
    by (induction kvs arbitrary: d) (auto simp: add)
  from this [of "[]"] show ?thesis by (simp add: md_of_pairs_def)
qed

lemma ascii_of_pairs:
  assumes "list_all (\<lambda>(k, v). is_ascii k \<and> is_ascii v) kvs" shows "ascii_multidict (md_of_pairs kvs)"
proof -
  have val: "list_all is_ascii vs" if "ascii_multidict d" "od_get d k = Some vs" for d k vs
    using that map_of_SomeD by (fastforce simp: od_get_def ascii_multidict_def list_all_iff)
  have add: "ascii_multidict (md_add k v d)" if "ascii_multidict d" "is_ascii k" "is_ascii v" for k v d
    using that by (auto simp: md_add_def intro!: ascii_od_set dest: val split: option.split)
  have "ascii_multidict d \<Longrightarrow> ascii_multidict (fold (\<lambda>(k, v). md_add k v) kvs d)" for d
    using assms by (induction kvs arbitrary: d) (auto simp: add)
  then show ?thesis by (simp add: md_of_pairs_def ascii_multidict_def)
qed

lemma plain_ascii: "list_all plain s \<Longrightarrow> is_ascii s"
  by (auto simp: is_ascii_def plain_def list_all_iff)

lemma md_last_absent:
  fixes l :: "(ustr \<times> ustr) list"
  assumes "n \<notin> fst ` set l" shows "md_last (md_of_pairs l) n None = Inl KeyError"
proof -
  have "filter (\<lambda>(j, v). j = n) l = []" using assms by (auto simp: filter_empty_conv image_iff)
  then show ?thesis using multidict_of_pairs [of l n] by simp
qed

lemma parse_qs_plain:
  assumes "list_all (\<lambda>(k, v). list_all plain k \<and> list_all plain v) kvs" and "k \<notin> fst ` set kvs"
  shows "md_last (parse_qs (cp (query_string kvs))) (cp k) None = Inl KeyError"
proof (cases "kvs = []")
  case True
  then show ?thesis by (simp add: query_string_def parse_qs_def cp_def md_of_pairs_def md_last_def od_get_def)
next
  case False
  let ?nv = "\<lambda>(k, v). cp k @ 61 # cp v"
  let ?item = "\<lambda>item. case split_once 61 item of
         [n, v] \<Rightarrow> if v = [] then [] else [(unquote (plus_to_space n), unquote (plus_to_space v))] | _ \<Rightarrow> []"
  have name: "unquote (plus_to_space (cp n)) = cp n" if "list_all plain n" for n
  proof -
    have "plus_to_space t = t" if "\<forall>c \<in> set t. c \<noteq> 43" for t :: ustr
      using that unfolding plus_to_space_def by (induction t) simp_all
    then show ?thesis using plain_cp [OF that] unquote_plain [of "cp n"] by auto
  qed
  have item: "fst ` set (?item (?nv kv)) \<subseteq> {cp (fst kv)}" if "kv \<in> set kvs" for kv
  proof -
    obtain n v where kv: "kv = (n, v)" by (cases kv)
    then have "list_all plain n" using assms(1) that by (auto simp: list_all_iff)
    then show ?thesis using query_items(2) [OF assms(1) False that [unfolded kv]] by (simp add: name kv)
  qed
  have "filter (\<lambda>item. item \<noteq> []) (map ?nv kvs) = map ?nv kvs" by (intro filter_True) auto
  then have qs: "parse_qs (cp (query_string kvs)) = md_of_pairs (concat (map ?item (map ?nv kvs)))"
    by (simp only: parse_qs_def query_items(1) [OF assms(1) False])
  have no: "cp k \<notin> fst ` set (concat (map ?item (map ?nv kvs)))"
  proof
    assume "cp k \<in> fst ` set (concat (map ?item (map ?nv kvs)))"
    then obtain kv where "kv \<in> set kvs" "cp k \<in> fst ` set (?item (?nv kv))"
      unfolding set_concat set_map by blast
    then have "cp k = cp (fst kv)" "fst kv \<in> fst ` set kvs" using item by blast+
    then show False using assms(2) by simp
  qed
  show ?thesis unfolding qs by (rule md_last_absent [OF no])
qed

lemma pipe_string_plain:
  assumes "up_query (req_url_parts (he_request env)) = query_string kvs"
    and "list_all (\<lambda>(k, v). list_all plain k \<and> list_all plain v) kvs" and "''pipe'' \<notin> fst ` set kvs"
    and "\<not> contains_sub (cp ''.sub.'') p"
  shows "pipe_string env p = []"
  using parse_qs_plain [OF assms(2,3)] assms(1,4) by (simp add: pipe_string_def)

lemma decorated_script_sets:
  assumes "filesystem_path env b u = Inr p" and "scripts p = Inr (Some (decorated f))"
    and "f env st = Some (Inr (RvStatus (StNum code) hs (CData d)), st)"
    and "pipe_string env [] = []" and "pipe_string env p = []" and "rs_headers st = HObject h"
  shows "python_script_handler scripts env b u st
    = Some (Inr (), st\<lparr>rs_status := (code, None), rs_headers := HObject (rh_update hs h), rs_content := CData d\<rparr>)"
proof -
  have w: "wrap_pipeline env [] = ends_with_result (give ())" "wrap_pipeline env p = ends_with_result (give ())"
    using assms(4,5) by (simp_all add: wrap_pipeline_def)
  show ?thesis using assms(1-3,6)
    by (simp add: python_script_handler_def not_found_on_os_error_def function_handler_def decorated_def and_piped_def then_pipe_def
        ends_with_result_def http_errors_only_def w set_status_def headers_update_def set_content_def and_then_get_state and_then_change act_simps)
qed

lemma feature_body_encodes: "get_body files host fg resp = Inr b \<Longrightarrow> encode (body_data b) = Inr (body_bytes b)"
  by (auto simp: get_body_def read_common_def rbind_eq_Inr encode_def body_data_def body_bytes_def cp_def utf8_encode_def
      split: if_splits)

section \<open>The request\<close>

lemma dropWhile_hd: "s \<noteq> [] \<Longrightarrow> \<not> P (hd s) \<Longrightarrow> dropWhile P s = s"
  by (cases s) auto

lemma urlsplit_absolute:
  assumes "sch \<in> {''http'', ''https''}" and "list_all (\<lambda>c. c \<notin> {CHR 0x09, CHR 0x0A, CHR 0x0D} \<union> set ''/?#[]'') n"
    and "origin_form p" and "list_all (\<lambda>c. c \<notin> {CHR 0x09, CHR 0x0A, CHR 0x0D, CHR ''#''}) q"
  shows "urlsplit (sch @ ''://'' @ n @ p @ query_text q)
    = Inr \<lparr>up_scheme = sch, up_netloc = n, up_path = p, up_query = q, up_fragment = []\<rparr>"
proof -
  let ?rest = "n @ p @ query_text q" let ?s = "sch @ ''://'' @ ?rest"
  obtain r where p: "p = CHR ''/'' # r" using assms(3) by (cases p) (auto simp: origin_form_def starts_with_def)
  let ?ok = "\<lambda>c. c \<notin> {CHR 0x09, CHR 0x0A, CHR 0x0D}"
  have "list_all ?ok sch" using assms(1) by (elim insertE) simp_all
  moreover have "list_all ?ok n" using assms(2) by (rule list.pred_mono_strong) simp
  moreover have "list_all ?ok p" using assms(3) by (simp add: origin_form_def list_all_iff)
  moreover have "list_all ?ok q" using assms(4) by (rule list.pred_mono_strong) simp
  ultimately have ok: "list_all ?ok sch" "list_all ?ok n" "list_all ?ok p" "list_all ?ok (query_text q)"
    by (simp_all add: query_text_def)
  have "list_all ?ok ?s" unfolding list_all_append using ok by simp
  moreover have "dropWhile (\<lambda>c. (of_char c :: nat) \<le> 32) ?s = ?s" using assms(1) by (elim insertE) simp_all
  ultimately have filt: "filter ?ok (dropWhile (\<lambda>c. (of_char c :: nat) \<le> 32) ?s) = ?s"
    by (simp only: filter_id_conv list_all_iff)
  have colon: "break_at '':'' ?s = (sch, ''://'' @ ?rest)" using assms(1) by (elim insertE) (simp_all add: break_at_def)
  have "is_lower (hd sch) \<and> list_all scheme_char sch \<and> py_lower sch = sch \<and> sch \<noteq> []"
    if "sch = ''http'' \<or> sch = ''https''"
    using that by (elim disjE) (simp, code_simp)+
  then have sch: "sch \<noteq> []" "is_upper (hd sch) \<or> is_lower (hd sch)" "list_all scheme_char sch" "py_lower sch = sch"
    using assms(1) by auto
  have slash: "break_at ''/?#'' ?rest = (n, p @ query_text q)"
    using assms(2) p by (auto simp: break_at_def list_all_iff takeWhile_append2 dropWhile_append2)
  have hash: "break_at ''#'' (p @ query_text q) = (p @ query_text q, [])"
    using assms by (auto simp: break_at_def origin_form_def query_text_def list_all_iff takeWhile_eq_all_conv dropWhile_eq_Nil_conv)
  have no_mark: "\<forall>c \<in> set p. c \<notin> set ''?''" using assms(3) by (auto simp: origin_form_def list_all_iff)
  have mark: "break_at ''?'' (p @ query_text q) = (p, query_text q)"
    unfolding break_at_def using no_mark by (cases q) (auto simp: query_text_def takeWhile_append2 dropWhile_append2)
  have rest: "drop 1 (query_text q) = q" "drop 1 (''://'' @ ?rest) = ''//'' @ ?rest" "drop 2 (''//'' @ ?rest) = ?rest"
    "starts_with ''//'' (''//'' @ ?rest)" "''://'' @ ?rest \<noteq> []"
    by (simp_all add: query_text_def starts_with_def)
  have brackets: "(CHR ''['' \<in> set n) = (CHR '']'' \<in> set n)" using assms(2) by (auto simp: list_all_iff)
  show ?thesis
    unfolding urlsplit_def Let_def filt colon
    by (simp only: prod.case sch rest slash hash mark brackets simp_thms if_True if_False drop_Nil not_True_eq_False)
qed

definition study_script :: ustr where
  "study_script = cp ''_hp/server/responses.py''"

lemma study_path:
  assumes "he_doc_root env = root" "root \<noteq> []" "last root \<noteq> 47" "up_path (req_url_parts (he_request env)) = ''/_hp/server/responses.py''"
  shows "filesystem_path env None ''/'' = Inr (root @ 47 # study_script)"
proof -
  have u: "unquote (cp ''/_hp/server/responses.py'') = cp ''/_hp/server/responses.py''"
    by (rule unquote_plain) (simp add: cp_def)
  then have "url_rest env ''/'' = study_script"
    using assms(4) by (simp add: url_rest_def study_script_def starts_with_def cp_def)
  moreover have "\<not> contains_sub (cp ''..'') study_script" unfolding study_script_def by code_simp
  moreover have "path_join root study_script = root @ 47 # study_script"
    using assms(2,3) by (auto simp: path_join_def study_script_def cp_def starts_with_def ends_with_iff)
  ultimately show ?thesis using assms(1) by (simp add: filesystem_path_def root_of_def starts_with_iff)
qed

lemma rewrite_other:
  assumes "origin_form p" "p \<noteq> ''/resources/WebIDLParser.js''" "list_all (\<lambda>c. c \<notin> {CHR 0x09, CHR 0x0A, CHR 0x0D, CHR ''#''}) q"
  shows "rewrite study_rewrites m (p @ query_text q) = Inr (p @ query_text q)"
  using urlsplit_origin_form [OF assms(1,3)] assms(2)
  by (simp add: rewrite_def study_rewrites_def new_rewriter_def register_rule_def od_get_def)

text \<open>A request head for a path and a query, as browsers send it: without a body, and with an unremarkable host.\<close>

definition plain_head :: "head \<Rightarrow> string \<Rightarrow> string \<Rightarrow> bool" where
  "plain_head head p q \<longleftrightarrow> hd_scheme head \<in> {''http'', ''https''} \<and> hd_path head = p @ query_text q \<and> origin_form p
     \<and> list_all (\<lambda>c. c \<notin> {CHR 0x09, CHR 0x0A, CHR 0x0D, CHR ''#''}) q
     \<and> (case request_host_port head of (host, port) \<Rightarrow>
          list_all (\<lambda>c. c \<notin> {CHR 0x09, CHR 0x0A, CHR 0x0D} \<union> set ''/?#[]'') (host @ '':'' @ port))
     \<and> raw_get (hd_headers head) ''Content-Length'' = None"

lemma plain_head_request:
  assumes "plain_head head p q"
  shows "\<exists>rq. mk_request head = Inr rq \<and> req_method rq = hd_command head \<and> req_protocol rq = hd_protocol head
    \<and> up_path (req_url_parts rq) = p \<and> up_query (req_url_parts rq) = q \<and> view [] 0 0 (req_input rq)"
proof -
  obtain host port where hp: "request_host_port head = (host, port)" by (cases "request_host_port head")
  obtain r where p: "p = CHR ''/'' # r" using assms by (cases p) (auto simp: plain_head_def origin_form_def starts_with_def)
  have a: "hd_scheme head \<in> {''http'', ''https''}" "hd_path head = p @ query_text q" "origin_form p"
    "list_all (\<lambda>c. c \<notin> {CHR 0x09, CHR 0x0A, CHR 0x0D, CHR ''#''}) q"
    "list_all (\<lambda>c. c \<notin> {CHR 0x09, CHR 0x0A, CHR 0x0D} \<union> set ''/?#[]'') (host @ '':'' @ port)"
    "raw_get (hd_headers head) ''Content-Length'' = None"
    using assms by (simp_all add: plain_head_def hp)
  have "\<not> starts_with (hd_scheme head @ ''://'') (hd_path head)" using a(1,2) p by (auto simp: starts_with_def)
  then have "request_url head = hd_scheme head @ ''://'' @ (host @ '':'' @ port) @ p @ query_text q"
    using a(2) by (simp add: request_url_def hp)
  then have u: "urlsplit (request_url head)
      = Inr \<lparr>up_scheme = hd_scheme head, up_netloc = host @ '':'' @ port, up_path = p, up_query = q, up_fragment = []\<rparr>"
    using urlsplit_absolute [OF a(1) a(5) a(3) a(4)] by (simp only:)
  have "view [] 0 0 (new_input_file (hd_body head) 0)" using view_new [of "[]" "hd_body head"] by simp
  then show ?thesis by (simp add: mk_request_def u a(6))
qed

section \<open>From the request line to the bytes\<close>

lemma responses_function_row:
  assumes "endpoints_ok ee es" and "request_GET (he_request env) = md_of_pairs (map (\<lambda>(k, v). (cp k, cp v)) kvs)"
    and "list_all (\<lambda>(k, v). is_ascii k \<and> is_ascii v) kvs"
    and "md_getitem (md_of_pairs kvs) ''resp'' = Inr rs" and "py_int rs = Some 1"
    and "md_getitem (md_of_pairs kvs) ''resp_id'' = Inr rid" and "ee_db_id ee rid = Some i" and "(i, r) \<in> set (rows (es_db es))"
    and "md_getitem (md_of_pairs kvs) ''feature_group'' = Inr fg" and "fg \<noteq> ''xcto''"
    and "get_body (ee_files ee) (ee_host ee) fg 1 = Inr b" and "rmap header_values (raw_header r) = Inr hs"
  shows "responses_function ee es wide env st = Some (Inr (RvStatus (StNum (status_code r)) hs (CData (body_data b))), st)"
proof -
  have "fst (responses_main ee (md_of_pairs kvs) es) = Inr (status_code r, raw_header r, b)"
    using responses_main_row [OF assms(1,4-11)] by simp
  moreover have "ascii_params (request_GET (he_request env)) = Some (md_of_pairs kvs)"
    unfolding assms(2) md_of_pairs_cp by (rule ascii_params_cp [OF ascii_of_pairs [OF assms(3)]])
  ultimately show ?thesis by (simp add: responses_function_def Let_def assms(12) ends_with_result_def act_simps)
qed

text \<open>A server of the study: the routes of serve.py, the scripts below \<open>root\<close>, a connection that works.\<close>

definition study_server :: "server \<Rightarrow> ustr \<Rightarrow> server_env \<Rightarrow> (handler_env \<Rightarrow> handler_result piped) \<Rightarrow> bool" where
  "study_server srv root sv main \<longleftrightarrow> srv_rules srv = study_rewrites \<and> router_of (new_routes_builder None) = Inr (srv_routes srv)
     \<and> he_doc_root (srv_env srv) = root \<and> root \<noteq> [] \<and> last root \<noteq> 47 \<and> \<not> contains_sub (cp ''.sub.'') (root @ 47 # study_script)
     \<and> si_scripts (srv_site srv) (root @ 47 # study_script) = Inr (Some (decorated main))
     \<and> he_server (srv_env srv) = working sv \<and> is_ascii (version_string sv) \<and> is_ascii (date_string sv)"

text \<open>What a request asks for: the stored row \<open>r\<close> with the body \<open>b\<close>.\<close>

definition asks_for :: "endpoint_env \<Rightarrow> endpoint_state \<Rightarrow> (string \<times> string) list \<Rightarrow> response_row \<Rightarrow> body \<Rightarrow> bool" where
  "asks_for ee es kvs r b \<longleftrightarrow>
     (case (md_getitem (md_of_pairs kvs) ''resp'', md_getitem (md_of_pairs kvs) ''resp_id'', md_getitem (md_of_pairs kvs) ''feature_group'') of
        (Inr rs, Inr rid, Inr fg) \<Rightarrow> py_int rs = Some 1 \<and> fg \<noteq> ''xcto'' \<and> get_body (ee_files ee) (ee_host ee) fg 1 = Inr b
          \<and> (case ee_db_id ee rid of Some i \<Rightarrow> (i, r) \<in> set (rows (es_db es)) | None \<Rightarrow> False)
      | _ \<Rightarrow> False)"

definition response_bytes :: "server_env \<Rightarrow> int \<Rightarrow> (pyval \<times> pyval) list \<Rightarrow> string \<Rightarrow> string" where
  "response_bytes sv code hs body =
     (let items = rh_items (rh_update hs []); names = (py_lower \<circ> fst) ` set items
      in rq_protocol sv @ '' '' @ int_str code @ '' '' @ default_message code @ CRLF
           @ concat (map header_line (items @ added_headers sv names (length body)))
           @ CRLF @ (if rq_method sv = ''HEAD'' then [] else body))"

lemma study_handles:
  assumes "study_server srv root sv (responses_function ee es wide)" and "endpoints_ok ee es" and "asks_for ee es kvs r b"
    and "rmap header_values (raw_header r) = Inr hs" and "list_all (\<lambda>(k, v). list_all plain k \<and> list_all plain v) kvs"
    and "''pipe'' \<notin> fst ` set kvs" and "env = request_env srv rq"
    and "up_path (req_url_parts rq) = ''/_hp/server/responses.py''" and "up_query (req_url_parts rq) = query_string kvs"
  shows "handle_safely (srv_site srv) env (Some (Made Python_Script_Handler None ''/'')) new_response
    = Some (Inr (), new_response\<lparr>rs_status := (status_code r, None), rs_headers := HObject (rh_update hs []), rs_content := CData (body_data b)\<rparr>)"
proof -
  let ?p = "root @ 47 # study_script"
  have env: "with_bases (Made Python_Script_Handler None ''/'') env = env" "he_request env = rq" "he_doc_root env = root"
    using assms(1,7) by (simp_all add: with_bases_def handler_bases_def request_env_def study_server_def)
  have path: "filesystem_path env None ''/'' = Inr ?p"
    using assms(1,8) env by (intro study_path) (simp_all add: study_server_def)
  have "\<not> contains_sub (cp ''.sub.'') []" by (simp add: cp_def)
  then have pipes: "pipe_string env [] = []" "pipe_string env ?p = []"
    using assms(1,9) env by (auto intro!: pipe_string_plain [OF _ assms(5,6)] simp: study_server_def)
  have get: "request_GET (he_request env) = md_of_pairs (map (\<lambda>(k, v). (cp k, cp v)) kvs)"
    using request_GET_plain [OF assms(9,5)] env by simp
  have ascii: "list_all (\<lambda>(k, v). is_ascii k \<and> is_ascii v) kvs"
    using assms(5) plain_ascii by (auto simp: list_all_iff)
  have "responses_function ee es wide env new_response
      = Some (Inr (RvStatus (StNum (status_code r)) hs (CData (body_data b))), new_response)"
    using assms(3,4) by (auto simp: asks_for_def split: sum.splits option.splits intro!: responses_function_row [OF assms(2) get ascii])
  then have "python_script_handler (si_scripts (srv_site srv)) env None ''/'' new_response
      = Some (Inr (), new_response\<lparr>rs_status := (status_code r, None), rs_headers := HObject (rh_update hs []), rs_content := CData (body_data b)\<rparr>)"
    using assms(1) decorated_script_sets [OF path, of "si_scripts (srv_site srv)" "responses_function ee es wide"] pipes
    by (simp add: study_server_def) (simp add: new_response_def)
  then show ?thesis by (simp add: handle_safely_def env)
qed

lemma no_landing_page:
  assumes "(''scheme'', ''http'') \<notin> set kvs"
  shows "md_get (md_of_pairs (map (\<lambda>(k, v). (cp k, cp v)) kvs)) (cp ''scheme'') None \<noteq> Some (cp ''http'')"
proof -
  let ?l = "map (\<lambda>(k, v). (cp k, cp v)) kvs" let ?vs = "map snd (filter (\<lambda>(k, v). k = cp ''scheme'') ?l)"
  have "cp ''http'' \<notin> set ?vs" using assms by auto
  moreover have "md_get (md_of_pairs ?l) (cp ''scheme'') None = (case ?vs of [] \<Rightarrow> None | v # _ \<Rightarrow> Some v)"
    using multidict_of_pairs [of ?l "cp ''scheme''"] unfolding md_get_def md_getitem_def by (simp split: list.split)
  ultimately show ?thesis by (cases ?vs) auto
qed


definition demo_study :: server where
  "demo_study = \<lparr>srv_rules = study_rewrites,
     srv_routes = (case router_of (new_routes_builder None) of Inr routes \<Rightarrow> routes | Inl _ \<Rightarrow> []),
     srv_site = demo_site\<lparr>si_scripts := (\<lambda>_. Inr (Some (decorated (responses_function demo_endpoint_env demo_state (\<lambda>_. Inl ValueError)))))\<rparr>,
     srv_env = served ''/''\<rparr>"

definition demo_head :: head where
  "demo_head = \<lparr>hd_scheme = ''https'', hd_server_host = ''h'', hd_server_port = 443, hd_protocol = ''HTTP/1.1'', hd_command = ''GET'',
     hd_path = ''/_hp/server/responses.py?resp=1&resp_id=1&feature_group=framing'', hd_headers = [(''Host'', ''sub.h'')], hd_body = []\<rparr>"


end
