(* ===== verification/Http2_Writer.thy ===== *)
theory Http2_Writer
  imports Server
begin

text \<open>
  Responses over HTTP/2 (\<open>H2Response\<close> and \<open>H2ResponseWriter\<close> of \<open>tools/wptserve/wptserve/response.py\<close>). The connection
  object of the package h2 is a parameter: its state, what its methods make of it, and what the other threads did to it
  when the lock is acquired; so are the frames of the package hyperframe and the socket. The texts of the package are
  Latin-1 or ASCII here as in HTTP/1.1.
\<close>

section \<open>The connection\<close>

text \<open>
  \<open>ha_others\<close> is what happened to the connection before the n-th time the lock is acquired, \<open>ha_socket\<close> the exception of
  the n-th \<open>sendall\<close>, if any.
\<close>

record 'c h2_api =
  ha_send_headers :: "int \<Rightarrow> (pyval \<times> ustr) list \<Rightarrow> bool \<Rightarrow> 'c \<Rightarrow> exc + 'c"
  ha_send_data :: "int \<Rightarrow> string \<Rightarrow> bool \<Rightarrow> 'c \<Rightarrow> exc + 'c"
  ha_end_stream :: "int \<Rightarrow> 'c \<Rightarrow> exc + 'c"
  ha_next_stream :: "'c \<Rightarrow> int res"
  ha_push_stream :: "int \<Rightarrow> int \<Rightarrow> (string \<times> string) list \<Rightarrow> 'c \<Rightarrow> exc + 'c"
  ha_max_frame_size :: "'c \<Rightarrow> int"
  ha_window :: "int \<Rightarrow> 'c \<Rightarrow> int res"
  ha_data_to_send :: "'c \<Rightarrow> string \<times> 'c"
  ha_hpack :: "(string \<times> string) list \<Rightarrow> 'c \<Rightarrow> string \<times> 'c"
  ha_others :: "nat \<Rightarrow> 'c \<Rightarrow> 'c"
  ha_socket :: "nat \<Rightarrow> exc option"
  ha_stream :: int
  ha_method :: string

text \<open>The writer: besides its attributes, the bytes sent and the calls the connection accepted.\<close>

datatype h2_call =
    Sent_Headers int "(pyval \<times> ustr) list" bool
  | Sent_Data int string bool
  | Ended int
  | Pushed int int "(string \<times> string) list"

record 'c h2_writer =
  hw_conn :: 'c
  hw_turn :: nat
  hw_calls :: nat
  hw_sent :: string
  hw_log :: "h2_call list"
  stream_ended :: bool
  content_written :: bool

type_synonym ('c, 'a) h2_act = "(exc, 'c h2_writer, 'a) act"

text \<open>\<open>with self.h2conn as connection\<close>.\<close>

definition with_connection :: "'c h2_api \<Rightarrow> ('c, unit) h2_act" where
  "with_connection api = change (\<lambda>w. w\<lparr>hw_conn := ha_others api (hw_turn w) (hw_conn w), hw_turn := Suc (hw_turn w)\<rparr>)"

definition on_connection :: "h2_call \<Rightarrow> ('c \<Rightarrow> exc + 'c) \<Rightarrow> ('c, unit) h2_act" where
  "on_connection call f w =
     (case f (hw_conn w) of Inl e \<Rightarrow> (Inl e, w) | Inr c \<Rightarrow> (Inr (), w\<lparr>hw_conn := c, hw_log := hw_log w @ [call]\<rparr>))"

definition h2_write_raw :: "'c h2_api \<Rightarrow> string \<Rightarrow> ('c, unit) h2_act" where
  "h2_write_raw api raw_data w =
     (case ha_socket api (hw_calls w) of
        Some e \<Rightarrow> (Inl e, w\<lparr>content_written := True, hw_calls := Suc (hw_calls w)\<rparr>)
      | None \<Rightarrow> (Inr (), w\<lparr>content_written := True, hw_calls := Suc (hw_calls w), hw_sent := hw_sent w @ raw_data\<rparr>))"

definition h2_write :: "'c h2_api \<Rightarrow> ('c, unit) h2_act" where
  "h2_write api w =
     (case ha_data_to_send api (hw_conn w) of
        (data, c) \<Rightarrow> h2_write_raw api data (w\<lparr>hw_conn := c\<rparr>))"

definition stream_or :: "'c h2_api \<Rightarrow> int option \<Rightarrow> int" where
  "stream_or api stream_id = (case stream_id of None \<Rightarrow> ha_stream api | Some i \<Rightarrow> i)"

section \<open>Headers\<close>

definition h2_headers :: "string list" where
  "h2_headers = [''method'', ''scheme'', ''host'', ''path'', ''authority'', ''status'']"

definition header_text :: "pyval \<Rightarrow> pyval res" where
  "header_text h = (case h of PBytes b \<Rightarrow> if is_ascii b then Inr (PStr b) else Inl UnicodeError | _ \<Rightarrow> Inr h)"

definition value_as_text :: "pyval \<Rightarrow> ustr res" where
  "value_as_text v = (case v of PBytes b \<Rightarrow> utf8_decode b | PStr s \<Rightarrow> Inr (text_of s) | PInt i \<Rightarrow> Inr (cp (int_str i)))"

fun split_headers :: "(pyval \<times> pyval) list \<Rightarrow> ((pyval \<times> ustr) list \<times> (pyval \<times> ustr) list) res" where
  "split_headers [] = Inr ([], [])"
| "split_headers ((h, v) # hs) =
     rbind (header_text h) (\<lambda>h. rbind (value_as_text v) (\<lambda>v.
     rbind (split_headers hs) (\<lambda>(formatted, secondary).
       case h of
         PStr n \<Rightarrow> if n \<in> set h2_headers then Inr ((PStr ('':'' @ n), v) # formatted, secondary)
                  else Inr (formatted, (h, v) # secondary)
       | _ \<Rightarrow> Inr (formatted, (h, v) # secondary))))"

definition h2_write_headers :: "'c h2_api \<Rightarrow> (pyval \<times> pyval) list \<Rightarrow> int \<Rightarrow> int option \<Rightarrow> bool \<Rightarrow> ('c, unit) h2_act" where
  "h2_write_headers api hs code stream_id is_last =
     and_then (of_res (split_headers hs)) (\<lambda>(formatted, secondary).
     and_then (with_connection api) (\<lambda>_.
       let hs = formatted @ (PStr '':status'', cp (int_str code)) # secondary; sid = stream_or api stream_id;
           fin = (is_last \<or> ha_method api = ''HEAD'')
       in and_then (on_connection (Sent_Headers sid hs fin) (ha_send_headers api sid hs fin)) (\<lambda>_. h2_write api)))"

section \<open>Data\<close>

definition write_data_frame :: "'c h2_api \<Rightarrow> string \<Rightarrow> bool \<Rightarrow> int option \<Rightarrow> ('c, unit) h2_act" where
  "write_data_frame api data is_last stream_id =
     and_then (with_connection api) (\<lambda>_.
     and_then (on_connection (Sent_Data (stream_or api stream_id) data is_last)
        (ha_send_data api (stream_or api stream_id) data is_last)) (\<lambda>_.
     and_then (h2_write api) (\<lambda>_. change (\<lambda>w. w\<lparr>stream_ended := is_last\<rparr>))))"

definition get_max_payload_size :: "'c h2_api \<Rightarrow> int option \<Rightarrow> ('c, int) h2_act" where
  "get_max_payload_size api stream_id =
     and_then (with_connection api) (\<lambda>_. and_then get_state (\<lambda>w.
     and_then (of_res (ha_window api (stream_or api stream_id) (hw_conn w))) (\<lambda>window.
       give (min (ha_max_frame_size api (hw_conn w)) window - 9))))"

text \<open>\<open>read(n)\<close>: everything for a negative number.\<close>

definition read_upto :: "int \<Rightarrow> string \<Rightarrow> string \<times> string" where
  "read_upto n s = (if n < 0 then (s, []) else (take (nat n) s, drop (nat n) s))"

text \<open>The loop of \<open>write_data\<close>, with \<open>data_len\<close> and the unread data; its result is the rest for the last frame.\<close>

partial_function (option) send_pieces ::
  "'c h2_api \<Rightarrow> int option \<Rightarrow> int \<Rightarrow> string \<Rightarrow> int \<Rightarrow> 'c h2_writer \<Rightarrow> ((exc + string) \<times> 'c h2_writer) option" where
  "send_pieces api stream_id data_len data payload_size w =
     (if data_len \<le> payload_size then Some (Inr data, w)
      else (case write_data_frame api (fst (read_upto payload_size data)) False stream_id w of
              (Inl e, w1) \<Rightarrow> Some (Inl e, w1)
            | (Inr _, w1) \<Rightarrow>
                (case get_max_payload_size api None w1 of
                   (Inl e, w2) \<Rightarrow> Some (Inl e, w2)
                 | (Inr p, w2) \<Rightarrow> send_pieces api stream_id (data_len - payload_size) (snd (read_upto payload_size data)) p w2)))"

text \<open>An item is encoded, a file is read from its start.\<close>

definition item_bytes :: "chunk \<Rightarrow> string res" where
  "item_bytes c = (case c of
     Plain d \<Rightarrow> encode d
   | File f \<Rightarrow> if file_closed f then Inl ValueError else Inr (file_rest f))"

definition h2_write_data :: "'c h2_api \<Rightarrow> chunk \<Rightarrow> bool \<Rightarrow> int option \<Rightarrow> 'c h2_writer \<Rightarrow> ((exc + unit) \<times> 'c h2_writer) option" where
  "h2_write_data api item is_last stream_id w =
     (case item_bytes item of
        Inl e \<Rightarrow> Some (Inl e, w)
      | Inr data \<Rightarrow>
          (case get_max_payload_size api None w of
             (Inl e, w1) \<Rightarrow> Some (Inl e, w1)
           | (Inr p, w1) \<Rightarrow>
               (case send_pieces api stream_id (int (length data)) data p w1 of
                  None \<Rightarrow> None
                | Some (Inl e, w2) \<Rightarrow> Some (Inl e, w2)
                | Some (Inr rest, w2) \<Rightarrow> Some (write_data_frame api rest is_last stream_id w2))))"

section \<open>Responses\<close>

text \<open>The generator is one item ahead, so an exception of an item is raised before the item in front of it is written.\<close>

fun send_items :: "'c h2_api \<Rightarrow> chunk \<Rightarrow> chunk res list \<Rightarrow> 'c h2_writer \<Rightarrow> ((exc + unit) \<times> 'c h2_writer) option" where
  "send_items api item [] w = (if truthy item then h2_write_data api item True None w else Some (Inr (), w))"
| "send_items api item (Inl e # _) w = Some (Inl e, w)"
| "send_items api item (Inr check_last # items) w =
     (case h2_write_data api item False None w of
        None \<Rightarrow> None
      | Some (Inl e, w1) \<Rightarrow> Some (Inl e, w1)
      | Some (Inr _, w1) \<Rightarrow> send_items api check_last items w1)"

definition h2_write_content :: "'c h2_api \<Rightarrow> response \<Rightarrow> 'c h2_writer \<Rightarrow> ((exc + unit) \<times> 'c h2_writer) option" where
  "h2_write_content api r w =
     (if ha_method api = ''HEAD'' \<and> \<not> rs_head_body r then Some (Inr (), w)
      else (case iter_content (rs_content r) of
              [] \<Rightarrow> Some (Inr (), w)
            | Inl e # _ \<Rightarrow> Some (Inl e, w)
            | Inr item # items \<Rightarrow> send_items api item items w))"

definition h2_write_status_headers :: "'c h2_api \<Rightarrow> response \<Rightarrow> ('c, unit) h2_act" where
  "h2_write_status_headers api r = h2_write_headers api (header_items (rs_headers r)) (fst (rs_status r)) None False"

definition h2_write_response :: "'c h2_api \<Rightarrow> response \<Rightarrow> 'c h2_writer \<Rightarrow> ((exc + unit) \<times> 'c h2_writer) option" where
  "h2_write_response api r w =
     (case h2_write_status_headers api r w of
        (Inl e, w1) \<Rightarrow> Some (Inl e, w1)
      | (Inr _, w1) \<Rightarrow> h2_write_content api r w1)"

definition h2_end_stream :: "'c h2_api \<Rightarrow> int option \<Rightarrow> ('c, unit) h2_act" where
  "h2_end_stream api stream_id =
     and_then (with_connection api) (\<lambda>_.
     and_then (on_connection (Ended (stream_or api stream_id)) (ha_end_stream api (stream_or api stream_id))) (\<lambda>_.
     and_then (h2_write api) (\<lambda>_. change (\<lambda>w. w\<lparr>stream_ended := True\<rparr>))))"

section \<open>Pushed responses and raw frames\<close>

text \<open>\<open>write_push\<close>; the result is the id of the new stream.\<close>

definition write_promise :: "'c h2_api \<Rightarrow> (string \<times> string) list \<Rightarrow> int option \<Rightarrow> ('c, int) h2_act" where
  "write_promise api promise_headers push_stream_id =
     and_then (with_connection api) (\<lambda>_. and_then get_state (\<lambda>w.
     and_then (case push_stream_id of Some i \<Rightarrow> give i | None \<Rightarrow> of_res (ha_next_stream api (hw_conn w))) (\<lambda>i.
     and_then (on_connection (Pushed (ha_stream api) i promise_headers) (ha_push_stream api (ha_stream api) i promise_headers)) (\<lambda>_.
     and_then (h2_write api) (\<lambda>_. give i)))))"

definition write_push ::
  "'c h2_api \<Rightarrow> (string \<times> string) list \<Rightarrow> int option \<Rightarrow> int option \<Rightarrow> (pyval \<times> pyval) list option \<Rightarrow> chunk option
     \<Rightarrow> 'c h2_writer \<Rightarrow> ((exc + int) \<times> 'c h2_writer) option" where
  "write_push api promise_headers push_stream_id status response_headers response_data w =
     (case and_then (write_promise api promise_headers push_stream_id) (\<lambda>i.
           and_then (case response_headers of
                       None \<Rightarrow> give ()
                     | Some hs \<Rightarrow> (case status of
                           None \<Rightarrow> raise AssertionError
                         | Some code \<Rightarrow> h2_write_headers api hs code (Some i) (response_data = None))) (\<lambda>_. give i)) w of
        (Inl e, w1) \<Rightarrow> Some (Inl e, w1)
      | (Inr i, w1) \<Rightarrow>
          (case response_data of
             None \<Rightarrow> Some (Inr i, w1)
           | Some d \<Rightarrow> map_option (\<lambda>(r, w2). (map_sum id (\<lambda>_. i) r, w2)) (h2_write_data api d True (Some i) w1)))"

text \<open>The serialised frames are a parameter: its kind, its stream, its payload and its flags.\<close>

datatype frame_kind = Headers_Frame | Data_Frame | Continuation_Frame

type_synonym serialize = "frame_kind \<Rightarrow> int \<Rightarrow> string \<Rightarrow> string list \<Rightarrow> string"

text \<open>\<open>if not stream_id\<close>: also stream 0 stands for the stream of the request.\<close>

definition raw_stream :: "'c h2_api \<Rightarrow> int option \<Rightarrow> int" where
  "raw_stream api stream_id = (case stream_id of None \<Rightarrow> ha_stream api | Some i \<Rightarrow> if i = 0 then ha_stream api else i)"

definition write_raw_header_frame ::
  "'c h2_api \<Rightarrow> serialize \<Rightarrow> (string \<times> string) list \<Rightarrow> int option \<Rightarrow> bool \<Rightarrow> bool \<Rightarrow> frame_kind \<Rightarrow> ('c, unit) h2_act" where
  "write_raw_header_frame api serialize headers stream_id end_stream headers_end frame_cls =
     and_then (with_connection api) (\<lambda>_. and_then get_state (\<lambda>w.
       case ha_hpack api headers (hw_conn w) of
         (block, c) \<Rightarrow>
           and_then (change (\<lambda>w. w\<lparr>hw_conn := c, stream_ended := stream_ended w \<or> end_stream\<rparr>)) (\<lambda>_.
             h2_write_raw api (serialize frame_cls (raw_stream api stream_id) block
               ((if end_stream then [''END_STREAM''] else []) @ (if headers_end then [''END_HEADERS''] else []))))))"

definition write_raw_data_frame :: "'c h2_api \<Rightarrow> serialize \<Rightarrow> string \<Rightarrow> int option \<Rightarrow> bool \<Rightarrow> ('c, unit) h2_act" where
  "write_raw_data_frame api serialize data stream_id end_stream =
     and_then (change (\<lambda>w. w\<lparr>stream_ended := stream_ended w \<or> end_stream\<rparr>)) (\<lambda>_.
       h2_write_raw api (serialize Data_Frame (raw_stream api stream_id) data (if end_stream then [''END_STREAM''] else [])))"

definition write_raw_continuation_frame :: "'c h2_api \<Rightarrow> serialize \<Rightarrow> (string \<times> string) list \<Rightarrow> int option \<Rightarrow> bool \<Rightarrow> ('c, unit) h2_act" where
  "write_raw_continuation_frame api serialize headers stream_id headers_end =
     write_raw_header_frame api serialize headers stream_id False headers_end Continuation_Frame"


section \<open>A stream with room\<close>

text \<open>
  What h2 promises while a stream is open: \<open>J k\<close> before and \<open>I k\<close> after the headers, with room for \<open>k\<close> more bytes in
  frames of at most \<open>F\<close> bytes; what other threads do keeps this.
\<close>

definition stream_room :: "'c h2_api \<Rightarrow> (nat \<Rightarrow> 'c \<Rightarrow> bool) \<Rightarrow> (nat \<Rightarrow> 'c \<Rightarrow> bool) \<Rightarrow> int \<Rightarrow> bool" where
  "stream_room api J I F \<longleftrightarrow> 10 \<le> F \<and> (\<forall>n. ha_socket api n = None)
     \<and> (\<forall>n k c. J k c \<longrightarrow> J k (ha_others api n c)) \<and> (\<forall>n k c. I k c \<longrightarrow> I k (ha_others api n c))
     \<and> (\<forall>k c. I k c \<longrightarrow> I k (snd (ha_data_to_send api c)))
     \<and> (\<forall>k c hs. J k c \<longrightarrow> (\<exists>c'. ha_send_headers api (ha_stream api) hs False c = Inr c' \<and> I k c'))
     \<and> (\<forall>k c. I k c \<longrightarrow> ha_max_frame_size api c = F \<and> (\<exists>v. ha_window api (ha_stream api) c = Inr v \<and> int k + 10 \<le> v))
     \<and> (\<forall>k c d. I k c \<longrightarrow> length d \<le> k \<longrightarrow> int (length d) \<le> F \<longrightarrow>
          (\<exists>c'. ha_send_data api (ha_stream api) d False c = Inr c' \<and> I (k - length d) c'))
     \<and> (\<forall>k c d. I k c \<longrightarrow> length d \<le> k \<longrightarrow> int (length d) \<le> F \<longrightarrow> (\<exists>c'. ha_send_data api (ha_stream api) d True c = Inr c'))
     \<and> (\<forall>k c. I k c \<longrightarrow> (\<exists>c'. ha_end_stream api (ha_stream api) c = Inr c'))"

lemma roomD:
  assumes "stream_room api J I F"
  shows "10 \<le> F" "ha_socket api n = None" "J k c \<Longrightarrow> J k (ha_others api n c)" "I k c \<Longrightarrow> I k (ha_others api n c)"
    "I k c \<Longrightarrow> I k (snd (ha_data_to_send api c))"
    "J k c \<Longrightarrow> \<exists>c'. ha_send_headers api (ha_stream api) hs False c = Inr c' \<and> I k c'"
    "I k c \<Longrightarrow> ha_max_frame_size api c = F"
    "I k c \<Longrightarrow> \<exists>v. ha_window api (ha_stream api) c = Inr v \<and> int k + 10 \<le> v"
    "I k c \<Longrightarrow> length d \<le> k \<Longrightarrow> int (length d) \<le> F \<Longrightarrow> \<exists>c'. ha_send_data api (ha_stream api) d False c = Inr c' \<and> I (k - length d) c'"
    "I k c \<Longrightarrow> length d \<le> k \<Longrightarrow> int (length d) \<le> F \<Longrightarrow> \<exists>c'. ha_send_data api (ha_stream api) d True c = Inr c'"
    "I k c \<Longrightarrow> \<exists>c'. ha_end_stream api (ha_stream api) c = Inr c'"
  using assms unfolding stream_room_def by - ((elim conjE)?, meson)+

text \<open>The state after a call: what the connection accepted, and whether the stream is ended.\<close>

definition reached :: "(nat \<Rightarrow> 'c \<Rightarrow> bool) \<Rightarrow> nat \<Rightarrow> h2_call list \<Rightarrow> bool \<Rightarrow> 'c h2_writer \<Rightarrow> bool" where
  "reached I k log done w \<longleftrightarrow> hw_log w = log \<and> stream_ended w = done \<and> content_written w \<and> (\<not> done \<longrightarrow> I k (hw_conn w))"

lemma h2_write_ok:
  assumes "ha_socket api (hw_calls w) = None"
  shows "\<exists>w'. h2_write api w = (Inr (), w') \<and> hw_conn w' = snd (ha_data_to_send api (hw_conn w)) \<and> hw_log w' = hw_log w
     \<and> stream_ended w' = stream_ended w \<and> content_written w'"
  using assms by (auto simp: h2_write_def h2_write_raw_def split: prod.split)

lemma send_frame:
  assumes room: "stream_room api J I F" and i: "I k (hw_conn w)" and len: "length d \<le> k" "int (length d) \<le> F"
  shows "\<exists>w'. write_data_frame api d fin None w = (Inr (), w')
     \<and> reached I (k - length d) (hw_log w @ [Sent_Data (ha_stream api) d fin]) fin w'"
proof -
  let ?c = "ha_others api (hw_turn w) (hw_conn w)"
  have i': "I k ?c" using roomD(4) [OF room i] .
  obtain c' where c': "ha_send_data api (ha_stream api) d fin ?c = Inr c'" "\<not> fin \<Longrightarrow> I (k - length d) c'"
    using roomD(9) [OF room i' len] roomD(10) [OF room i' len] by (cases fin) auto
  let ?w = "w\<lparr>hw_turn := Suc (hw_turn w), hw_conn := c', hw_log := hw_log w @ [Sent_Data (ha_stream api) d fin]\<rparr>"
  obtain w' where w': "h2_write api ?w = (Inr (), w')" "hw_conn w' = snd (ha_data_to_send api c')"
      "hw_log w' = hw_log w @ [Sent_Data (ha_stream api) d fin]" "content_written w'"
    using h2_write_ok [of api ?w] roomD(2) [OF room] by auto
  have "write_data_frame api d fin None w = (Inr (), w'\<lparr>stream_ended := fin\<rparr>)"
    using c'(1) w'(1) by (simp add: write_data_frame_def with_connection_def and_then_change on_connection_def and_then_def
        stream_or_def change_def)
  then show ?thesis using w' c'(2) roomD(5) [OF room] by (auto simp: reached_def)
qed

lemma payload_ok:
  assumes room: "stream_room api J I F" and i: "I k (hw_conn w)"
  shows "\<exists>p w'. get_max_payload_size api None w = (Inr p, w') \<and> 1 \<le> p \<and> p \<le> F \<and> I k (hw_conn w') \<and> hw_log w' = hw_log w
     \<and> content_written w' = content_written w \<and> stream_ended w' = stream_ended w"
proof -
  let ?c = "ha_others api (hw_turn w) (hw_conn w)"
  have i': "I k ?c" using roomD(4) [OF room i] .
  obtain v where "ha_window api (ha_stream api) ?c = Inr v" "int k + 10 \<le> v" using roomD(8) [OF room i'] by blast
  then show ?thesis using roomD(7) [OF room i'] roomD(1) [OF room] i'
    by (simp add: get_max_payload_size_def with_connection_def and_then_change and_then_get_state stream_or_def act_simps)
qed

fun data_frames :: "int \<Rightarrow> bool \<Rightarrow> string list \<Rightarrow> h2_call list" where
  "data_frames sid fin [] = []"
| "data_frames sid fin [d] = [Sent_Data sid d fin]"
| "data_frames sid fin (d # ds) = Sent_Data sid d False # data_frames sid fin ds"

lemma send_pieces_ok:
  assumes room: "stream_room api J I F"
  shows "I k (hw_conn w) \<Longrightarrow> length data \<le> k \<Longrightarrow> 1 \<le> p \<Longrightarrow> p \<le> F \<Longrightarrow>
    \<exists>ps rest w'. send_pieces api None (int (length data)) data p w = Some (Inr rest, w') \<and> concat ps @ rest = data
      \<and> int (length rest) \<le> F \<and> I (k - length (concat ps)) (hw_conn w')
      \<and> hw_log w' = hw_log w @ map (\<lambda>d. Sent_Data (ha_stream api) d False) ps"
proof (induction "length data" arbitrary: data k w p rule: less_induct)
  case less
  show ?case
  proof (cases "int (length data) \<le> p")
    case True
    then show ?thesis using less.prems by (subst send_pieces.simps) (auto intro!: exI [of _ "[]"])
  next
    case False
    let ?n = "nat p" let ?d = "take ?n data" let ?rest = "drop ?n data"
    have n: "0 < ?n" "?n < length data" "length ?d = ?n" using False less.prems(3) by auto
    obtain w1 where w1: "write_data_frame api ?d False None w = (Inr (), w1)"
        "reached I (k - ?n) (hw_log w @ [Sent_Data (ha_stream api) ?d False]) False w1"
      using send_frame [OF room less.prems(1), of ?d False] n less.prems(2,3,4) by auto
    then have i1: "I (k - ?n) (hw_conn w1)" by (simp add: reached_def)
    obtain p' w2 where w2: "get_max_payload_size api None w1 = (Inr p', w2)" "1 \<le> p'" "p' \<le> F" "I (k - ?n) (hw_conn w2)" "hw_log w2 = hw_log w1"
      using payload_ok [OF room i1] by blast
    have "length ?rest < length data" "length ?rest \<le> k - ?n" using n less.prems(2) by auto
    then obtain ps rest w' where IH: "send_pieces api None (int (length ?rest)) ?rest p' w2 = Some (Inr rest, w')"
        "concat ps @ rest = ?rest" "int (length rest) \<le> F" "I (k - ?n - length (concat ps)) (hw_conn w')"
        "hw_log w' = hw_log w2 @ map (\<lambda>d. Sent_Data (ha_stream api) d False) ps"
      using less.hyps [OF _ w2(4) _ w2(2,3)] by blast
    have "int (length data) - p = int (length ?rest)" using n less.prems(3) by auto
    then have "send_pieces api None (int (length data)) data p w = Some (Inr rest, w')"
      using False less.prems(3) w1(1) w2(1) IH(1) by (subst send_pieces.simps) (simp add: read_upto_def)
    moreover have "concat (?d # ps) @ rest = data" using IH(2) by simp
    moreover have "I (k - length (concat (?d # ps))) (hw_conn w')" using IH(4) n by simp
    moreover have "hw_log w' = hw_log w @ map (\<lambda>d. Sent_Data (ha_stream api) d False) (?d # ps)"
      using IH(5) w1(2) w2(5) by (simp add: reached_def)
    ultimately show ?thesis using IH(3) by blast
  qed
qed

lemma data_frames_snoc: "data_frames sid fin (ps @ [d]) = map (\<lambda>d. Sent_Data sid d False) ps @ [Sent_Data sid d fin]"
proof (induction ps)
  case (Cons p ps)
  then show ?case by (cases ps) simp_all
qed simp

lemma data_frames_False: "data_frames sid False ps = map (\<lambda>d. Sent_Data sid d False) ps"
proof (induction ps)
  case (Cons p ps)
  then show ?case by (cases ps) simp_all
qed simp

lemma data_frames_append: "ds \<noteq> [] \<Longrightarrow> data_frames sid False ps @ data_frames sid fin ds = data_frames sid fin (ps @ ds)"
proof (induction ps)
  case (Cons p ps)
  then have "ps @ ds \<noteq> []" by simp
  then obtain q qs where "ps @ ds = q # qs" by (meson neq_Nil_conv)
  then show ?case using Cons by (simp add: data_frames_False)
qed simp

lemma h2_write_data_ok:
  assumes room: "stream_room api J I F" and i: "I k (hw_conn w)" and b: "item_bytes item = Inr b" "length b \<le> k"
  shows "\<exists>ds w'. h2_write_data api item fin None w = Some (Inr (), w') \<and> ds \<noteq> [] \<and> concat ds = b
     \<and> reached I (k - length b) (hw_log w @ data_frames (ha_stream api) fin ds) fin w'"
proof -
  obtain p w1 where w1: "get_max_payload_size api None w = (Inr p, w1)" "1 \<le> p" "p \<le> F" "I k (hw_conn w1)" "hw_log w1 = hw_log w"
    using payload_ok [OF room i] by blast
  obtain ps rest w2 where w2: "send_pieces api None (int (length b)) b p w1 = Some (Inr rest, w2)" "concat ps @ rest = b"
      "int (length rest) \<le> F" "I (k - length (concat ps)) (hw_conn w2)"
      "hw_log w2 = hw_log w1 @ map (\<lambda>d. Sent_Data (ha_stream api) d False) ps"
    using send_pieces_ok [OF room w1(4) b(2) w1(2,3)] by blast
  have len: "length b = length (concat ps) + length rest" using w2(2) by (metis length_append)
  then have "length rest \<le> k - length (concat ps)" using b(2) by simp
  then obtain w3 where w3: "write_data_frame api rest fin None w2 = (Inr (), w3)"
      "reached I (k - length (concat ps) - length rest) (hw_log w2 @ [Sent_Data (ha_stream api) rest fin]) fin w3"
    using send_frame [OF room w2(4) _ w2(3)] by blast
  have "h2_write_data api item fin None w = Some (Inr (), w3)"
    using b(1) w1(1) w2(1) w3(1) by (simp add: h2_write_data_def)
  moreover have "reached I (k - length b) (hw_log w @ data_frames (ha_stream api) fin (ps @ [rest])) fin w3"
    using w3(2) w2(5) w1(5) len by (simp add: data_frames_snoc)
  moreover have "concat (ps @ [rest]) = b" using w2(2) by simp
  ultimately show ?thesis by blast
qed

lemma truthy_item: "item_bytes c = Inr b \<Longrightarrow> \<not> truthy c \<Longrightarrow> b = []"
  by (auto simp: item_bytes_def truthy_def encode_def utf8_encode_def)

lemma send_items_ok:
  assumes room: "stream_room api J I F"
  shows "I k (hw_conn w) \<Longrightarrow> map item_bytes (item # cs) = map Inr bs \<Longrightarrow> length (concat bs) \<le> k \<Longrightarrow> content_written w \<Longrightarrow>
    \<not> stream_ended w \<Longrightarrow>
    \<exists>ds w'. send_items api item (map Inr cs) w = Some (Inr (), w') \<and> concat ds = concat bs
      \<and> reached I (k - length (concat bs)) (hw_log w @ data_frames (ha_stream api) (truthy (last (item # cs))) ds)
          (truthy (last (item # cs))) w' \<and> (truthy (last (item # cs)) \<longrightarrow> ds \<noteq> [])"
proof (induction cs arbitrary: item w k bs)
  case Nil
  then obtain b where b: "bs = [b]" "item_bytes item = Inr b" "length b \<le> k" by (cases bs) auto
  show ?case
  proof (cases "truthy item")
    case True
    then show ?thesis using h2_write_data_ok [OF room Nil.prems(1) b(2,3), of True] b(1) by auto
  next
    case False
    then have "b = []" using truthy_item b(2) by blast
    then show ?thesis using False Nil.prems b(1) by (auto simp: reached_def intro!: exI [of _ "[]"])
  qed
next
  case (Cons c cs)
  then obtain b bs' where bs: "bs = b # bs'" "item_bytes item = Inr b" "map item_bytes (c # cs) = map Inr bs'"
    by (cases bs) auto
  have len: "length b \<le> k" "length (concat bs') \<le> k - length b" "k - length b - length (concat bs') = k - length (concat bs)"
    using Cons.prems(3) bs(1) by auto
  obtain ds1 w1 where w1: "h2_write_data api item False None w = Some (Inr (), w1)" "concat ds1 = b"
      "reached I (k - length b) (hw_log w @ data_frames (ha_stream api) False ds1) False w1"
    using h2_write_data_ok [OF room Cons.prems(1) bs(2) len(1), of False] by auto
  then have w1': "I (k - length b) (hw_conn w1)" "content_written w1" "\<not> stream_ended w1"
      "hw_log w1 = hw_log w @ data_frames (ha_stream api) False ds1" by (simp_all add: reached_def)
  let ?fin = "truthy (last (c # cs))"
  obtain ds2 w2 where w2: "send_items api c (map Inr cs) w1 = Some (Inr (), w2)" "concat ds2 = concat bs'"
      "reached I (k - length b - length (concat bs')) (hw_log w1 @ data_frames (ha_stream api) ?fin ds2) ?fin w2" "?fin \<longrightarrow> ds2 \<noteq> []"
    using Cons.IH [OF w1'(1) bs(3) len(2) w1'(2,3)] by blast
  have "data_frames (ha_stream api) False ds1 @ data_frames (ha_stream api) ?fin ds2 = data_frames (ha_stream api) ?fin (ds1 @ ds2)"
  proof (cases "ds2 = []")
    case True
    then show ?thesis using w2(4) by (simp add: data_frames_False)
  qed (rule data_frames_append)
  then have "reached I (k - length (concat bs)) (hw_log w @ data_frames (ha_stream api) ?fin (ds1 @ ds2)) ?fin w2"
    using w2(3) w1'(4) len(3) by simp
  moreover have "send_items api item (map Inr (c # cs)) w = Some (Inr (), w2)" using w1(1) w2(1) by simp
  moreover have "concat (ds1 @ ds2) = concat bs" using w1(2) w2(2) bs(1) by simp
  ultimately show ?case using w2(4) by (intro exI [of _ "ds1 @ ds2"] exI [of _ w2]) simp
qed

text \<open>The content: every item and its bytes.\<close>

definition content_bytes :: "content \<Rightarrow> chunk list \<Rightarrow> string list \<Rightarrow> bool" where
  "content_bytes content cs bs \<longleftrightarrow> iter_content content = map Inr cs \<and> map item_bytes cs = map Inr bs"

definition ends_content :: "chunk list \<Rightarrow> bool" where
  "ends_content cs \<longleftrightarrow> cs \<noteq> [] \<and> truthy (last cs)"

lemma h2_write_headers_ok:
  assumes room: "stream_room api J I F" and j: "J k (hw_conn w)" and hs: "split_headers hs = Inr (formatted, secondary)"
    and m: "ha_method api \<noteq> ''HEAD''" and w: "\<not> stream_ended w"
  shows "\<exists>w'. h2_write_headers api hs code None False w = (Inr (), w') \<and> reached I k (hw_log w @
     [Sent_Headers (ha_stream api) (formatted @ (PStr '':status'', cp (int_str code)) # secondary) False]) False w'"
proof -
  let ?c = "ha_others api (hw_turn w) (hw_conn w)"
  let ?h = "formatted @ (PStr '':status'', cp (int_str code)) # secondary"
  have "J k ?c" using roomD(3) [OF room j] .
  then obtain c' where c': "ha_send_headers api (ha_stream api) ?h False ?c = Inr c'" "I k c'"
    using roomD(6) [OF room] by blast
  let ?w = "w\<lparr>hw_turn := Suc (hw_turn w), hw_conn := c', hw_log := hw_log w @ [Sent_Headers (ha_stream api) ?h False]\<rparr>"
  obtain w' where w': "h2_write api ?w = (Inr (), w')" "hw_conn w' = snd (ha_data_to_send api c')"
      "hw_log w' = hw_log w @ [Sent_Headers (ha_stream api) ?h False]" "content_written w'" "\<not> stream_ended w'"
    using h2_write_ok [of api ?w] roomD(2) [OF room] w by auto
  have "h2_write_headers api hs code None False w = (Inr (), w')"
    using c'(1) w'(1) m by (simp add: h2_write_headers_def hs with_connection_def and_then_change on_connection_def and_then_def
        stream_or_def change_def Let_def)
  then show ?thesis using w' c'(2) roomD(5) [OF room] by (auto simp: reached_def)
qed

lemma response_in_frames:
  assumes "stream_room api J I F" and "J k (hw_conn w)" and "\<not> stream_ended w" and "ha_method api \<noteq> ''HEAD''"
    and "split_headers (header_items (rs_headers r)) = Inr (formatted, secondary)"
    and "content_bytes (rs_content r) cs bs" and "length (concat bs) \<le> k"
  shows "\<exists>ds w'. h2_write_response api r w = Some (Inr (), w') \<and> concat ds = concat bs \<and> (ends_content cs \<longrightarrow> ds \<noteq> [])
     \<and> reached I (k - length (concat bs)) (hw_log w @
          Sent_Headers (ha_stream api) (formatted @ (PStr '':status'', cp (int_str (fst (rs_status r)))) # secondary) False
          # data_frames (ha_stream api) (ends_content cs) ds) (ends_content cs) w'"
proof -
  obtain w1 where w1: "h2_write_status_headers api r w = (Inr (), w1)" "reached I k (hw_log w @
     [Sent_Headers (ha_stream api) (formatted @ (PStr '':status'', cp (int_str (fst (rs_status r)))) # secondary) False]) False w1"
    using h2_write_headers_ok [OF assms(1,2,5,4,3)] unfolding h2_write_status_headers_def by blast
  show ?thesis
  proof (cases cs)
    case Nil
    then have "bs = []" "h2_write_response api r w = Some (Inr (), w1)"
      using assms(6) w1(1) by (auto simp: content_bytes_def h2_write_response_def h2_write_content_def)
    then show ?thesis using w1(2) Nil by (intro exI [of _ "[]"] exI [of _ w1]) (simp add: ends_content_def)
  next
    case (Cons c cs')
    have i1: "I k (hw_conn w1)" "content_written w1" "\<not> stream_ended w1" using w1(2) by (simp_all add: reached_def)
    have "map item_bytes (c # cs') = map Inr bs" using assms(6) by (simp add: content_bytes_def Cons)
    then obtain ds w2 where w2: "send_items api c (map Inr cs') w1 = Some (Inr (), w2)" "concat ds = concat bs"
        "reached I (k - length (concat bs)) (hw_log w1 @ data_frames (ha_stream api) (truthy (last cs)) ds) (truthy (last cs)) w2"
        "truthy (last cs) \<longrightarrow> ds \<noteq> []"
      using send_items_ok [OF assms(1) i1(1) _ assms(7) i1(2,3)] unfolding Cons by blast
    moreover have "h2_write_response api r w = Some (Inr (), w2)"
      using assms(4,6) w1(1) w2(1) by (simp add: h2_write_response_def h2_write_content_def content_bytes_def Cons)
    ultimately show ?thesis using w1(2) by (intro exI [of _ ds] exI [of _ w2]) (simp add: ends_content_def Cons reached_def)
  qed
qed

section \<open>A window of nine bytes\<close>

text \<open>
  A stream whose window stays at nine bytes until the client enlarges it: h2 accepts empty frames.
\<close>

definition window_stays :: "'c h2_api \<Rightarrow> ('c \<Rightarrow> bool) \<Rightarrow> bool" where
  "window_stays api Z \<longleftrightarrow> (\<forall>n. ha_socket api n = None) \<and> (\<forall>n c. Z c \<longrightarrow> Z (ha_others api n c))
     \<and> (\<forall>c. Z c \<longrightarrow> Z (snd (ha_data_to_send api c)))
     \<and> (\<forall>c. Z c \<longrightarrow> ha_window api (ha_stream api) c = Inr 9 \<and> 9 \<le> ha_max_frame_size api c)
     \<and> (\<forall>c. Z c \<longrightarrow> (\<exists>c'. ha_send_data api (ha_stream api) [] False c = Inr c' \<and> Z c'))"

lemma stuck_payload:
  assumes "window_stays api Z" "Z (hw_conn w)"
  shows "\<exists>w'. get_max_payload_size api None w = (Inr 0, w') \<and> Z (hw_conn w')"
  using assms by (auto simp: window_stays_def get_max_payload_size_def with_connection_def and_then_change and_then_get_state
      stream_or_def act_simps)

lemma stuck_frame:
  assumes stays: "window_stays api Z" and z: "Z (hw_conn w)"
  shows "\<exists>w'. write_data_frame api [] False None w = (Inr (), w') \<and> Z (hw_conn w')"
proof -
  let ?c = "ha_others api (hw_turn w) (hw_conn w)"
  obtain c' where c': "ha_send_data api (ha_stream api) [] False ?c = Inr c'" "Z c'"
    using stays z unfolding window_stays_def by metis
  let ?w = "w\<lparr>hw_turn := Suc (hw_turn w), hw_conn := c', hw_log := hw_log w @ [Sent_Data (ha_stream api) [] False]\<rparr>"
  obtain w' where w': "h2_write api ?w = (Inr (), w')" "hw_conn w' = snd (ha_data_to_send api c')"
    using h2_write_ok [of api ?w] stays unfolding window_stays_def by auto
  have "write_data_frame api [] False None w = (Inr (), w'\<lparr>stream_ended := False\<rparr>)"
    using c'(1) w'(1) by (simp add: write_data_frame_def with_connection_def and_then_change on_connection_def and_then_def
        stream_or_def change_def)
  then show ?thesis using w'(2) c'(2) stays by (auto simp: window_stays_def)
qed

lemma stuck_pieces:
  "send_pieces api sid n data p w = Some r \<Longrightarrow> window_stays api Z \<and> sid = None \<and> 0 < n \<and> p = 0 \<longrightarrow> \<not> Z (hw_conn w)"
proof (erule send_pieces.raw_induct [rotated, where P = "\<lambda>api sid n data p w r. window_stays api Z \<and> sid = None \<and> 0 < n \<and> p = 0
      \<longrightarrow> \<not> Z (hw_conn w)"], intro impI notI)
  fix f api sid n data p w r
  assume IH: "\<And>api sid n data p w r. f api sid n data p w = Some r \<Longrightarrow>
        window_stays api Z \<and> sid = None \<and> 0 < n \<and> p = 0 \<longrightarrow> \<not> Z (hw_conn w)"
    and run: "(if n \<le> p then Some (Inr data, w)
      else (case write_data_frame api (fst (read_upto p data)) False sid w of
              (Inl e, w1) \<Rightarrow> Some (Inl e, w1)
            | (Inr _, w1) \<Rightarrow>
                (case get_max_payload_size api None w1 of
                   (Inl e, w2) \<Rightarrow> Some (Inl e, w2)
                 | (Inr q, w2) \<Rightarrow> f api sid (n - p) (snd (read_upto p data)) q w2))) = Some r"
    and stays: "window_stays api Z \<and> sid = None \<and> 0 < n \<and> p = 0" and z: "Z (hw_conn w)"
  obtain w1 where w1: "write_data_frame api [] False None w = (Inr (), w1)" "Z (hw_conn w1)"
    using stuck_frame [of api Z w] stays z by blast
  obtain w2 where w2: "get_max_payload_size api None w1 = (Inr 0, w2)" "Z (hw_conn w2)"
    using stuck_payload [of api Z w1] stays w1(2) by blast
  have "f api None n data 0 w2 = Some r" using run stays w1(1) w2(1) by (simp add: read_upto_def)
  then show False using IH stays w2(2) by blast
qed

lemma stuck_write:
  assumes "window_stays api Z" "Z (hw_conn w)" "item_bytes item = Inr b" "b \<noteq> []"
  shows "h2_write_data api item is_last None w = None"
proof -
  obtain w1 where w1: "get_max_payload_size api None w = (Inr 0, w1)" "Z (hw_conn w1)"
    using stuck_payload [OF assms(1,2)] by blast
  have "send_pieces api None (int (length b)) b 0 w1 = None"
  proof (cases "send_pieces api None (int (length b)) b 0 w1")
    case (Some r)
    then show ?thesis using stuck_pieces [OF Some, of Z] assms(1,4) w1(2) by simp
  qed
  then show ?thesis using assms(3) w1(1) by (simp add: h2_write_data_def)
qed

section \<open>Properties\<close>

text \<open>
  C11: a response arrives over HTTP/2 as one frame of headers, with the status first among the ordinary ones, and frames of
  data that together are the body, however the sizes of frames cut it; the last of them, and no other, ends the stream, unless
  the body is empty, when none does and the server ends it.
\<close>

theorem h2_response_arrives:
  assumes "stream_room api J I F" and "J k (hw_conn w)" and "\<not> stream_ended w" and "ha_method api \<noteq> ''HEAD''"
    and "split_headers (header_items (rs_headers r)) = Inr (formatted, secondary)"
    and "content_bytes (rs_content r) cs bs" and "length (concat bs) \<le> k"
  shows "\<exists>ds w'. h2_write_response api r w = Some (Inr (), w') \<and> concat ds = concat bs
     \<and> hw_log w' = hw_log w @
          Sent_Headers (ha_stream api) (formatted @ (PStr '':status'', cp (int_str (fst (rs_status r)))) # secondary) False
          # data_frames (ha_stream api) (ends_content cs) ds
     \<and> (ends_content cs \<longrightarrow> ds \<noteq> []) \<and> (stream_ended w' \<longleftrightarrow> ends_content cs)"
  using response_in_frames [OF assms] unfolding reached_def by blast

text \<open>A connection that counts its window, with frames of at most twenty bytes.\<close>

definition demo_api :: "int h2_api" where
  "demo_api = \<lparr>ha_send_headers = (\<lambda>_ _ _ c. Inr c),
     ha_send_data = (\<lambda>_ d _ c. if int (length d) \<le> c then Inr (c - int (length d)) else Inl ValueError),
     ha_end_stream = (\<lambda>_ c. Inr c), ha_next_stream = (\<lambda>_. Inr 2), ha_push_stream = (\<lambda>_ _ _ c. Inr c),
     ha_max_frame_size = (\<lambda>_. 20), ha_window = (\<lambda>_ c. Inr c), ha_data_to_send = (\<lambda>c. ([], c)), ha_hpack = (\<lambda>_ c. ([], c)),
     ha_others = (\<lambda>_ c. c), ha_socket = (\<lambda>_. None), ha_stream = 1, ha_method = ''GET''\<rparr>"

definition demo_writer :: "int \<Rightarrow> int h2_writer" where
  "demo_writer c = \<lparr>hw_conn = c, hw_turn = 0, hw_calls = 0, hw_sent = [], hw_log = [], stream_ended = False, content_written = False\<rparr>"

definition demo_content :: response where
  "demo_content = new_response\<lparr>rs_content := CData (DBytes ''0123456789abcdef'')\<rparr>"

definition demo_room :: "nat \<Rightarrow> int \<Rightarrow> bool" where
  "demo_room k c \<longleftrightarrow> int k + 10 \<le> c"

lemma demo_room: "stream_room demo_api demo_room demo_room 20"
  by (auto simp: stream_room_def demo_api_def demo_room_def)

theorem h2_response_arrives_witness:
  "\<exists>ds w'. h2_write_response demo_api demo_content (demo_writer 100) = Some (Inr (), w') \<and> concat ds = ''0123456789abcdef''
     \<and> hw_log w' = Sent_Headers 1 [(PStr '':status'', cp ''200'')] False # data_frames 1 True ds"
proof -
  have "content_bytes (rs_content demo_content) [Plain (DBytes ''0123456789abcdef'')] [''0123456789abcdef'']"
    by (simp add: content_bytes_def demo_content_def iter_content_def item_bytes_def encode_def)
  moreover have "split_headers (header_items (rs_headers demo_content)) = Inr ([], [])"
    by (simp add: demo_content_def new_response_def header_items_def rh_items_def)
  moreover have "demo_room 16 (hw_conn (demo_writer 100))" "\<not> stream_ended (demo_writer 100)" "hw_log (demo_writer 100) = []"
    by (simp_all add: demo_room_def demo_writer_def)
  moreover have "ha_method demo_api = ''GET''" "ha_stream demo_api = 1" "fst (rs_status demo_content) = 200"
    by (simp_all add: demo_api_def demo_content_def new_response_def)
  moreover have "int_str 200 = ''200''" by code_simp
  moreover have "ends_content [Plain (DBytes ''0123456789abcdef'')]" by (simp add: ends_content_def truthy_def)
  ultimately show ?thesis
    using h2_response_arrives [OF demo_room, of 16 "demo_writer 100" demo_content "[]" "[]"
        "[Plain (DBytes ''0123456789abcdef'')]" "[''0123456789abcdef'']"] by auto
qed

text \<open>
  while the flow-control window of a stream is nine bytes, writing data to it never returns: the payload size subtracts the
  header of a frame, which the window does not count, so the loop sends empty frames for ever instead of the nine bytes.
\<close>

theorem h2_nine_byte_window:
  assumes "window_stays api Z" and "Z (hw_conn w)" and "item_bytes item = Inr b" and "b \<noteq> []"
  shows "h2_write_data api item is_last None w = None"
  using assms by (rule stuck_write)

theorem h2_nine_byte_window_witness:
  "h2_write_data demo_api (Plain (DBytes ''a'')) True None (demo_writer 9) = None"
proof -
  have "window_stays demo_api (\<lambda>c. c = 9)" by (simp add: window_stays_def demo_api_def)
  moreover have "hw_conn (demo_writer 9) = 9" by (simp add: demo_writer_def)
  moreover have "item_bytes (Plain (DBytes ''a'')) = Inr ''a''" by (simp add: item_bytes_def encode_def)
  ultimately show ?thesis using h2_nine_byte_window [of demo_api "\<lambda>c. c = 9" "demo_writer 9"] by blast
qed

end
