(* ===== verification/Http2_Server.thy ===== *)
theory Http2_Server
  imports Http2_Writer Server_Facts
begin

text \<open>
  The HTTP/2 side of \<open>tools/wptserve/wptserve/server.py\<close>: the loop that receives frames and gives them to the threads of
  their streams, and what such a thread does with the frames it gets. The packages h2 and pywebsocket3, the socket and the
  functions of scripts are parameters.
\<close>

section \<open>Requests\<close>

text \<open>\<open>H2Headers\<close>: a dictionary, exact in its names, with the pseudo-headers under their plain names.\<close>

definition h2_header_name :: "string \<Rightarrow> string" where
  "h2_header_name key = (if drop 1 key \<in> set h2_headers \<and> key ! 0 = CHR '':'' then drop 1 key else key)"

definition h2_header_dict :: "(string \<times> string) list \<Rightarrow> (string, string) odict" where
  "h2_header_dict headers = fold (\<lambda>(k, v). od_set (h2_header_name k) v) headers []"

text \<open>\<open>H2HandlerCopy\<close>: what a request is made of; the server's scheme, host and port are those of \<open>h\<close>.\<close>

definition h2_handler_copy :: "head \<Rightarrow> (string \<times> string) list \<Rightarrow> head res" where
  "h2_handler_copy h headers =
     (let d = h2_header_dict headers
      in rbind (of_option KeyError (od_get d ''method'')) (\<lambda>m. rbind (of_option KeyError (od_get d ''path'')) (\<lambda>p.
           Inr (h\<lparr>hd_protocol := ''HTTP/2.0'', hd_command := m, hd_path := p, hd_headers := d\<rparr>))))"

text \<open>\<open>H2Request\<close>: as \<open>Request\<close>, but \<open>get\<close> of the headers is that of a dictionary.\<close>

definition h2_host_port :: "head \<Rightarrow> string \<times> string" where
  "h2_host_port h =
     (case od_get (hd_headers h) ''Host'' of
        None \<Rightarrow> (hd_server_host h, int_str (hd_server_port h))
      | Some host \<Rightarrow>
          (case split_once (CHR '':'') host of [a, b] \<Rightarrow> (a, b) | _ \<Rightarrow> (host, int_str (hd_server_port h))))"

definition h2_url :: "head \<Rightarrow> string" where
  "h2_url h =
     (if starts_with (hd_scheme h @ ''://'') (hd_path h) then hd_path h
      else (case h2_host_port h of (host, port) \<Rightarrow> hd_scheme h @ ''://'' @ host @ '':'' @ port @ hd_path h))"

definition h2_request :: "head \<Rightarrow> request res" where
  "h2_request h =
     rbind (urlsplit (h2_url h)) (\<lambda>parts.
     rbind (case od_get (hd_headers h) ''Content-Length'' of None \<Rightarrow> Inr 0 | Some s \<Rightarrow> of_option ValueError (py_int s)) (\<lambda>len.
       Inr \<lparr>req_method = hd_command h, req_protocol = hd_protocol h, req_path = hd_path h, req_url = h2_url h,
            req_url_parts = parts, req_raw_headers = hd_headers h, req_input = new_input_file (hd_body h) len\<rparr>))"

section \<open>Handlers\<close>

text \<open>
  The functions of a script besides \<open>main\<close>. \<open>frame_handler\<close> makes one function of them all: what handles the headers, what
  handles data, and what is called when the request is complete.
\<close>

type_synonym hooks = "ustr \<Rightarrow> (handler_env \<Rightarrow> unit piped) option \<times> (handler_env \<Rightarrow> string \<Rightarrow> unit piped) option"

record frame_function =
  ff_main :: "handler_env \<Rightarrow> handler_result piped"
  ff_headers :: "(handler_env \<Rightarrow> unit piped) option"
  ff_data :: "(handler_env \<Rightarrow> string \<Rightarrow> unit piped) option"

definition frame_handler :: "scripts \<Rightarrow> hooks \<Rightarrow> handler_env \<Rightarrow> ustr option \<Rightarrow> string \<Rightarrow> frame_function res" where
  "frame_handler scripts hooks env base_path url_base =
     rbind (filesystem_path env base_path url_base) (\<lambda>path.
       case scripts path of
         Inl e \<Rightarrow> Inl (if e = OSError then HTTPException 404 [] else e)
       | Inr main \<Rightarrow>
           if main = None \<and> fst (hooks path) = None \<and> snd (hooks path) = None
           then Inl (HTTPException 500 (''No main function or handlers in script '' @ shown_path path))
           else Inr \<lparr>ff_main = (case main of Some f \<Rightarrow> f | None \<Rightarrow> (\<lambda>_. ends_with_result (give RvNone))),
                     ff_headers = fst (hooks path), ff_data = snd (hooks path)\<rparr>)"

text \<open>What handles a request: a handler of the routes, or the functions of a script.\<close>

datatype h2_handler = Routed handler | Functions frame_function

definition h2_handle_safely :: "site \<Rightarrow> handler_env \<Rightarrow> h2_handler option \<Rightarrow> unit piped" where
  "h2_handle_safely site env h st = (case h of
     None \<Rightarrow> handle_safely site env None st
   | Some (Routed x) \<Rightarrow> handle_safely site env (Some x) st
   | Some (Functions f) \<Rightarrow>
       (case function_handler env (ff_main f env) st of
          None \<Rightarrow> None
        | Some (Inl e, st') \<Rightarrow> Some (answer_error site env e st')
        | Some (Inr _, st') \<Rightarrow> Some (Inr (), st')))"

text \<open>\<open>finish_handling\<close> for a response with a writer for HTTP/2; the result says whether the connection is closed.\<close>

definition h2_finish_handling ::
  "'c h2_api \<Rightarrow> site \<Rightarrow> handler_env \<Rightarrow> h2_handler option \<Rightarrow> bool \<Rightarrow> response \<times> 'c h2_writer
     \<Rightarrow> ((exc + bool) \<times> (response \<times> 'c h2_writer)) option" where
  "h2_finish_handling api site env h close st = (case st of (r, w) \<Rightarrow>
     (case h2_handle_safely site env h r of
        None \<Rightarrow> None
      | Some (Inl e, r1) \<Rightarrow> Some (Inl e, (r1, w))
      | Some (Inr _, r1) \<Rightarrow>
          (case (if content_written w then Some (Inr (), w) else h2_write_response api r1 w) of
             None \<Rightarrow> None
           | Some (Inl e, w1) \<Rightarrow> Some (Inl e, (r1, w1))
           | Some (Inr _, w1) \<Rightarrow>
               (case (if stream_ended w1 then (Inr (), w1) else h2_end_stream api None w1) of
                  (Inl e, w2) \<Rightarrow> Some (Inl e, (r1, w2))
                | (Inr _, w2) \<Rightarrow>
                    Some (if close \<or> rs_close r1 then Inr True
                          else map_sum id (\<lambda>_. False) (fst (in_read (- 1) (req_input (he_request env)))), (r1, w2))))))"

section \<open>The thread of a stream\<close>

text \<open>What h2 makes of received data; the flag says that the stream is ended by the other side.\<close>

datatype h2_event =
    Request_Received int "(string \<times> string) list" bool
  | Data_Received int string bool
  | Stream_Ended int
  | Stream_Reset int
  | Connection_Terminated
  | Other_Event "int option" bool

definition event_stream :: "h2_event \<Rightarrow> int option" where
  "event_stream e = (case e of
     Request_Received i _ _ \<Rightarrow> Some i | Data_Received i _ _ \<Rightarrow> Some i | Stream_Ended i \<Rightarrow> Some i | Stream_Reset i \<Rightarrow> Some i
   | Connection_Terminated \<Rightarrow> None | Other_Event i _ \<Rightarrow> i)"

definition event_ended :: "h2_event \<Rightarrow> bool" where
  "event_ended e = (case e of Request_Received _ _ b \<Rightarrow> b | Data_Received _ _ b \<Rightarrow> b | Other_Event _ b \<Rightarrow> b | _ \<Rightarrow> False)"

definition ends_thread :: "h2_event option \<Rightarrow> bool" where
  "ends_thread e = (case e of
     None \<Rightarrow> True | Some (Stream_Reset _) \<Rightarrow> True | Some (Stream_Ended _) \<Rightarrow> True | Some Connection_Terminated \<Rightarrow> True | _ \<Rightarrow> False)"

text \<open>A request with its response, what handles it, and the frames of it that were processed.\<close>

record 'c exchange =
  ex_env :: handler_env
  ex_handler :: "h2_handler option"
  ex_response :: "response \<times> 'c h2_writer"
  ex_frames :: "h2_event list"

text \<open>The thread: how much was written to the pipe, if it is open, the exchange, and whether it closes the connection.\<close>

record 'c stream_thread =
  th_pipe :: "nat option"
  th_exchange :: "'c exchange option"
  th_close :: bool

text \<open>
  What the thread uses besides the server: the methods and the state of the connection for a stream, the functions of scripts, how many bytes the pipe and the buffer of
  its writing end take before writing blocks, and the server's scheme, host and port.
\<close>

record 'c h2_env =
  h2_conn_api :: "int \<Rightarrow> string \<Rightarrow> 'c h2_api"
  h2_conn_state :: "int \<Rightarrow> 'c"
  h2_hooks :: hooks
  h2_pipe_size :: nat
  h2_head :: head
  h2_server :: server

text \<open>An action of a handler on the response; the writer is not its concern.\<close>

definition on_response :: "'a piped \<Rightarrow> response \<times> 'c h2_writer \<Rightarrow> ((exc + 'a) \<times> (response \<times> 'c h2_writer)) option" where
  "on_response m st = map_option (\<lambda>(x, r). (x, (r, snd st))) (m (fst st))"

text \<open>\<open>frame_handler\<close> of the server: an exception is answered at once, and nothing handles the request afterwards.\<close>

definition server_frame_handler ::
  "'c h2_api \<Rightarrow> site \<Rightarrow> hooks \<Rightarrow> handler_env \<Rightarrow> ustr option \<Rightarrow> string \<Rightarrow> response \<times> 'c h2_writer
     \<Rightarrow> ((exc + h2_handler option) \<times> (response \<times> 'c h2_writer)) option" where
  "server_frame_handler api site hooks env base_path url_base st =
     (case frame_handler (si_scripts site) hooks env base_path url_base of
        Inr f \<Rightarrow> Some (Inr (Some (Functions f)), st)
      | Inl e \<Rightarrow>
          (case answer_error site env e (fst st) of
             (Inl e, r) \<Rightarrow> Some (Inl e, (r, snd st))
           | (Inr _, r) \<Rightarrow> map_option (\<lambda>(x, w). (map_sum id (\<lambda>_. None) x, (r, w))) (h2_write_response api r (snd st))))"

definition choose_handler ::
  "'c h2_api \<Rightarrow> site \<Rightarrow> hooks \<Rightarrow> handler_env \<Rightarrow> handler option \<Rightarrow> response \<times> 'c h2_writer
     \<Rightarrow> ((exc + h2_handler option) \<times> (response \<times> 'c h2_writer)) option" where
  "choose_handler api site hooks env h st = (case h of
     Some (Made c b u) \<Rightarrow>
       if c = Python_Script_Handler then server_frame_handler api site hooks env (map_option cp b) u st
       else Some (Inr (map_option Routed h), st)
   | _ \<Rightarrow> Some (Inr (map_option Routed h), st))"

definition new_h2_writer :: "'c \<Rightarrow> 'c h2_writer" where
  "new_h2_writer c =
     \<lparr>hw_conn = c, hw_turn = 0, hw_calls = 0, hw_sent = [], hw_log = [], stream_ended = False, content_written = False\<rparr>"

definition hook_of :: "(frame_function \<Rightarrow> 'a option) \<Rightarrow> h2_handler option \<Rightarrow> 'a option" where
  "hook_of f h = (case h of Some (Functions g) \<Rightarrow> f g | _ \<Rightarrow> None)"

text \<open>The exchange after a function of the handler was called, if it has it.\<close>

definition run_hook ::
  "(handler_env \<Rightarrow> unit piped) option \<Rightarrow> 'c exchange \<Rightarrow> ((exc + unit) \<times> 'c exchange) option" where
  "run_hook hook ex = (case hook of
     None \<Rightarrow> Some (Inr (), ex)
   | Some f \<Rightarrow> map_option (\<lambda>(x, st). (x, ex\<lparr>ex_response := st\<rparr>)) (on_response (f (ex_env ex)) (ex_response ex)))"

definition stream_request :: "'c h2_env \<Rightarrow> (string \<times> string) list \<Rightarrow> request res" where
  "stream_request env headers =
     rbind (h2_handler_copy (h2_head env) headers) (\<lambda>h.
     rbind (rewrite (srv_rules (h2_server env)) (hd_command h) (hd_path h)) (\<lambda>p. h2_request (h\<lparr>hd_path := p\<rparr>)))"

definition receive_request ::
  "'c h2_env \<Rightarrow> int \<Rightarrow> (string \<times> string) list \<Rightarrow> 'c stream_thread \<Rightarrow> ((exc + unit) \<times> 'c stream_thread) option" where
  "receive_request env i headers th =
     (let th = th\<lparr>th_pipe := Some 0\<rparr>; srv = h2_server env
      in case stream_request env headers of
           Inl e \<Rightarrow> Some (Inl e, th)
         | Inr rq \<Rightarrow>
             (let henv = request_env srv rq; start = (new_response, new_h2_writer (h2_conn_state env i));
                  route = map_option fst (get_handler (srv_routes srv) (req_method rq) (up_path (req_url_parts rq)));
                  ex = (\<lambda>h st. \<lparr>ex_env = henv, ex_handler = h, ex_response = st, ex_frames = []\<rparr>)
              in case choose_handler (h2_conn_api env i (req_method rq)) (srv_site srv) (h2_hooks env) henv route start of
                   None \<Rightarrow> None
                 | Some (Inl e, st) \<Rightarrow> Some (Inl e, th\<lparr>th_exchange := Some (ex None st)\<rparr>)
                 | Some (Inr h, st) \<Rightarrow>
                     map_option (\<lambda>(x, ex). (x, th\<lparr>th_exchange := Some ex\<rparr>)) (run_hook (hook_of ff_headers h) (ex h st))))"

text \<open>Data without a request finds no pipe; more data than the pipe takes blocks, because nobody reads.\<close>

definition receive_stream_data ::
  "'c h2_env \<Rightarrow> string \<Rightarrow> 'c stream_thread \<Rightarrow> ((exc + unit) \<times> 'c stream_thread) option" where
  "receive_stream_data env data th = (case th_pipe th of
     None \<Rightarrow> Some (Inl AttributeError, th)
   | Some n \<Rightarrow>
       if h2_pipe_size env < n + length data then None
       else (let th = th\<lparr>th_pipe := Some (n + length data)\<rparr>
             in case th_exchange th of
                  None \<Rightarrow> Some (Inr (), th)
                | Some ex \<Rightarrow>
                    map_option (\<lambda>(x, ex). (x, th\<lparr>th_exchange := Some ex\<rparr>))
                      (run_hook (map_option (\<lambda>f env. f env data) (hook_of ff_data (ex_handler ex))) ex)))"

definition finish_stream :: "'c h2_env \<Rightarrow> int \<Rightarrow> 'c stream_thread \<Rightarrow> ((exc + bool) \<times> 'c stream_thread) option" where
  "finish_stream env i th = (case th_exchange th of
     None \<Rightarrow> Some (Inl AttributeError, th)
   | Some ex \<Rightarrow>
       (case h2_finish_handling (h2_conn_api env i (req_method (he_request (ex_env ex)))) (srv_site (h2_server env))
              (ex_env ex) (ex_handler ex) False (ex_response ex) of
          None \<Rightarrow> None
        | Some (r, st) \<Rightarrow>
            (let th = th\<lparr>th_exchange := Some (ex\<lparr>ex_response := st\<rparr>)\<rparr>
             in case r of
                  Inl e \<Rightarrow> Some (if e = StreamClosedError then Inr True else Inl e, th)
                | Inr close \<Rightarrow> Some (Inr True, th\<lparr>th_close := th_close th \<or> close\<rparr>))))"

text \<open>One frame of \<open>_stream_thread\<close>, the result says whether the thread ends.\<close>

definition process_frame ::
  "'c h2_env \<Rightarrow> h2_event option \<Rightarrow> 'c stream_thread \<Rightarrow> ((exc + bool) \<times> 'c stream_thread) option" where
  "process_frame env frame th =
     (if ends_thread frame then Some (Inr True, th)
      else case frame of
        None \<Rightarrow> Some (Inr True, th)
      | Some e \<Rightarrow>
          (case (case e of Request_Received i headers _ \<Rightarrow> receive_request env i headers th
                 | Data_Received _ data _ \<Rightarrow> receive_stream_data env data th
                 | _ \<Rightarrow> Some (Inr (), th)) of
             None \<Rightarrow> None
           | Some (Inl x, th1) \<Rightarrow> Some (Inl x, th1)
           | Some (Inr _, th1) \<Rightarrow>
               (let th2 = th1\<lparr>th_exchange := map_option (\<lambda>ex. ex\<lparr>ex_frames := ex_frames ex @ [e]\<rparr>) (th_exchange th1)\<rparr>
                in if event_ended e
                   then finish_stream env (case event_stream e of Some i \<Rightarrow> i | None \<Rightarrow> 0) th2
                   else Some (Inr False, th2))))"

definition new_thread :: "'c stream_thread" where
  "new_thread = \<lparr>th_pipe = None, th_exchange = None, th_close = False\<rparr>"

text \<open>
  The loop: what the queue gives, each time with whether the connection was seen to be closed before. A thread whose queue is
  empty waits; in the end it closes its files.
\<close>

fun stream_loop :: "'c h2_env \<Rightarrow> (bool \<times> h2_event option) list \<Rightarrow> 'c stream_thread \<Rightarrow> ((exc + bool) \<times> 'c stream_thread) option" where
  "stream_loop env [] th = Some (Inr False, th)"
| "stream_loop env ((closing, frame) # frames) th =
     (if closing then Some (Inr True, th)
      else case process_frame env frame th of
        None \<Rightarrow> None
      | Some (Inl e, th1) \<Rightarrow> Some (Inl e, th1)
      | Some (Inr True, th1) \<Rightarrow> Some (Inr True, th1)
      | Some (Inr False, th1) \<Rightarrow> stream_loop env frames th1)"

section \<open>The connection\<close>

text \<open>
  The threads in the order they were started, each with its stream, whether it is for a WebSocket, and everything put into its
  queue (\<open>None\<close> at the end of the connection); \<open>stream_queues\<close> points to the thread of a stream.
\<close>

record h2_main =
  hm_streams :: "(int, nat) odict"
  hm_threads :: "(int \<times> bool \<times> h2_event option list) list"
  hm_close :: bool

definition put_frame :: "nat \<Rightarrow> h2_event option \<Rightarrow> h2_main \<Rightarrow> h2_main" where
  "put_frame n e m =
     (if n < length (hm_threads m)
      then m\<lparr>hm_threads := (hm_threads m)[n := (case hm_threads m ! n of (i, ws, q) \<Rightarrow> (i, ws, q @ [e]))]\<rparr> else m)"

definition protocol_header :: "(string \<times> string) list \<Rightarrow> string" where
  "protocol_header headers = (case map_of headers '':protocol'' of None \<Rightarrow> [] | Some v \<Rightarrow> v)"

definition is_extended_connect_frame :: "h2_event \<Rightarrow> bool res" where
  "is_extended_connect_frame e = (case e of
     Request_Received _ headers _ \<Rightarrow>
       if map_of headers '':method'' \<noteq> Some ''CONNECT'' then Inr False
       else if protocol_header headers \<noteq> ''websocket'' then Inl ProtocolError else Inr True
   | _ \<Rightarrow> Inr False)"

definition start_stream_thread :: "int \<Rightarrow> h2_event \<Rightarrow> h2_main \<Rightarrow> exc + h2_main" where
  "start_stream_thread i e m =
     rbind (is_extended_connect_frame e) (\<lambda>ws.
       Inr (m\<lparr>hm_streams := od_set i (length (hm_threads m)) (hm_streams m), hm_threads := hm_threads m @ [(i, ws, [])]\<rparr>))"

definition is_stream_ended :: "h2_event \<Rightarrow> bool" where
  "is_stream_ended e = (case e of Stream_Ended _ \<Rightarrow> True | _ \<Rightarrow> False)"

definition dispatch_frame :: "h2_event \<Rightarrow> h2_main \<Rightarrow> (exc + unit) \<times> h2_main" where
  "dispatch_frame e m =
     (if e = Connection_Terminated
      then (Inr (), fold (\<lambda>(_, n). put_frame n (Some e)) (hm_streams m) (m\<lparr>hm_close := True\<rparr>))
      else case event_stream e of
        None \<Rightarrow> (Inr (), m)
      | Some i \<Rightarrow>
          (case (if od_get (hm_streams m) i = None then start_stream_thread i e m else Inr m) of
             Inl x \<Rightarrow> (Inl x, m)
           | Inr m1 \<Rightarrow>
               (let m2 = (case od_get (hm_streams m1) i of None \<Rightarrow> m1 | Some n \<Rightarrow> put_frame n (Some e) m1)
                in (Inr (), if is_stream_ended e \<or> event_ended e then m2\<lparr>hm_streams := od_del i (hm_streams m2)\<rparr> else m2))))"

definition dispatch_frames :: "h2_event list \<Rightarrow> (exc, h2_main, unit) act" where
  "dispatch_frames = for_each dispatch_frame"

text \<open>
  The receiving loop. \<open>recv n\<close> is what the n-th call gives, \<open>closed n\<close> whether a thread had closed the connection before it,
  \<open>so_receive\<close> what h2 makes of the data, and \<open>so_reset\<close> whether the connection was reset before the loop. The comparison of the received bytes with an empty text never holds.
\<close>

record 'c h2_socket =
  so_reset :: bool
  so_recv :: "nat \<Rightarrow> string res"
  so_closed :: "nat \<Rightarrow> bool"
  so_receive :: "nat \<Rightarrow> string \<Rightarrow> 'c \<Rightarrow> (exc + h2_event list) \<times> 'c"

partial_function (option) receive_loop :: "'c h2_socket \<Rightarrow> nat \<Rightarrow> 'c \<Rightarrow> h2_main \<Rightarrow> ((exc + unit) \<times> h2_main) option" where
  "receive_loop so n c m =
     (if hm_close m \<or> so_closed so n then Some (Inr (), m)
      else case so_recv so n of
        Inl e \<Rightarrow> Some (Inl e, m)
      | Inr data \<Rightarrow>
          (case so_receive so n data c of
             (Inl e, c1) \<Rightarrow> Some (Inl e, m)
           | (Inr frames, c1) \<Rightarrow>
               (case dispatch_frames frames m of
                  (Inl e, m1) \<Rightarrow> Some (Inl e, m1)
                | (Inr _, m1) \<Rightarrow> receive_loop so (Suc n) c1 m1)))"

text \<open>\<open>handle_one_request\<close>, with the threads it started: whatever ends the loop, the threads that are left are told so and joined.\<close>

definition no_threads :: h2_main where
  "no_threads = \<lparr>hm_streams = [], hm_threads = [], hm_close = False\<rparr>"

definition h2_handle_connection :: "'c h2_socket \<Rightarrow> 'c \<Rightarrow> h2_main option" where
  "h2_handle_connection so c =
     (case (if so_reset so then Some (Inr (), no_threads) else receive_loop so 0 c no_threads) of
        None \<Rightarrow> None
      | Some (r, m) \<Rightarrow>
          (let m = (case r of Inl OSError \<Rightarrow> m\<lparr>hm_close := True\<rparr> | _ \<Rightarrow> m)
           in Some (fold (\<lambda>(_, n). put_frame n None) (hm_streams m) m)))"

section \<open>The end of a stream\<close>

definition ends_stream :: "h2_call \<Rightarrow> bool" where
  "ends_stream c = (case c of Sent_Headers _ _ b \<Rightarrow> b | Sent_Data _ _ b \<Rightarrow> b | Ended _ \<Rightarrow> True | Pushed _ _ _ \<Rightarrow> False)"

definition data_of :: "h2_call list \<Rightarrow> string" where
  "data_of cs = concat (map (\<lambda>c. case c of Sent_Data _ d _ \<Rightarrow> d | _ \<Rightarrow> []) cs)"

text \<open>The last call, and only it, ends the stream.\<close>

definition ended_once :: "h2_call list \<Rightarrow> bool" where
  "ended_once cs \<longleftrightarrow> cs \<noteq> [] \<and> ends_stream (last cs) \<and> list_all (\<lambda>c. \<not> ends_stream c) (butlast cs)"

lemma data_frames_ended: "ds \<noteq> [] \<Longrightarrow> ended_once (data_frames sid True ds)"
proof (induction ds)
  case (Cons d ds)
  then show ?case by (cases ds) (auto simp: ended_once_def ends_stream_def)
qed simp

lemma data_frames_open: "list_all (\<lambda>c. \<not> ends_stream c) (data_frames sid False ds)"
  by (simp add: data_frames_False list_all_iff ends_stream_def)

lemma data_of_frames: "data_of (data_frames sid fin ds) = concat ds"
  by (induction sid fin ds rule: data_frames.induct) (simp_all add: data_of_def)

lemma ended_once_Cons: "\<not> ends_stream c \<Longrightarrow> ended_once cs \<Longrightarrow> ended_once (c # cs)"
  by (auto simp: ended_once_def)

lemma h2_end_stream_ok:
  assumes room: "stream_room api J I F" and i: "I k (hw_conn w)"
  shows "\<exists>w'. h2_end_stream api None w = (Inr (), w') \<and> hw_log w' = hw_log w @ [Ended (ha_stream api)] \<and> stream_ended w'"
proof -
  let ?c = "ha_others api (hw_turn w) (hw_conn w)"
  obtain c' where c': "ha_end_stream api (ha_stream api) ?c = Inr c'"
    using roomD(11) [OF room roomD(4) [OF room i]] by blast
  let ?w = "w\<lparr>hw_turn := Suc (hw_turn w), hw_conn := c', hw_log := hw_log w @ [Ended (ha_stream api)]\<rparr>"
  obtain w' where w': "h2_write api ?w = (Inr (), w')" "hw_log w' = hw_log w @ [Ended (ha_stream api)]"
    using h2_write_ok [of api ?w] roomD(2) [OF room] by auto
  have "h2_end_stream api None w = (Inr (), w'\<lparr>stream_ended := True\<rparr>)"
    using c' w'(1) by (simp add: h2_end_stream_def with_connection_def and_then_change on_connection_def and_then_def
        stream_or_def change_def)
  then show ?thesis using w'(2) by auto
qed

text \<open>What is common to a response that is sent and finished.\<close>

lemma h2_finish_ok:
  assumes room: "stream_room api J I F" and w: "J k (hw_conn w)" "\<not> stream_ended w" "\<not> content_written w" "hw_log w = []"
    and m: "ha_method api \<noteq> ''HEAD''"
    and h: "h2_handle_safely site env h r = Some (Inr (), r1)"
    and hs: "split_headers (header_items (rs_headers r1)) = Inr (formatted, secondary)"
    and c: "content_bytes (rs_content r1) cs bs" "length (concat bs) \<le> k"
  shows "\<exists>calls w'. h2_finish_handling api site env h close (r, w) = Some (if close \<or> rs_close r1 then Inr True
        else map_sum id (\<lambda>_. False) (fst (in_read (- 1) (req_input (he_request env)))), (r1, w'))
     \<and> hw_log w' = Sent_Headers (ha_stream api) (formatted @ (PStr '':status'', cp (int_str (fst (rs_status r1)))) # secondary) False # calls
     \<and> ended_once calls \<and> data_of calls = concat bs"
proof -
  let ?head = "Sent_Headers (ha_stream api) (formatted @ (PStr '':status'', cp (int_str (fst (rs_status r1)))) # secondary) False"
  let ?res = "if close \<or> rs_close r1 then Inr True else map_sum id (\<lambda>_. False) (fst (in_read (- 1) (req_input (he_request env))))"
  obtain ds w1 where w1: "h2_write_response api r1 w = Some (Inr (), w1)" "concat ds = concat bs" "ends_content cs \<longrightarrow> ds \<noteq> []"
      "reached I (k - length (concat bs)) (?head # data_frames (ha_stream api) (ends_content cs) ds) (ends_content cs) w1"
    using response_in_frames [OF room w(1,2) m hs c] w(4) by auto
  show ?thesis
  proof (cases "ends_content cs")
    case True
    then have "h2_finish_handling api site env h close (r, w) = Some (?res, (r1, w1))"
      using h w(3) w1(1,4) by (simp add: h2_finish_handling_def reached_def)
    moreover have "ended_once (data_frames (ha_stream api) True ds)" using w1(3) True by (simp add: data_frames_ended)
    ultimately show ?thesis using w1(2,4) True by (auto simp: reached_def data_of_frames)
  next
    case False
    then have "I (k - length (concat bs)) (hw_conn w1)" "\<not> stream_ended w1" using w1(4) by (simp_all add: reached_def)
    then obtain w2 where w2: "h2_end_stream api None w1 = (Inr (), w2)" "hw_log w2 = hw_log w1 @ [Ended (ha_stream api)]"
      using h2_end_stream_ok [OF room] by blast
    let ?calls = "data_frames (ha_stream api) False ds @ [Ended (ha_stream api)]"
    have "h2_finish_handling api site env h close (r, w) = Some (?res, (r1, w2))"
      using h w(3) w1(1,4) w2(1) False by (simp add: h2_finish_handling_def reached_def)
    moreover have "hw_log w2 = ?head # ?calls" using w2(2) w1(4) False by (simp add: reached_def)
    moreover have "ended_once ?calls" using data_frames_open [of "ha_stream api" ds] by (simp add: ended_once_def ends_stream_def)
    moreover have "data_of ?calls = concat bs"
      using data_of_frames [of "ha_stream api" False ds] w1(2) by (simp add: data_of_def)
    ultimately show ?thesis by blast
  qed
qed

lemma h2_handle_safely_untouched:
  assumes "quiet_site site" "quiet_env env" "\<And>x. h = Some (Routed x) \<Longrightarrow> server_writes x"
    "\<And>f. h = Some (Functions f) \<Longrightarrow> quiet_piped (ff_main f env)" "h2_handle_safely site env h st = Some (r, st1)"
  shows "r = Inr () \<and> untouched st st1"
proof (cases h)
  case None
  then show ?thesis using assms handle_safely_untouched [of site env None st r st1] by (simp add: h2_handle_safely_def)
next
  case (Some x)
  show ?thesis
  proof (cases x)
    case (Routed y)
    then show ?thesis using assms(1,2,5) Some assms(3) [of y] handle_safely_untouched [of site env "Some y" st r st1]
      by (simp add: h2_handle_safely_def)
  next
    case (Functions f)
    have q: "quiet_piped (function_handler env (ff_main f env))" using assms(2,4) Some Functions by (simp add: quiet_function_handler)
    obtain r2 s2 where run: "function_handler env (ff_main f env) st = Some (r2, s2)"
      using assms(5) by (auto simp: h2_handle_safely_def Some Functions split: option.splits)
    then have u: "untouched st s2" using q unfolding quiet_piped_def by blast
    show ?thesis
    proof (cases r2)
      case (Inl e)
      then have "answer_error site env e s2 = (r, st1)" using assms(5) run by (simp add: h2_handle_safely_def Some Functions)
      then obtain code where err: "set_error (he_suppress env) (cp (req_url (he_request env))) code (si_describe site e) s2 = (r, st1)"
        unfolding answer_error_def by blast
      then have "r = Inr ()"
        using set_error_sets [of "he_suppress env" "cp (req_url (he_request env))" code "si_describe site e" s2] by auto
      moreover have "untouched s2 st1" using err quiet_set_error [THEN stepsD] by blast
      ultimately have "r = Inr ()" "untouched s2 st1" by simp_all
      then show ?thesis using u untouched.le_trans by blast
    next
      case (Inr a)
      then show ?thesis using assms(5) run u by (simp add: h2_handle_safely_def Some Functions)
    qed
  qed
qed

section \<open>Requests have no body\<close>

lemma h2_dict_keys: "set (od_keys (h2_header_dict headers)) = h2_header_name ` fst ` set headers"
proof -
  have "set (od_keys (fold (\<lambda>(k, v). od_set (h2_header_name k) v) headers d)) = set (od_keys d) \<union> h2_header_name ` fst ` set headers" for d
    by (induction headers arbitrary: d) (auto simp: od_keys_set split: if_splits)
  then show ?thesis by (simp add: h2_header_dict_def od_keys_def)
qed

text \<open>h2 refuses names of headers with capital letters.\<close>

definition lower_names :: "(string \<times> string) list \<Rightarrow> bool" where
  "lower_names headers \<longleftrightarrow> list_all (\<lambda>(k, v). \<not> list_ex is_upper k) headers"

lemma no_capital_names:
  assumes "lower_names headers" "list_ex is_upper n" shows "od_get (h2_header_dict headers) n = None"
proof -
  have "\<not> list_ex is_upper (h2_header_name k)" if "(k, v) \<in> set headers" for k v
  proof -
    have "\<not> list_ex is_upper k" using assms(1) that by (auto simp: lower_names_def list_all_iff)
    then show ?thesis using set_drop_subset [of 1 k] by (auto simp: h2_header_name_def list_ex_iff)
  qed
  then have "n \<notin> set (od_keys (h2_header_dict headers))" using assms(2) unfolding h2_dict_keys by auto
  then show ?thesis by (simp add: od_get_None_iff)
qed

lemma stream_request_parts:
  assumes "lower_names headers" "stream_request env headers = Inr rq"
  shows "\<exists>body p. req_input rq = new_input_file body 0 \<and> req_path rq = p \<and> req_url rq = (let h = h2_head env
     in if starts_with (hd_scheme h @ ''://'') p then p
        else hd_scheme h @ ''://'' @ hd_server_host h @ '':'' @ int_str (hd_server_port h) @ p)"
proof -
  obtain m p0 where "od_get (h2_header_dict headers) ''method'' = Some m" "od_get (h2_header_dict headers) ''path'' = Some p0"
    using assms(2) by (auto simp: stream_request_def h2_handler_copy_def Let_def rbind_eq_Inr of_option_def split: option.splits)
  moreover have "od_get (h2_header_dict headers) ''Host'' = None" "od_get (h2_header_dict headers) ''Content-Length'' = None"
    using no_capital_names [OF assms(1)] by (simp_all add: is_upper_def)
  ultimately show ?thesis using assms(2)
    by (auto simp: stream_request_def h2_handler_copy_def h2_request_def h2_url_def h2_host_port_def Let_def rbind_eq_Inr)
qed

lemma empty_input: "fst (in_read n (new_input_file body 0)) = Inr []"
  by (simp add: in_read_def buf_position_def and_then_get_state new_input_file_def act_simps Let_def and_then_def)

section \<open>The order of frames\<close>

text \<open>What the threads of a stream got that belongs to it, in the order they were started.\<close>

definition thread_frames :: "int \<Rightarrow> int \<times> bool \<times> h2_event option list \<Rightarrow> h2_event list" where
  "thread_frames i t = (case t of (j, _, q) \<Rightarrow>
     if j = i then filter (\<lambda>e. event_stream e = Some i) (map the (filter (\<lambda>e. e \<noteq> None) q)) else [])"

definition stream_frames :: "int \<Rightarrow> h2_main \<Rightarrow> h2_event list" where
  "stream_frames i m = concat (map (thread_frames i) (hm_threads m))"

text \<open>Every queue belongs to the last thread of its stream.\<close>

definition streams_ok :: "h2_main \<Rightarrow> bool" where
  "streams_ok m \<longleftrightarrow> (\<forall>i n. od_get (hm_streams m) i = Some n \<longrightarrow> n < length (hm_threads m) \<and> fst (hm_threads m ! n) = i
     \<and> (\<forall>k. n < k \<longrightarrow> k < length (hm_threads m) \<longrightarrow> fst (hm_threads m ! k) \<noteq> i))"

lemma concat_update:
  assumes "n < length xs" "f y = f (xs ! n) @ zs" "zs = [] \<or> (\<forall>k. n < k \<longrightarrow> k < length xs \<longrightarrow> f (xs ! k) = [])"
  shows "concat (map f (xs[n := y])) = concat (map f xs) @ zs"
proof -
  have "map f (drop (Suc n) xs) = replicate (length xs - Suc n) []" if "zs \<noteq> []"
    using assms(3) that by (auto intro!: nth_equalityI)
  then have "zs @ concat (map f (drop (Suc n) xs)) = concat (map f (drop (Suc n) xs)) @ zs"
    by (cases "zs = []") (simp_all add: concat_replicate_trivial)
  moreover have "xs = take n xs @ xs ! n # drop (Suc n) xs" using assms(1) by (rule id_take_nth_drop)
  then have "concat (map f xs) = concat (map f (take n xs)) @ f (xs ! n) @ concat (map f (drop (Suc n) xs))"
    by (metis concat.simps(2) concat_append list.simps(9) map_append)
  ultimately show ?thesis using assms(1,2) by (simp add: upd_conv_take_nth_drop)
qed

lemma put_frame_threads:
  "length (hm_threads (put_frame n e m)) = length (hm_threads m)" "hm_streams (put_frame n e m) = hm_streams m"
  "k < length (hm_threads m) \<Longrightarrow> fst (hm_threads (put_frame n e m) ! k) = fst (hm_threads m ! k)"
  by (auto simp: put_frame_def nth_list_update split: prod.split)

lemma streams_ok_put: "streams_ok m \<Longrightarrow> streams_ok (put_frame n e m)"
  unfolding streams_ok_def by (metis put_frame_threads)

lemma stream_frames_put:
  assumes "streams_ok m" "od_get (hm_streams m) i = Some n"
  shows "stream_frames j (put_frame n (Some e) m) = stream_frames j m @ (if event_stream e = Some j \<and> i = j then [e] else [])"
proof -
  have n: "n < length (hm_threads m)" "fst (hm_threads m ! n) = i"
      "n < k \<Longrightarrow> k < length (hm_threads m) \<Longrightarrow> fst (hm_threads m ! k) \<noteq> i" for k
    using assms unfolding streams_ok_def by blast+
  obtain ws q where t: "hm_threads m ! n = (i, ws, q)" using n(2) by (cases "hm_threads m ! n") auto
  let ?zs = "if event_stream e = Some j \<and> i = j then [e] else []"
  have "concat (map (thread_frames j) ((hm_threads m)[n := (i, ws, q @ [Some e])])) = concat (map (thread_frames j) (hm_threads m)) @ ?zs"
    by (rule concat_update [OF n(1)]) (use n(3) in \<open>force simp: t thread_frames_def split: prod.split\<close>)+
  then show ?thesis using n(1) by (simp add: stream_frames_def put_frame_def t)
qed

lemma stream_frames_terminated:
  "stream_frames j (fold (\<lambda>(_, n). put_frame n (Some Connection_Terminated)) ss m) = stream_frames j m"
proof (induction ss arbitrary: m)
  case (Cons s ss)
  have "stream_frames j (put_frame n (Some Connection_Terminated) m) = stream_frames j m" for n
  proof (cases "n < length (hm_threads m)")
    case True
    obtain i ws q where t: "hm_threads m ! n = (i, ws, q)" by (cases "hm_threads m ! n") auto
    show ?thesis using concat_update [OF True, of "thread_frames j" "(i, ws, q @ [Some Connection_Terminated])" "[]"] True
      by (simp add: stream_frames_def put_frame_def t thread_frames_def event_stream_def)
  qed (simp add: put_frame_def)
  then show ?case using Cons by (simp split: prod.split)
qed simp

lemma streams_ok_terminated: "streams_ok m \<Longrightarrow> streams_ok (fold (\<lambda>(_, n). put_frame n e) ss m)"
  by (induction ss arbitrary: m) (auto simp: streams_ok_put)

lemma streams_ok_start:
  assumes "streams_ok m" "start_stream_thread i e m = Inr m'"
  shows "streams_ok m' \<and> od_get (hm_streams m') i \<noteq> None \<and> stream_frames j m' = stream_frames j m"
proof -
  obtain ws where m': "m' = m\<lparr>hm_streams := od_set i (length (hm_threads m)) (hm_streams m), hm_threads := hm_threads m @ [(i, ws, [])]\<rparr>"
    using assms(2) by (auto simp: start_stream_thread_def rbind_eq_Inr)
  have "streams_ok m'"
    using assms(1) unfolding streams_ok_def m'
    by (auto simp: od_get_set nth_append less_Suc_eq split: if_splits)
  then show ?thesis by (simp add: m' od_get_set stream_frames_def thread_frames_def)
qed

lemma streams_ok_del: "streams_ok m \<Longrightarrow> streams_ok (m\<lparr>hm_streams := od_del i (hm_streams m)\<rparr>)"
  by (simp add: streams_ok_def od_get_del)

lemma dispatch_frame_ok:
  assumes "streams_ok m" "dispatch_frame e m = (Inr (), m')"
  shows "streams_ok m' \<and> stream_frames j m' = stream_frames j m @ (if event_stream e = Some j then [e] else [])"
proof (cases "event_stream e")
  case None
  have ok: "streams_ok (m\<lparr>hm_close := True\<rparr>)" "stream_frames j (m\<lparr>hm_close := True\<rparr>) = stream_frames j m"
    using assms(1) by (simp_all add: streams_ok_def stream_frames_def)
  show ?thesis
  proof (cases "e = Connection_Terminated")
    case True
    then show ?thesis using assms(2) ok streams_ok_terminated [OF ok(1)] stream_frames_terminated [of j "hm_streams m" "m\<lparr>hm_close := True\<rparr>"] None
      by (auto simp: dispatch_frame_def)
  next
    case False
    then show ?thesis using assms None by (auto simp: dispatch_frame_def)
  qed
next
  case (Some i)
  then have e: "e \<noteq> Connection_Terminated" by (auto simp: event_stream_def)
  obtain m1 where m1: "(if od_get (hm_streams m) i = None then start_stream_thread i e m else Inr m) = Inr m1"
    using assms(2) e Some by (auto simp: dispatch_frame_def Let_def split: sum.splits)
  then have ok1: "streams_ok m1" "od_get (hm_streams m1) i \<noteq> None" "stream_frames j m1 = stream_frames j m"
    using assms(1) streams_ok_start [OF assms(1), of i e m1 j] by (auto split: if_splits)
  then obtain n where n: "od_get (hm_streams m1) i = Some n" by blast
  let ?m2 = "put_frame n (Some e) m1"
  have "streams_ok ?m2" using ok1(1) by (rule streams_ok_put)
  moreover have "stream_frames j ?m2 = stream_frames j m @ (if event_stream e = Some j then [e] else [])"
    using stream_frames_put [OF ok1(1) n, of j e] ok1(3) Some by auto
  moreover have "m' = ?m2 \<or> m' = ?m2\<lparr>hm_streams := od_del i (hm_streams ?m2)\<rparr>"
    using assms(2) e Some m1 n by (auto simp: dispatch_frame_def Let_def split: if_splits)
  ultimately show ?thesis using streams_ok_del by (auto simp: stream_frames_def)
qed

lemma dispatch_frames_order:
  "streams_ok m \<Longrightarrow> dispatch_frames es m = (Inr (), m') \<Longrightarrow>
     streams_ok m' \<and> stream_frames i m' = stream_frames i m @ filter (\<lambda>e. event_stream e = Some i) es"
proof (induction es arbitrary: m)
  case Nil
  then show ?case by (simp add: dispatch_frames_def act_simps)
next
  case (Cons e es)
  obtain r m1 where d: "dispatch_frame e m = (r, m1)" by (cases "dispatch_frame e m")
  then have r: "r = Inr ()" "dispatch_frames es m1 = (Inr (), m')"
    using Cons.prems(2) by (cases r; simp add: dispatch_frames_def and_then_def)+
  have ok: "streams_ok m1" "stream_frames i m1 = stream_frames i m @ (if event_stream e = Some i then [e] else [])"
    using dispatch_frame_ok [OF Cons.prems(1)] d r(1) by blast+
  then show ?case using Cons.IH [OF ok(1) r(2)] by auto
qed

text \<open>
  h2 reports the end of a stream that ends with its headers in the event of the headers and in one of its own, so such a
  request, as every \<open>GET\<close>, starts two threads; the second has nothing to do.
\<close>

lemma requests_start_two_threads:
  assumes "od_get (hm_streams m) i = None" "is_extended_connect_frame (Request_Received i hs True) = Inr ws"
  shows "\<exists>m'. dispatch_frames [Request_Received i hs True, Stream_Ended i] m = (Inr (), m')
     \<and> hm_threads m' = hm_threads m @ [(i, ws, [Some (Request_Received i hs True)]), (i, False, [Some (Stream_Ended i)])]
     \<and> od_get (hm_streams m') i = None"
  using assms
  by (simp add: dispatch_frames_def and_then_def dispatch_frame_def event_stream_def start_stream_thread_def od_get_set od_get_del
      put_frame_def event_ended_def is_stream_ended_def give_def Let_def is_extended_connect_frame_def [of "Stream_Ended i"]
      nth_append list_update_append)

section \<open>A connection closed by the other side\<close>

definition stays_open :: "'c h2_socket \<Rightarrow> nat \<Rightarrow> bool" where
  "stays_open so n \<longleftrightarrow> (\<forall>k\<ge>n. so_recv so k = Inr [] \<and> \<not> so_closed so k \<and> (\<forall>c. \<exists>c'. so_receive so k [] c = (Inr [], c')))"

lemma loop_spins:
  "receive_loop so n c m = Some r \<Longrightarrow> \<not> (stays_open so n \<and> \<not> hm_close m)"
proof (erule receive_loop.raw_induct [rotated, where P = "\<lambda>so n c m r. \<not> (stays_open so n \<and> \<not> hm_close m)"], intro notI)
  fix loop so n c m r
  assume IH: "\<And>so n c m r. loop so n c m = Some r \<Longrightarrow> \<not> (stays_open so n \<and> \<not> hm_close m)"
    and run: "(if hm_close m \<or> so_closed so n then Some (Inr (), m)
      else case so_recv so n of
        Inl e \<Rightarrow> Some (Inl e, m)
      | Inr data \<Rightarrow>
          (case so_receive so n data c of
             (Inl e, c1) \<Rightarrow> Some (Inl e, m)
           | (Inr frames, c1) \<Rightarrow>
               (case dispatch_frames frames m of
                  (Inl e, m1) \<Rightarrow> Some (Inl e, m1)
                | (Inr _, m1) \<Rightarrow> loop so (Suc n) c1 m1))) = Some r"
    and open_: "stays_open so n \<and> \<not> hm_close m"
  obtain c' where c': "so_recv so n = Inr []" "\<not> so_closed so n" "so_receive so n [] c = (Inr [], c')"
    using open_ unfolding stays_open_def by blast
  then have "loop so (Suc n) c' m = Some r" using run open_ by (simp add: dispatch_frames_def give_def)
  moreover have "stays_open so (Suc n)" using open_ by (simp add: stays_open_def)
  ultimately show False using IH open_ by blast
qed

section \<open>Uploads\<close>

text \<open>The bytes of data in a list of frames.\<close>

definition uploaded :: "h2_event list \<Rightarrow> nat" where
  "uploaded es = sum_list (map (\<lambda>e. case e of Data_Received _ d _ \<Rightarrow> length d | _ \<Rightarrow> 0) es)"

definition data_event :: "h2_event \<Rightarrow> bool" where
  "data_event e = (case e of Data_Received _ _ _ \<Rightarrow> True | _ \<Rightarrow> False)"

lemma upload_step:
  assumes "th_pipe th = Some n" "th_exchange th = Some ex" "hook_of ff_data (ex_handler ex) = None" "n + length d \<le> h2_pipe_size env"
  shows "process_frame env (Some (Data_Received i d False)) th = Some (Inr False,
     th\<lparr>th_pipe := Some (n + length d), th_exchange := Some (ex\<lparr>ex_frames := ex_frames ex @ [Data_Received i d False]\<rparr>)\<rparr>)"
  using assms by (simp add: process_frame_def ends_thread_def receive_stream_data_def run_hook_def event_ended_def Let_def)

lemma upload_blocks:
  assumes "h2_pipe_size env < n + uploaded es" "list_all data_event es" "list_all (\<lambda>e. \<not> event_ended e) (butlast es)"
    "th_pipe th = Some n" "n \<le> h2_pipe_size env" "th_exchange th = Some ex" "hook_of ff_data (ex_handler ex) = None"
  shows "stream_loop env (map (\<lambda>e. (False, Some e)) es @ rest) th = None"
  using assms
proof (induction es arbitrary: n th ex)
  case Nil
  then show ?case by (simp add: uploaded_def)
next
  case (Cons e es)
  obtain i d b where e: "e = Data_Received i d b" using Cons.prems(2) by (cases e) (auto simp: data_event_def)
  show ?case
  proof (cases "h2_pipe_size env < n + length d")
    case True
    then show ?thesis using Cons.prems(4)
      by (simp add: e process_frame_def ends_thread_def receive_stream_data_def)
  next
    case False
    then have "es \<noteq> []" using Cons.prems(1) by (auto simp: uploaded_def e)
    then have b: "b = False" "list_all (\<lambda>e. \<not> event_ended e) (butlast es)" using Cons.prems(3) by (auto simp: e event_ended_def)
    let ?ex = "ex\<lparr>ex_frames := ex_frames ex @ [e]\<rparr>"
    let ?th = "th\<lparr>th_pipe := Some (n + length d), th_exchange := Some ?ex\<rparr>"
    have "stream_loop env (map (\<lambda>e. (False, Some e)) es @ rest) ?th = None"
      using Cons.IH [OF _ _ b(2), of "n + length d" ?th ?ex] Cons.prems False by (simp add: uploaded_def e)
    then show ?thesis using upload_step [OF Cons.prems(4,6,7), of d env i] False by (simp add: e b(1))
  qed
qed

lemma receive_request_pipe: "receive_request env i hs th = Some (r, th') \<Longrightarrow> th_pipe th' = Some 0"
  by (auto simp: receive_request_def Let_def split: sum.splits option.splits)

section \<open>Properties\<close>



text \<open>
  when the other side closes the connection without saying so in HTTP/2, the loop that receives frames never ends:
  it compares the empty bytes it gets with an empty text, which they never equal.
\<close>

theorem closed_connection_spins:
  assumes "\<forall>k. so_recv so k = Inr [] \<and> \<not> so_closed so k" and "\<forall>k c. \<exists>c'. so_receive so k [] c = (Inr [], c')" and "\<not> so_reset so"
  shows "h2_handle_connection so c = None"
proof -
  have "receive_loop so 0 c no_threads = None"
    using loop_spins [of so 0 c no_threads] assms(1,2)
    by (cases "receive_loop so 0 c no_threads") (auto simp: stays_open_def no_threads_def)
  then show ?thesis using assms(3) by (simp add: h2_handle_connection_def)
qed

text \<open>
  C13: no handler sees the body of a request over HTTP/2: names of headers have no capital letters there, the dictionary is
  exact, so the length of the body is taken to be zero and every read gives nothing; for the same reason the URL has the
  address the server is bound to and not the requested host. A body longer than the pipe that nobody reads blocks the thread
  for ever, and the request is never answered.
\<close>

theorem h2_bodies_are_lost:
  assumes "lower_names hs" and "stream_request env hs = Inr rq"
  shows "fst (in_read n (req_input rq)) = Inr []
     \<and> (\<not> starts_with (hd_scheme (h2_head env) @ ''://'') (req_path rq) \<longrightarrow>
          req_url rq = hd_scheme (h2_head env) @ ''://'' @ hd_server_host (h2_head env) @ '':'' @ int_str (hd_server_port (h2_head env)) @ req_path rq)
     \<and> (process_frame env (Some (Request_Received i hs False)) new_thread = Some (Inr False, th) \<longrightarrow>
        (\<forall>ex. th_exchange th = Some ex \<longrightarrow> hook_of ff_data (ex_handler ex) = None) \<longrightarrow>
        h2_pipe_size env < uploaded es \<longrightarrow> list_all data_event es \<longrightarrow> list_all (\<lambda>e. \<not> event_ended e) (butlast es) \<longrightarrow>
        stream_loop env ((False, Some (Request_Received i hs False)) # map (\<lambda>e. (False, Some e)) es @ rest) new_thread = None)"
proof (intro conjI impI)
  obtain body where "req_input rq = new_input_file body 0" using stream_request_parts [OF assms] by blast
  then show "fst (in_read n (req_input rq)) = Inr []" by (simp add: empty_input)
  assume "\<not> starts_with (hd_scheme (h2_head env) @ ''://'') (req_path rq)"
  then show "req_url rq = hd_scheme (h2_head env) @ ''://'' @ hd_server_host (h2_head env) @ '':'' @ int_str (hd_server_port (h2_head env)) @ req_path rq"
    using stream_request_parts [OF assms] by (auto simp: Let_def)
next
  assume run: "process_frame env (Some (Request_Received i hs False)) new_thread = Some (Inr False, th)"
    and hooks: "\<forall>ex. th_exchange th = Some ex \<longrightarrow> hook_of ff_data (ex_handler ex) = None"
    and es: "h2_pipe_size env < uploaded es" "list_all data_event es" "list_all (\<lambda>e. \<not> event_ended e) (butlast es)"
  obtain th1 where th1: "receive_request env i hs new_thread = Some (Inr (), th1)"
      "th = th1\<lparr>th_exchange := map_option (\<lambda>ex. ex\<lparr>ex_frames := ex_frames ex @ [Request_Received i hs False]\<rparr>) (th_exchange th1)\<rparr>"
    using run by (auto simp: process_frame_def ends_thread_def event_ended_def Let_def split: option.splits sum.splits)
  then have pipe: "th_pipe th = Some 0" using receive_request_pipe by fastforce
  have "th_exchange th1 \<noteq> None" using th1(1) assms(2)
    by (auto simp: receive_request_def Let_def split: option.splits sum.splits)
  then obtain ex where ex: "th_exchange th = Some ex" using th1(2) by auto
  have "stream_loop env (map (\<lambda>e. (False, Some e)) es @ rest) th = None"
    using upload_blocks [OF _ es(2,3) pipe _ ex] es(1) hooks ex by simp
  then show "stream_loop env ((False, Some (Request_Received i hs False)) # map (\<lambda>e. (False, Some e)) es @ rest) new_thread = None"
    using run by simp
qed

section \<open>A concrete server\<close>

definition demo_h2_env :: "int h2_env" where
  "demo_h2_env = \<lparr>h2_conn_api = (\<lambda>i m. demo_api\<lparr>ha_stream := i, ha_method := m\<rparr>), h2_conn_state = (\<lambda>_. 100),
     h2_hooks = (\<lambda>_. (None, None)), h2_pipe_size = 4,
     h2_head = \<lparr>hd_scheme = ''https'', hd_server_host = ''b'', hd_server_port = 80, hd_protocol = [], hd_command = [],
       hd_path = [], hd_headers = [], hd_body = []\<rparr>,
     h2_server = \<lparr>srv_rules = [], srv_routes = [(Method ''GET'', [RSlash], Given_Handler 0), (Method ''POST'', [RSlash], Given_Handler 0)],
       srv_site = demo_site\<lparr>si_given := (\<lambda>_ _. ends_with_result (set_content (CData (DBytes ''ok''))))\<rparr>, srv_env = served ''/''\<rparr>\<rparr>"

definition demo_h2_headers :: "string \<Rightarrow> (string \<times> string) list" where
  "demo_h2_headers m = [('':method'', m), ('':scheme'', ''https''), ('':authority'', ''sub.h''), ('':path'', ''/''), (''content-length'', ''9'')]"

definition demo_h2_request :: "string \<Rightarrow> request" where
  "demo_h2_request m = \<lparr>req_method = m, req_protocol = ''HTTP/2.0'', req_path = ''/'', req_url = ''https://b:80/'',
     req_url_parts = \<lparr>up_scheme = ''https'', up_netloc = ''b:80'', up_path = ''/'', up_query = [], up_fragment = []\<rparr>,
     req_raw_headers = [(''method'', m), (''scheme'', ''https''), (''authority'', ''sub.h''), (''path'', ''/''), (''content-length'', ''9'')],
     req_input = new_input_file [] 0\<rparr>"

lemma demo_h2_urls:
  "urlsplit ''/'' = Inr \<lparr>up_scheme = [], up_netloc = [], up_path = ''/'', up_query = [], up_fragment = []\<rparr>"
  "urlsplit ''https://b:80/''
    = Inr \<lparr>up_scheme = ''https'', up_netloc = ''b:80'', up_path = ''/'', up_query = [], up_fragment = []\<rparr>"
  "int_str 80 = ''80''"
  by code_simp+

lemma demo_h2_copy:
  "h2_handler_copy h (demo_h2_headers m)
    = Inr (h\<lparr>hd_protocol := ''HTTP/2.0'', hd_command := m, hd_path := ''/'', hd_headers := req_raw_headers (demo_h2_request m)\<rparr>)"
  by (simp add: h2_handler_copy_def demo_h2_headers_def h2_header_dict_def h2_header_name_def h2_headers_def Let_def of_option_def
      demo_h2_request_def)

lemma demo_h2_request: "stream_request demo_h2_env (demo_h2_headers m) = Inr (demo_h2_request m)"
  unfolding stream_request_def demo_h2_copy
  by (simp add: rewrite_def demo_h2_urls demo_h2_env_def h2_request_def h2_url_def h2_host_port_def starts_with_def demo_h2_request_def)

lemma demo_lower: "m \<in> {''GET'', ''POST''} \<Longrightarrow> lower_names (demo_h2_headers m)"
  by (auto simp: lower_names_def demo_h2_headers_def is_upper_def)

lemma demo_h2_route:
  assumes "m \<in> {''GET'', ''POST''}"
  shows "get_handler (srv_routes (h2_server demo_h2_env)) m ''/'' = Some (Given_Handler 0, [])"
proof -
  have "route_match [RSlash] ''/'' = Some []" by code_simp
  then show ?thesis using assms by (auto simp: demo_h2_env_def get_handler_def admits_def)
qed

abbreviation ok_response :: response where
  "ok_response \<equiv> new_response\<lparr>rs_content := CData (DBytes ''ok'')\<rparr>"

lemma demo_h2_handled:
  "h2_handle_safely (srv_site (h2_server demo_h2_env)) env (Some (Routed (Given_Handler 0))) new_response = Some (Inr (), ok_response)"
  by (simp add: h2_handle_safely_def handle_safely_def demo_h2_env_def ends_with_result_def set_content_def act_simps)

lemma demo_room_any: "stream_room (demo_api\<lparr>ha_stream := i, ha_method := m\<rparr>) demo_room demo_room 20"
  by (auto simp: stream_room_def demo_api_def demo_room_def)



definition demo_socket :: "unit h2_socket" where
  "demo_socket = \<lparr>so_reset = False, so_recv = (\<lambda>_. Inr []), so_closed = (\<lambda>_. False), so_receive = (\<lambda>_ _ c. (Inr [], c))\<rparr>"

theorem closed_connection_spins_witness: "h2_handle_connection demo_socket () = None"
  by (rule closed_connection_spins) (simp_all add: demo_socket_def)

theorem h2_bodies_are_lost_witness:
  "fst (in_read 9 (req_input (demo_h2_request ''POST''))) = Inr []
     \<and> req_url (demo_h2_request ''POST'') = ''https://b:80/''
     \<and> stream_loop demo_h2_env [(False, Some (Request_Received 1 (demo_h2_headers ''POST'') False)), (False, Some (Data_Received 1 ''a=1&b=2&c'' True))]
         new_thread = None"
proof -
  let ?rq = "demo_h2_request ''POST''" and ?hs = "demo_h2_headers ''POST''"
  let ?ex = "\<lparr>ex_env = request_env (h2_server demo_h2_env) ?rq, ex_handler = Some (Routed (Given_Handler 0)),
      ex_response = (new_response, new_h2_writer 100), ex_frames = [Request_Received 1 ?hs False]\<rparr>"
  let ?th = "new_thread\<lparr>th_pipe := Some 0, th_exchange := Some ?ex\<rparr>"
  have rq: "req_method ?rq = ''POST''" "up_path (req_url_parts ?rq) = ''/''" "req_path ?rq = ''/''" by (simp_all add: demo_h2_request_def)
  have "receive_request demo_h2_env 1 ?hs new_thread = Some (Inr (), new_thread\<lparr>th_pipe := Some 0, th_exchange := Some (?ex\<lparr>ex_frames := []\<rparr>)\<rparr>)"
    by (simp add: receive_request_def demo_h2_request rq demo_h2_route choose_handler_def run_hook_def hook_of_def Let_def)
      (simp add: demo_h2_env_def [THEN arg_cong [of _ _ h2_conn_state]])
  then have run: "process_frame demo_h2_env (Some (Request_Received 1 ?hs False)) new_thread = Some (Inr False, ?th)"
    by (simp add: process_frame_def ends_thread_def event_ended_def Let_def)
  have "\<not> starts_with (hd_scheme (h2_head demo_h2_env) @ ''://'') (req_path ?rq)"
    by (simp add: demo_h2_env_def rq starts_with_def)
  moreover have "h2_pipe_size demo_h2_env < uploaded [Data_Received 1 ''a=1&b=2&c'' True]"
    by (simp add: demo_h2_env_def uploaded_def)
  moreover have "hd_scheme (h2_head demo_h2_env) @ ''://'' @ hd_server_host (h2_head demo_h2_env) @ '':'' @ int_str (hd_server_port (h2_head demo_h2_env)) @ req_path ?rq
      = ''https://b:80/''" unfolding rq by (simp add: demo_h2_env_def demo_h2_urls)
  ultimately show ?thesis
    using h2_bodies_are_lost [OF demo_lower demo_h2_request, of "''POST''" 9 1 ?th "[Data_Received 1 ''a=1&b=2&c'' True]" "[]"] run
    by (simp add: data_event_def hook_of_def)
qed

end
