(* ===== verification/Header_Mutations.thy ===== *)
theory Header_Mutations
  imports Db_Rows "HOL-Library.Multiset"
begin

text \<open>
  The generator of the parsing responses, first half of
  \<open>_hp/hp/tools/response_header_generation.py\<close>: the string mutations, the classes \<open>HeaderTests\<close> and
  \<open>HeaderTestsMultHeader\<close>, and the expansion of URL placeholders. Texts are lists of code points, because
  the mutations insert characters beyond Latin-1. Two things the program does not determine are
  parameters: the choices of the seeded random generator (\<open>coin\<close>) and the order in which a Python set of
  strings is iterated (\<open>iter_set\<close>, applied to the distinct elements), which depends on the hash seed of
  the process.
\<close>

record gen_env =
  coin :: "nat \<Rightarrow> bool"
  iter_set :: "ustr list \<Rightarrow> ustr list"

text \<open>What Python guarantees about iterating a set: every element once.\<close>

definition set_order :: "gen_env \<Rightarrow> bool" where
  "set_order env \<longleftrightarrow> (\<forall>xs. distinct xs \<longrightarrow> mset (iter_set env xs) = mset xs)"

section \<open>Mutations\<close>

text \<open>\<open>str.upper\<close> and \<open>str.lower\<close> on ASCII code points, the only letters of the header names and values.\<close>

definition cp_upper :: "nat \<Rightarrow> nat" where
  "cp_upper c = (if 97 \<le> c \<and> c \<le> 122 then c - 32 else c)"

definition cp_lower :: "nat \<Rightarrow> nat" where
  "cp_lower c = (if 65 \<le> c \<and> c \<le> 90 then c + 32 else c)"

text \<open>\<open>random.choice([c.upper(), c.lower()])\<close>: the stream of choices restarts with every call.\<close>

definition randomize_casing :: "(nat \<Rightarrow> bool) \<Rightarrow> ustr \<Rightarrow> ustr" where
  "randomize_casing choice s =
     map (\<lambda>(i, c). if choice i then cp_lower c else cp_upper c) (enumerate 0 s)"

definition insert_char_middle :: "ustr \<Rightarrow> ustr \<Rightarrow> ustr" where
  "insert_char_middle s ch = (let mid = length s div 2 in take mid s @ ch @ drop mid s)"

definition all_upper :: "ustr \<Rightarrow> ustr" where "all_upper x = map cp_upper x"
definition all_lower :: "ustr \<Rightarrow> ustr" where "all_lower x = map cp_lower x"
definition leadtrail_space :: "ustr \<Rightarrow> ustr" where "leadtrail_space x = cp '' '' @ x @ cp '' ''"
definition in_double_quotes :: "ustr \<Rightarrow> ustr" where "in_double_quotes x = [34] @ x @ [34]"
definition in_single_quotes :: "ustr \<Rightarrow> ustr" where "in_single_quotes x = [39] @ x @ [39]"
definition remove_whitespace :: "ustr \<Rightarrow> ustr" where "remove_whitespace x = replace_sub (cp '' '') [] x"
definition double_spaces :: "ustr \<Rightarrow> ustr" where "double_spaces x = replace_sub (cp '' '') (cp ''  '') x"
definition space_to_tab :: "ustr \<Rightarrow> ustr" where "space_to_tab x = replace_sub (cp '' '') [9] x"

definition ascii_chars :: "ustr list" where
  "ascii_chars = map (\<lambda>c. [c]) [0..<128]"

text \<open>Two spaces; a non-breaking space and the letter a; a full-width comma.\<close>

definition other_chars :: "ustr list" where
  "other_chars = [cp ''  '', [160, 97], [65292]]"

definition lead_seqs :: "(ustr \<Rightarrow> ustr) list" where
  "lead_seqs = map (\<lambda>s x. s @ x) (ascii_chars @ other_chars)"

definition trail_seqs :: "(ustr \<Rightarrow> ustr) list" where
  "trail_seqs = map (\<lambda>s x. x @ s) (ascii_chars @ other_chars)"

definition middle_seqs :: "(ustr \<Rightarrow> ustr) list" where
  "middle_seqs = map (\<lambda>s x. insert_char_middle x s) (ascii_chars @ other_chars)"

definition chars_to_replace :: "ustr list" where
  "chars_to_replace = [cp '';'', cp '','', cp '':'', cp ''='', [39], [34], cp ''-'', cp ''_'']"

definition replace_chars :: "ustr list" where
  "replace_chars =
     [[], cp '' '', cp '';'', cp '','', cp '':'', cp ''='', cp ''-'', cp ''_'',
      [39], [34], [96], [180],
      [8216], [8217], [8218], [8219], [8220], [8221], [8222], [8223]]"

definition replace_funcs :: "(ustr \<Rightarrow> ustr) list" where
  "replace_funcs =
     [(\<lambda>x. replace_sub c1 c2 x). c1 \<leftarrow> chars_to_replace, c2 \<leftarrow> replace_chars, c2 \<noteq> c1]"

definition general_mutations :: "gen_env \<Rightarrow> (ustr \<Rightarrow> ustr) list" where
  "general_mutations env =
     [all_upper, all_lower, randomize_casing (coin env), leadtrail_space, in_double_quotes,
      in_single_quotes, remove_whitespace, double_spaces, space_to_tab]
     @ lead_seqs @ trail_seqs @ middle_seqs @ replace_funcs"

definition basic_mutations :: "gen_env \<Rightarrow> (ustr \<Rightarrow> ustr) list" where
  "basic_mutations env = [all_lower, randomize_casing (coin env), leadtrail_space]"

text \<open>Adding to a Python set: the distinct elements; iterating it: in the order of \<open>iter_set\<close>.\<close>

definition set_add :: "'a \<Rightarrow> 'a list \<Rightarrow> 'a list" where
  "set_add x xs = (if x \<in> set xs then xs else xs @ [x])"

definition mutate_header_value :: "gen_env \<Rightarrow> (ustr \<Rightarrow> ustr) list \<Rightarrow> ustr \<Rightarrow> ustr list" where
  "mutate_header_value env muts v = iter_set env (fold (\<lambda>m acc. set_add (m v) acc) muts [])"

definition mutate_header_name :: "gen_env \<Rightarrow> ustr \<Rightarrow> ustr list" where
  "mutate_header_name env n = iter_set env (fold (\<lambda>m acc. set_add (m n) acc) (general_mutations env) [])"

lemma set_add_fold:
  "set (fold (\<lambda>m acc. set_add (m v) acc) muts acc) = set acc \<union> (\<lambda>m. m v) ` set muts"
  by (induction muts arbitrary: acc) (auto simp: set_add_def)

lemma distinct_set_add_fold:
  "distinct acc \<Longrightarrow> distinct (fold (\<lambda>m acc. set_add (m v) acc) muts acc)"
  by (induction muts arbitrary: acc) (auto simp: set_add_def)

lemma set_iter: "set_order env \<Longrightarrow> distinct xs \<Longrightarrow> set (iter_set env xs) = set xs"
  by (metis set_order_def set_mset_mset)

lemma distinct_iter: "set_order env \<Longrightarrow> distinct xs \<Longrightarrow> distinct (iter_set env xs)"
  by (metis set_order_def mset_eq_imp_distinct_iff)

lemma set_mutate_header_value:
  "set_order env \<Longrightarrow> set (mutate_header_value env muts v) = (\<lambda>m. m v) ` set muts"
  by (simp add: mutate_header_value_def set_iter distinct_set_add_fold set_add_fold)

lemma set_mutate_header_name:
  "set_order env \<Longrightarrow> set (mutate_header_name env n) = (\<lambda>m. m n) ` set (general_mutations env)"
  by (simp add: mutate_header_name_def set_iter distinct_set_add_fold set_add_fold)

lemma distinct_mutate_header_value:
  "set_order env \<Longrightarrow> distinct (mutate_header_value env muts v)"
  by (simp add: mutate_header_value_def distinct_iter distinct_set_add_fold)

section \<open>Permutations in the order of itertools\<close>

fun selects :: "'a list \<Rightarrow> ('a \<times> 'a list) list" where
  "selects [] = []"
| "selects (x # xs) = (x, xs) # map (\<lambda>(y, ys). (y, x # ys)) (selects xs)"

lemma selects_length: "(y, ys) \<in> set (selects xs) \<Longrightarrow> length xs = Suc (length ys)"
  by (induction xs arbitrary: y ys) auto

function perms :: "'a list \<Rightarrow> 'a list list" where
  "perms xs = (if xs = [] then [[]]
     else concat (map (\<lambda>(y, ys). map ((#) y) (perms ys)) (selects xs)))"
  by pat_completeness auto
termination
  by (relation "measure length") (auto dest: selects_length)

declare perms.simps [simp del]

lemma mset_selects: "(y, ys) \<in> set (selects xs) \<Longrightarrow> mset xs = add_mset y (mset ys)"
  by (induction xs arbitrary: y ys) auto

lemma selects_complete: "y \<in> set xs \<Longrightarrow> \<exists>ys. (y, ys) \<in> set (selects xs)"
  by (induction xs) force+

lemma perms_Nil [simp]: "perms [] = [[]]"
  by (simp add: perms.simps [of "[]"])

lemma perms_step:
  "xs \<noteq> [] \<Longrightarrow> perms xs = concat (map (\<lambda>(y, ys). map ((#) y) (perms ys)) (selects xs))"
  by (simp add: perms.simps [of xs])

lemma in_perms_step:
  "xs \<noteq> [] \<Longrightarrow> zs \<in> set (perms xs)
     \<longleftrightarrow> (\<exists>y ys zs'. (y, ys) \<in> set (selects xs) \<and> zs' \<in> set (perms ys) \<and> zs = y # zs')"
  by (auto simp: perms_step)

lemma in_perms: "zs \<in> set (perms xs) \<longleftrightarrow> mset zs = mset xs"
proof (induction "length xs" arbitrary: xs zs rule: less_induct)
  case less
  show ?case
  proof (cases "xs = []")
    case False
    have IH: "zs' \<in> set (perms ys) \<longleftrightarrow> mset zs' = mset ys" if "(y, ys) \<in> set (selects xs)" for y ys zs'
      using less [of ys] selects_length [OF that] by simp
    show ?thesis
    proof
      assume "zs \<in> set (perms xs)"
      then obtain y ys zs' where "(y, ys) \<in> set (selects xs)" "zs' \<in> set (perms ys)" "zs = y # zs'"
        using in_perms_step [OF False] by blast
      then show "mset zs = mset xs" using IH mset_selects by fastforce
    next
      assume zs: "mset zs = mset xs"
      then obtain z zs' where z: "zs = z # zs'" using False by (cases zs) auto
      then have "z \<in> set xs" using zs by (metis list.set_intros(1) set_mset_mset)
      then obtain ys where ys: "(z, ys) \<in> set (selects xs)" using selects_complete by fast
      then have "mset zs' = mset ys" using mset_selects [OF ys] zs z by simp
      then show "zs \<in> set (perms xs)" using in_perms_step [OF False] IH ys z by blast
    qed
  qed simp
qed

end
