(* ===== verification/Header_Tests.thy ===== *)
theory Header_Tests
  imports Header_Mutations
begin

text \<open>
  The classes \<open>HeaderTests\<close> and \<open>HeaderTestsMultHeader\<close> of
  \<open>_hp/hp/tools/response_header_generation.py\<close>: the responses one header (or pair of headers) is tested
  with, and storing them. An object is a record of its attributes; the attributes a constructor sets never
  change afterwards, and every method appends to \<open>responses\<close> through \<open>create_response\<close>.
\<close>

type_synonym header = "ustr \<times> ustr"

record header_tests =
  ht_label :: ustr
  ht_header_name :: ustr
  ht_alt_names :: "ustr list"
  ht_block_values :: "ustr list"
  ht_allow_values :: "ustr list"
  ht_partial_values :: "ustr list"
  ht_legacy_values :: "ustr list"
  ht_other_values :: "ustr list"
  ht_base_resp :: "header list option"
  ht_responses :: "response_row list"

section \<open>The methods of HeaderTests\<close>

text \<open>\<open>if self.base_resp\<close> is false for \<open>None\<close> and for the empty list.\<close>

definition with_base :: "header list option \<Rightarrow> header list \<Rightarrow> header list" where
  "with_base b h = (case b of None \<Rightarrow> h | Some [] \<Rightarrow> h | Some (x # xs) \<Rightarrow> h @ x # xs)"

definition create_response :: "header list \<Rightarrow> ustr \<Rightarrow> int \<Rightarrow> resp_type \<Rightarrow> header_tests \<Rightarrow> header_tests" where
  "create_response h lab code rt self =
     self\<lparr>ht_responses := ht_responses self
       @ [\<lparr>raw_header = with_base (ht_base_resp self) h, status_code = code, label = lab, resp_type = rt\<rparr>]\<rparr>"

text \<open>A run of calls \<open>self.create_response(h, self.label, status_code=code)\<close>.\<close>

definition create_responses :: "(header list \<times> int) list \<Rightarrow> header_tests \<Rightarrow> header_tests" where
  "create_responses calls self =
     fold (\<lambda>(h, code) self. create_response h (ht_label self) code Parsing self) calls self"

definition valid_groups :: "header_tests \<Rightarrow> ustr list list" where
  "valid_groups self = [ht_block_values self, ht_allow_values self, ht_partial_values self]"

text \<open>The calls of each test method, and the methods.\<close>

definition name_calls :: "gen_env \<Rightarrow> header_tests \<Rightarrow> (header list \<times> int) list" where
  "name_calls env self =
     concat [([(ht_header_name self, v)], 200)
         # [([(n, v)], 200). n \<leftarrow> ht_alt_names self]
         @ [([(n, v)], 200). n \<leftarrow> mutate_header_name env (ht_header_name self)].
       grp \<leftarrow> valid_groups self, v \<leftarrow> grp]"

definition header_name_tests :: "gen_env \<Rightarrow> header_tests \<Rightarrow> header_tests" where
  "header_name_tests env self = create_responses (name_calls env self) self"

definition other_codes :: "int list" where
  "other_codes = [201, 203, 204, 300, 302, 400, 403, 404, 418, 500]"

definition parsing_calls :: "gen_env \<Rightarrow> header \<Rightarrow> header_tests \<Rightarrow> (header list \<times> int) list" where
  "parsing_calls env redirect self =
     [([(ht_header_name self, v)], 200). grp \<leftarrow> [ht_legacy_values self, ht_other_values self], v \<leftarrow> grp]
     @ concat [
         [(if 300 \<le> code \<and> code < 400 then [(ht_header_name self, v), redirect] else [(ht_header_name self, v)],
           code). code \<leftarrow> other_codes]
         @ [([(ht_header_name self, m)], 200). m \<leftarrow> mutate_header_value env (general_mutations env) v].
       grp \<leftarrow> valid_groups self, v \<leftarrow> grp]"

definition parsing_tests :: "gen_env \<Rightarrow> header \<Rightarrow> header_tests \<Rightarrow> header_tests" where
  "parsing_tests env redirect self = create_responses (parsing_calls env redirect self) self"

definition basic1 :: "ustr \<Rightarrow> ustr list list \<Rightarrow> header list list" where
  "basic1 name all_orders =
     concat [[[(name, join_with (cp '', '') ord)], [(name, join_with (cp ''; '') ord)],
              [(name, join_with (cp '' '') ord)]]. ord \<leftarrow> all_orders]"

definition basic2 :: "ustr \<Rightarrow> ustr list list \<Rightarrow> header list list" where
  "basic2 name all_orders = [[(name, v). v \<leftarrow> ord]. ord \<leftarrow> all_orders]"

definition basic3 :: "ustr \<Rightarrow> ustr list list \<Rightarrow> header list list" where
  "basic3 name all_orders =
     concat [if 3 \<le> length ord
             then [[(name, hd ord), (name, join_with (cp '', '') (tl ord))],
                   [(name, join_with (cp '', '') (butlast ord)), (name, last ord)]]
             else []. ord \<leftarrow> all_orders]"

definition basic4 :: "ustr \<Rightarrow> ustr list \<Rightarrow> header list list" where
  "basic4 name valid =
     concat [[[(name, v), (name, v)], [(name, v @ cp '', '' @ v)],
              [(name, v), (name, map cp_lower v)], [(name, v), (name, map cp_upper v)]]. v \<leftarrow> valid]"

definition advanced1 :: "ustr \<Rightarrow> ustr list list \<Rightarrow> header list list" where
  "advanced1 name all_orders =
     [[(if i = 0 then h1 else h2, v). (i, v) \<leftarrow> enumerate 0 ord].
      ord \<leftarrow> all_orders, (h1, h2) \<leftarrow> [(name, map cp_upper name), (map cp_upper name, name)]]"

definition advanced2 :: "ustr \<Rightarrow> ustr list \<Rightarrow> ustr list \<Rightarrow> header list list" where
  "advanced2 name valid others =
     concat [[[(name, v), (name, w)], [(name, w), (name, v)],
              [(name, v @ cp '', '' @ w)], [(name, w @ cp '', '' @ v)]]. v \<leftarrow> valid, w \<leftarrow> take 2 others]"

definition mult_headers_tests :: "header_tests \<Rightarrow> header_tests" where
  "mult_headers_tests self =
    (let name = ht_header_name self;
         valid = ht_block_values self @ ht_allow_values self @ ht_partial_values self;
         all_orders = perms valid
     in create_responses
          (map (\<lambda>h. (h, 200)) (basic1 name all_orders @ basic2 name all_orders @ basic3 name all_orders
             @ basic4 name valid @ advanced1 name all_orders @ advanced2 name valid (ht_other_values self))) self)"

text \<open>
  \<open>save_responses\<close>: one \<open>get_or_create\<close> per response. All columns of the model are in the unique
  constraint, so the insertion after a failed look-up cannot violate it.
\<close>

definition save_responses :: "header_tests \<Rightarrow> response_row table \<Rightarrow> response_row table" where
  "save_responses self db = fold store_response (ht_responses self) db"

definition create_all_tests ::
  "gen_env \<Rightarrow> header \<Rightarrow> header_tests \<Rightarrow> response_row table \<Rightarrow> header_tests \<times> response_row table" where
  "create_all_tests env redirect self db =
     (let self1 = header_name_tests env self;
          self2 = parsing_tests env redirect self1;
          self3 = mult_headers_tests self2
      in (self3, save_responses self3 db))"

section \<open>HeaderTestsMultHeader\<close>

text \<open>\<open>itertools.product(*xss)\<close>: the last factor varies fastest.\<close>

fun product_all :: "'a list list \<Rightarrow> 'a list list" where
  "product_all [] = [[]]"
| "product_all (xs # xss) = [x # ys. x \<leftarrow> xs, ys \<leftarrow> product_all xss]"

record mult_tests =
  mt_header_names :: "ustr list"
  mt_values :: "(ustr \<times> ustr list) list"
  mt_label :: ustr
  mt_base_resp :: "header list option"
  mt_responses :: "response_row list"

definition mult_tests_init ::
  "ustr list \<Rightarrow> (ustr \<times> ustr list) list \<Rightarrow> ustr \<Rightarrow> header list option \<Rightarrow> mult_tests res" where
  "mult_tests_init names vals lab base =
     (if length names = length vals
      then Inr \<lparr>mt_header_names = names, mt_values = vals, mt_label = lab, mt_base_resp = base, mt_responses = []\<rparr>
      else Inl AssertionError)"

definition mutated_orders :: "gen_env \<Rightarrow> ustr list \<Rightarrow> (ustr \<times> ustr) list list" where
  "mutated_orders env names =
     (let mutated = [[(org, h). h \<leftarrow> mutate_header_value env (basic_mutations env) org]. org \<leftarrow> names]
      in concat [product_all (map ((!) mutated) list_order). list_order \<leftarrow> perms [0..<length mutated]])"

text \<open>The value of a header in round \<open>i\<close>: the list of its values, cycled.\<close>

definition cycled_value :: "(ustr \<times> ustr list) list \<Rightarrow> ustr \<Rightarrow> nat \<Rightarrow> ustr res" where
  "cycled_value vals org i =
     (case map_of vals org of
        None \<Rightarrow> Inl KeyError
      | Some [] \<Rightarrow> Inl ZeroDivisionError
      | Some vs \<Rightarrow> Inr (vs ! (i mod length vs)))"

text \<open>
  \<open>len(max(self.values.values(), key=len, default=0))\<close>: without any values the default 0 has no length.
\<close>

definition rounds :: "(ustr \<times> ustr list) list \<Rightarrow> nat res" where
  "rounds vals = (if vals = [] then Inl TypeError else Inr (Max (set (map (length \<circ> snd) vals))))"

definition mult_create_all_tests ::
  "gen_env \<Rightarrow> mult_tests \<Rightarrow> response_row table \<Rightarrow> (mult_tests \<times> response_row table) res" where
  "mult_create_all_tests env self db =
     rbind (rmap (\<lambda>headers.
        rbind (rounds (mt_values self)) (\<lambda>n.
          rmap (\<lambda>i. rmap (\<lambda>(org, h). rbind (cycled_value (mt_values self) org i) (\<lambda>v. Inr (h, v))) headers) [0..<n]))
        (mutated_orders env (mt_header_names self)))
     (\<lambda>rss. let new = map (\<lambda>r. \<lparr>raw_header = with_base (mt_base_resp self) r, status_code = 200,
                              label = mt_label self, resp_type = Parsing\<rparr>) (concat rss);
                 self' = self\<lparr>mt_responses := mt_responses self @ new\<rparr>
             in Inr (self', fold store_response (mt_responses self') db))"

section \<open>What the methods append\<close>

definition test_row :: "header_tests \<Rightarrow> header list \<times> int \<Rightarrow> response_row" where
  "test_row self = (\<lambda>(h, code). \<lparr>raw_header = with_base (ht_base_resp self) h, status_code = code,
     label = ht_label self, resp_type = Parsing\<rparr>)"

lemma create_responses_eq:
  "create_responses calls self = self\<lparr>ht_responses := ht_responses self @ map (test_row self) calls\<rparr>"
proof (induction calls arbitrary: self)
  case (Cons c calls)
  obtain h code where c: "c = (h, code)" by (cases c)
  let ?self' = "create_response h (ht_label self) code Parsing self"
  have "test_row ?self' = test_row self"
    by (simp add: test_row_def create_response_def)
  with Cons [of ?self'] show ?case
    by (simp add: c create_responses_def create_response_def test_row_def)
qed (simp add: create_responses_def)

text \<open>The attributes set by the constructor.\<close>

definition ht_config :: "header_tests \<Rightarrow> header_tests" where
  "ht_config self = self\<lparr>ht_responses := []\<rparr>"

lemma ht_config_eq:
  "ht_config a = ht_config b \<longleftrightarrow> ht_label a = ht_label b \<and> ht_header_name a = ht_header_name b
     \<and> ht_alt_names a = ht_alt_names b \<and> ht_block_values a = ht_block_values b
     \<and> ht_allow_values a = ht_allow_values b \<and> ht_partial_values a = ht_partial_values b
     \<and> ht_legacy_values a = ht_legacy_values b \<and> ht_other_values a = ht_other_values b
     \<and> ht_base_resp a = ht_base_resp b"
  by (cases a; cases b) (simp add: ht_config_def)

lemma test_row_config: "ht_config a = ht_config b \<Longrightarrow> test_row a = test_row b"
  by (simp add: ht_config_eq test_row_def)

definition mult_calls :: "header_tests \<Rightarrow> (header list \<times> int) list" where
  "mult_calls self =
    (let name = ht_header_name self; valid = concat (valid_groups self); all_orders = perms valid
     in map (\<lambda>h. (h, 200)) (basic1 name all_orders @ basic2 name all_orders @ basic3 name all_orders
             @ basic4 name valid @ advanced1 name all_orders @ advanced2 name valid (ht_other_values self)))"

definition all_calls :: "gen_env \<Rightarrow> header \<Rightarrow> header_tests \<Rightarrow> (header list \<times> int) list" where
  "all_calls env redirect self = name_calls env self @ parsing_calls env redirect self @ mult_calls self"

lemma calls_config:
  assumes "ht_config a = ht_config b"
  shows "name_calls env a = name_calls env b" "parsing_calls env redirect a = parsing_calls env redirect b"
    "mult_calls a = mult_calls b"
  using assms
  by (simp_all add: ht_config_eq name_calls_def parsing_calls_def mult_calls_def valid_groups_def cong: if_cong)

lemma ht_config_create [simp]: "ht_config (create_responses calls self) = ht_config self"
  by (simp add: create_responses_eq ht_config_def)

lemma create_all_tests_eq:
  "create_all_tests env redirect self db =
     (let self' = self\<lparr>ht_responses := ht_responses self @ map (test_row self) (all_calls env redirect self)\<rparr>
      in (self', save_responses self' db))"
proof -
  define s1 where "s1 = header_name_tests env self"
  define s2 where "s2 = parsing_tests env redirect s1"
  have c1: "ht_config s1 = ht_config self" by (simp add: s1_def header_name_tests_def)
  have c2: "ht_config s2 = ht_config self" by (simp add: s2_def parsing_tests_def c1)
  have m: "mult_headers_tests s2 = create_responses (mult_calls s2) s2"
    by (simp add: mult_headers_tests_def mult_calls_def valid_groups_def Let_def)
  have "mult_headers_tests s2
      = self\<lparr>ht_responses := ht_responses self @ map (test_row self) (all_calls env redirect self)\<rparr>"
    unfolding m create_responses_eq all_calls_def calls_config [OF c2] test_row_config [OF c2]
    unfolding s2_def parsing_tests_def create_responses_eq calls_config [OF c1] test_row_config [OF c1]
    unfolding s1_def header_name_tests_def create_responses_eq
    by simp
  then show ?thesis
    by (simp add: create_all_tests_def Let_def flip: s1_def s2_def)
qed

section \<open>The contents of the table\<close>

lemma table_rows_create_all:
  "table_inv uq_response db \<Longrightarrow> ht_responses self = [] \<Longrightarrow>
   table_rows (snd (create_all_tests env redirect self db))
     = table_rows db \<union> test_row self ` set (all_calls env redirect self)"
  by (simp add: create_all_tests_eq Let_def save_responses_def resp_db.contents_add_all)

lemma table_inv_create_all:
  "table_inv uq_response db \<Longrightarrow> table_inv uq_response (snd (create_all_tests env redirect self db))"
  by (simp add: create_all_tests_eq Let_def save_responses_def resp_db.inv_add_all)

lemma set_name_calls:
  "set_order env \<Longrightarrow> set (name_calls env self) =
     {([(n, v)], 200) |n v. v \<in> set (concat (valid_groups self))
        \<and> n \<in> insert (ht_header_name self) (set (ht_alt_names self)
               \<union> (\<lambda>m. m (ht_header_name self)) ` set (general_mutations env))}"
  by (simp add: name_calls_def valid_groups_def flip: set_mutate_header_name) blast

lemma general_mutations_coin: "coin a = coin b \<Longrightarrow> general_mutations a = general_mutations b"
  by (simp add: general_mutations_def)

lemma set_all_calls_env:
  assumes "set_order a" "set_order b" "coin a = coin b"
  shows "set (all_calls a redirect self) = set (all_calls b redirect self)"
proof -
  have g: "general_mutations a = general_mutations b" using assms(3) by (rule general_mutations_coin)
  have "set (name_calls a self) = set (name_calls b self)"
    unfolding set_name_calls [OF assms(1)] set_name_calls [OF assms(2)] g ..
  moreover have "set (parsing_calls a redirect self) = set (parsing_calls b redirect self)"
    by (simp add: parsing_calls_def set_mutate_header_value assms g cong: if_cong)
  ultimately show ?thesis by (simp add: all_calls_def)
qed

text \<open>
  C39: for every order of the valid values of a header, the stored tests contain the response with one
  header per value in that order and the responses with all values in one header, separated by comma,
  semicolon or space.
\<close>

theorem every_order_of_values_is_tested:
  assumes "table_inv uq_response db" and "ht_responses self = []"
    and "mset ord = mset (concat (valid_groups self))"
    and "h = [(ht_header_name self, v). v \<leftarrow> ord]
      \<or> (\<exists>sep. sep \<in> {cp '', '', cp ''; '', cp '' ''} \<and> h = [(ht_header_name self, join_with sep ord)])"
  shows "\<lparr>raw_header = with_base (ht_base_resp self) h, status_code = 200, label = ht_label self,
      resp_type = Parsing\<rparr> \<in> table_rows (snd (create_all_tests env redirect self db))"
proof -
  have "ord \<in> set (perms (concat (valid_groups self)))" using assms(3) by (simp add: in_perms)
  then have "(h, 200) \<in> set (mult_calls self)"
    using assms(4) by (auto simp: mult_calls_def Let_def basic1_def basic2_def)
  then have "test_row self (h, 200) \<in> test_row self ` set (all_calls env redirect self)"
    by (simp add: all_calls_def)
  then show ?thesis
    using table_rows_create_all [OF assms(1,2)] by (simp add: test_row_def)
qed

definition row_ok :: "header_tests \<Rightarrow> header \<Rightarrow> response_row \<Rightarrow> bool" where
  "row_ok self redirect r \<longleftrightarrow>
     label r = ht_label self \<and> resp_type r = Parsing \<and> status_code r \<in> insert 200 (set other_codes)
     \<and> (\<exists>h. raw_header r = with_base (ht_base_resp self) h \<and> h \<noteq> []
          \<and> (300 \<le> status_code r \<and> status_code r < 400 \<longrightarrow> redirect \<in> set h)
          \<and> (status_code r \<noteq> 200 \<longrightarrow> fst (hd h) = ht_header_name self))"

lemma perms_neq_Nil: "ord \<in> set (perms xs) \<Longrightarrow> xs \<noteq> [] \<Longrightarrow> ord \<noteq> []"
  by (auto simp: in_perms)

lemma name_calls_ok: "(h, code) \<in> set (name_calls env self) \<Longrightarrow> code = 200 \<and> h \<noteq> []"
  by (auto simp: name_calls_def)

lemma parsing_calls_ok:
  "(h, code) \<in> set (parsing_calls env redirect self) \<Longrightarrow>
     code \<in> insert 200 (set other_codes) \<and> h \<noteq> [] \<and> fst (hd h) = ht_header_name self
     \<and> (300 \<le> code \<and> code < 400 \<longrightarrow> redirect \<in> set h)"
  by (auto simp: parsing_calls_def other_codes_def split: if_splits)

lemma mult_calls_ok:
  "concat (valid_groups self) \<noteq> [] \<Longrightarrow> (h, code) \<in> set (mult_calls self) \<Longrightarrow> code = 200 \<and> h \<noteq> []"
  using perms_neq_Nil [of _ "concat (valid_groups self)"]
  by (auto simp: mult_calls_def Let_def basic1_def basic2_def basic3_def basic4_def advanced1_def advanced2_def
      enumerate_eq_zip split: if_splits)

text \<open>
  C38: every response a header's tests add carries the test's label and type, the base headers at its end
  if there are any, and one of the listed status codes; a redirect always has the \<open>location\<close> header, and
  only the plain header is sent with a status other than 200.
\<close>

theorem generated_rows_ok:
  assumes "ht_responses self = []" and "concat (valid_groups self) \<noteq> []"
  shows "list_all (row_ok self redirect) (ht_responses (fst (create_all_tests env redirect self db)))"
proof -
  have "row_ok self redirect (test_row self (h, code))" if "(h, code) \<in> set (all_calls env redirect self)" for h code
    using that name_calls_ok [of h code env self] parsing_calls_ok [of h code env redirect self]
      mult_calls_ok [OF assms(2), of h code]
    by (auto simp: all_calls_def row_ok_def test_row_def)
  then show ?thesis
    using assms(1) by (auto simp: create_all_tests_eq Let_def list_all_iff)
qed

text \<open>
  each valid value is tested under the correct header name, under every alternative name and under
  every mutation of the correct name.
\<close>

theorem valid_values_under_every_name:
  assumes "set_order env" and "table_inv uq_response db" and "ht_responses self = []"
    and "v \<in> set (concat (valid_groups self))"
    and "n = ht_header_name self \<or> n \<in> set (ht_alt_names self)
      \<or> (\<exists>m \<in> set (general_mutations env). n = m (ht_header_name self))"
  shows "\<lparr>raw_header = with_base (ht_base_resp self) [(n, v)], status_code = 200, label = ht_label self,
      resp_type = Parsing\<rparr> \<in> table_rows (snd (create_all_tests env redirect self db))"
proof -
  have "([(n, v)], 200) \<in> set (name_calls env self)"
    unfolding set_name_calls [OF assms(1)] using assms(4,5) by blast
  then have "test_row self ([(n, v)], 200) \<in> test_row self ` set (all_calls env redirect self)"
    by (simp add: all_calls_def)
  then show ?thesis
    using table_rows_create_all [OF assms(2,3)] by (simp add: test_row_def)
qed

text \<open>A concrete header and two iteration orders, for the closed instances.\<close>

definition demo_env :: gen_env where
  "demo_env = \<lparr>coin = even, iter_set = id\<rparr>"

definition demo_env' :: gen_env where
  "demo_env' = \<lparr>coin = even, iter_set = rev\<rparr>"

definition demo_tests :: header_tests where
  "demo_tests = \<lparr>ht_label = cp ''XFO'', ht_header_name = cp ''x-frame-options'', ht_alt_names = [cp ''frame-options''],
     ht_block_values = [cp ''DENY''], ht_allow_values = [], ht_partial_values = [cp ''SAMEORIGIN''],
     ht_legacy_values = [], ht_other_values = [[], cp ''INVALID''], ht_base_resp = None, ht_responses = []\<rparr>"

lemma set_order_demo [simp]: "set_order demo_env" "set_order demo_env'"
  by (simp_all add: set_order_def demo_env_def demo_env'_def)

theorem every_order_of_values_is_tested_witness:
  "\<lparr>raw_header = [(cp ''x-frame-options'', cp ''SAMEORIGIN''), (cp ''x-frame-options'', cp ''DENY'')],
     status_code = 200, label = cp ''XFO'', resp_type = Parsing\<rparr>
   \<in> table_rows (snd (create_all_tests demo_env (cp ''location'', cp ''/e'') demo_tests empty_table))"
  using every_order_of_values_is_tested [of empty_table demo_tests "[cp ''SAMEORIGIN'', cp ''DENY'']"
      "[(cp ''x-frame-options'', cp ''SAMEORIGIN''), (cp ''x-frame-options'', cp ''DENY'')]" demo_env
      "(cp ''location'', cp ''/e'')"]
  by (simp add: demo_tests_def valid_groups_def with_base_def)

theorem generated_rows_ok_witness:
  "list_all (row_ok demo_tests (cp ''location'', cp ''/e''))
     (ht_responses (fst (create_all_tests demo_env (cp ''location'', cp ''/e'') demo_tests empty_table)))"
  using generated_rows_ok [of demo_tests] by (simp add: demo_tests_def valid_groups_def)

theorem valid_values_under_every_name_witness:
  "\<lparr>raw_header = [(cp ''X-FRAME-OPTIONS'', cp ''DENY'')],
     status_code = 200, label = cp ''XFO'', resp_type = Parsing\<rparr>
   \<in> table_rows (snd (create_all_tests demo_env (cp ''location'', cp ''/e'') demo_tests empty_table))"
  using valid_values_under_every_name [of demo_env empty_table demo_tests "cp ''DENY''" "cp ''X-FRAME-OPTIONS''"
      "(cp ''location'', cp ''/e'')"]
  by (simp add: demo_tests_def valid_groups_def with_base_def)
    (simp add: general_mutations_def all_upper_def cp_def cp_upper_def)

section \<open>Pairs of headers\<close>

lemma in_product_all: "ys \<in> set (product_all xss) \<longleftrightarrow> list_all2 (\<lambda>y xs. y \<in> set xs) ys xss"
  by (induction xss arbitrary: ys) (auto simp: list_all2_Cons2)

lemma rmap_ok: "(\<And>x. x \<in> set xs \<Longrightarrow> \<exists>y. f x = Inr y) \<Longrightarrow> \<exists>ys. rmap f xs = Inr ys"
  by (induction xs) fastforce+

lemma cycled_value_ok:
  "map_of vals org = Some vs \<Longrightarrow> vs \<noteq> [] \<Longrightarrow> cycled_value vals org i = Inr (vs ! (i mod length vs))"
  by (cases vs) (simp_all add: cycled_value_def)

lemma mutated_orders_org: "set_order env \<Longrightarrow> headers \<in> set (mutated_orders env names) \<Longrightarrow> fst ` set headers \<subseteq> set names"
proof -
  let ?mut = "map (\<lambda>org. map (Pair org) (mutate_header_value env (basic_mutations env) org)) names"
  assume "headers \<in> set (mutated_orders env names)"
  then obtain lo where lo: "lo \<in> set (perms [0..<length names])"
    and h: "list_all2 (\<lambda>y xs. y \<in> set xs) headers (map ((!) ?mut) lo)"
    unfolding mutated_orders_def Let_def set_concat by (auto simp: in_product_all)
  have "mset lo = mset [0..<length names]" using lo by (simp only: in_perms)
  then have lo': "set lo = set [0..<length names]" by (rule mset_eq_setD)
  have "org \<in> set names" if mem: "(org, n) \<in> set headers" for org n
  proof -
    obtain j where j: "j < length headers" "headers ! j = (org, n)"
      using mem unfolding in_set_conv_nth by blast
    have "j < length lo" using list_all2_lengthD [OF h] j(1) by simp
    then have "lo ! j \<in> set [0..<length names]" using lo' nth_mem by blast
    then have k: "lo ! j < length names" by simp
    have "(org, n) \<in> set (?mut ! (lo ! j))"
      using list_all2_nthD [OF h j(1)] \<open>j < length lo\<close> unfolding j(2) by (simp only: nth_map)
    also have "?mut ! (lo ! j) = map (Pair (names ! (lo ! j)))
        (mutate_header_value env (basic_mutations env) (names ! (lo ! j)))"
      using k by (simp only: nth_map)
    finally have "org = names ! (lo ! j)" by auto
    then show ?thesis using k by (simp only: nth_mem)
  qed
  then show ?thesis by auto
qed

lemma mutated_orders_same:
  assumes "set_order env" "m \<in> set (basic_mutations env)"
  shows "map (\<lambda>org. (org, m org)) names \<in> set (mutated_orders env names)"
proof -
  let ?mut = "map (\<lambda>org. map (Pair org) (mutate_header_value env (basic_mutations env) org)) names"
  have "list_all2 (\<lambda>y xs. y \<in> set xs) (map (\<lambda>org. (org, m org)) names) (map ((!) ?mut) [0..<length names])"
    using assms by (auto simp: list_all2_conv_all_nth set_mutate_header_value)
  then have "map (\<lambda>org. (org, m org)) names \<in> set (product_all (map ((!) ?mut) [0..<length names]))"
    by (simp add: in_product_all)
  moreover have "[0..<length names] \<in> set (perms [0..<length names])" by (simp add: in_perms)
  ultimately show ?thesis by (auto simp: mutated_orders_def)
qed

definition pair_row :: "(ustr \<times> ustr list) list \<Rightarrow> (ustr \<times> ustr) list \<Rightarrow> nat \<Rightarrow> header list" where
  "pair_row vals headers i =
     map (\<lambda>(org, h). (h, let vs = the (map_of vals org) in vs ! (i mod length vs))) headers"

lemma rmap_pair_row:
  assumes "\<And>org. org \<in> fst ` set headers \<Longrightarrow> \<exists>vs. map_of vals org = Some vs \<and> vs \<noteq> []"
  shows "rmap (\<lambda>(org, h). rbind (cycled_value vals org i) (\<lambda>v. Inr (h, v))) headers = Inr (pair_row vals headers i)"
  unfolding pair_row_def using assms by (intro rmap_all_Inr) (force simp: cycled_value_ok)

definition mt_row :: "mult_tests \<Rightarrow> header list \<Rightarrow> response_row" where
  "mt_row self r = \<lparr>raw_header = with_base (mt_base_resp self) r, status_code = 200, label = mt_label self,
     resp_type = Parsing\<rparr>"

definition mt_rows :: "gen_env \<Rightarrow> mult_tests \<Rightarrow> response_row list" where
  "mt_rows env self =
    (let n = Max (set (map (length \<circ> snd) (mt_values self)))
     in map (mt_row self) (concat (map (\<lambda>headers. map (pair_row (mt_values self) headers) [0..<n])
          (mutated_orders env (mt_header_names self)))))"

definition mt_valued :: "mult_tests \<Rightarrow> bool" where
  "mt_valued self \<longleftrightarrow> mt_values self \<noteq> []
     \<and> (\<forall>org \<in> set (mt_header_names self). \<exists>vs. map_of (mt_values self) org = Some vs \<and> vs \<noteq> [])"

lemma mult_create_all_tests_eq:
  assumes "set_order env" and "mt_valued self"
  shows "mult_create_all_tests env self db =
    (let self' = self\<lparr>mt_responses := mt_responses self @ mt_rows env self\<rparr>
     in Inr (self', fold store_response (mt_responses self') db))"
proof -
  let ?vals = "mt_values self" and ?orders = "mutated_orders env (mt_header_names self)"
  let ?n = "Max (set (map (length \<circ> snd) ?vals))"
  let ?rows = "\<lambda>headers. map (pair_row ?vals headers) [0..<?n]"
  have r: "rounds ?vals = Inr ?n" using assms(2) by (simp add: rounds_def mt_valued_def)
  have "rmap (\<lambda>headers. rbind (rounds ?vals) (\<lambda>n. rmap (\<lambda>i.
          rmap (\<lambda>(org, h). rbind (cycled_value ?vals org i) (\<lambda>v. Inr (h, v))) headers) [0..<n])) ?orders
      = Inr (map ?rows ?orders)"
    using mutated_orders_org [OF assms(1)] assms(2) unfolding r mt_valued_def
    by (intro rmap_all_Inr ballI, simp only: rbind_simps)
      (intro rmap_all_Inr ballI rmap_pair_row, blast)
  then show ?thesis
    by (simp add: mult_create_all_tests_def Let_def mt_rows_def mt_row_def [abs_def])
qed

lemma picks_cong:
  assumes "\<And>k. k \<in> set lo \<Longrightarrow> set (C ! k) = set (D ! k)"
  shows "list_all2 (\<lambda>y xs. y \<in> set xs) ys (map ((!) C) lo) \<Longrightarrow> list_all2 (\<lambda>y xs. y \<in> set xs) ys (map ((!) D) lo)"
  using assms by (induction lo arbitrary: ys) (auto simp: list_all2_Cons2)

lemma set_mutated_orders_env:
  assumes "set_order a" "set_order b" "coin a = coin b"
  shows "set (mutated_orders a names) = set (mutated_orders b names)"
proof -
  have sub: "set (mutated_orders c names) \<subseteq> set (mutated_orders d names)"
    if cd: "set_order c" "set_order d" "coin c = coin d" for c d
  proof
    let ?mut = "\<lambda>e. map (\<lambda>org. map (Pair org) (mutate_header_value e (basic_mutations e) org)) names"
    fix headers assume "headers \<in> set (mutated_orders c names)"
    then obtain lo where lo: "lo \<in> set (perms [0..<length names])"
      and h: "list_all2 (\<lambda>y xs. y \<in> set xs) headers (map ((!) (?mut c)) lo)"
      by (auto simp: mutated_orders_def in_product_all)
    have "set lo = set [0..<length names]" using lo mset_eq_setD by (auto simp only: in_perms)
    then have "set (?mut c ! k) = set (?mut d ! k)" if "k \<in> set lo" for k
      using that cd by (simp add: set_mutate_header_value basic_mutations_def)
    then have "list_all2 (\<lambda>y xs. y \<in> set xs) headers (map ((!) (?mut d)) lo)"
      using h by (rule picks_cong)
    then show "headers \<in> set (mutated_orders d names)"
      using lo by (auto simp: mutated_orders_def in_product_all)
  qed
  show ?thesis using sub [of a b] sub [of b a] assms by simp
qed

lemma set_mt_rows_env:
  "set_order a \<Longrightarrow> set_order b \<Longrightarrow> coin a = coin b \<Longrightarrow> set (mt_rows a self) = set (mt_rows b self)"
  using set_mutated_orders_env [of a b] by (simp add: mt_rows_def Let_def)

text \<open>
  where every tested header has values, the generation for several headers succeeds, and it sends
  every value of every header under each basic mutation of the header's name.
\<close>

theorem every_value_of_a_pair_is_tested:
  assumes "set_order env" and "mt_valued self"
    and "org \<in> set (mt_header_names self)" and "map_of (mt_values self) org = Some vs" and "v \<in> set vs"
    and "m \<in> set (basic_mutations env)"
  shows "case mult_create_all_tests env self db of
      Inl e \<Rightarrow> False
    | Inr (self', db') \<Rightarrow> \<exists>r h. r \<in> set (mt_responses self') \<and> (m org, v) \<in> set h
        \<and> raw_header r = with_base (mt_base_resp self) h \<and> db' = fold store_response (mt_responses self') db"
proof -
  let ?vals = "mt_values self" and ?hs = "map (\<lambda>org. (org, m org)) (mt_header_names self)"
  let ?n = "Max (set (map (length \<circ> snd) ?vals))"
  obtain i where i: "i < length vs" "vs ! i = v" using assms(5) by (auto simp: in_set_conv_nth)
  have "length vs \<le> ?n" using map_of_SomeD [OF assms(4)] by (force intro!: Max_ge)
  then have "mt_row self (pair_row ?vals ?hs i) \<in> set (mt_rows env self)"
    using i mutated_orders_same [OF assms(1,6)] by (force simp: mt_rows_def Let_def)
  moreover have "(m org, v) \<in> set (pair_row ?vals ?hs i)"
    using assms(3,4) i by (force simp: pair_row_def)
  ultimately show ?thesis
    using mult_create_all_tests_eq [OF assms(1,2), of db] by (force simp: Let_def mt_row_def)
qed

definition demo_pair :: mult_tests where
  "demo_pair = \<lparr>mt_header_names = [cp ''a'', cp ''b''], mt_values = [(cp ''a'', [cp ''1'', cp ''2'']), (cp ''b'', [cp ''3''])],
     mt_label = cp ''AvsB'', mt_base_resp = None, mt_responses = []\<rparr>"

theorem every_value_of_a_pair_is_tested_witness:
  "case mult_create_all_tests demo_env demo_pair empty_table of
      Inl e \<Rightarrow> False
    | Inr (self', db') \<Rightarrow> \<exists>r h. r \<in> set (mt_responses self') \<and> (all_lower (cp ''a''), cp ''2'') \<in> set h
        \<and> raw_header r = with_base (mt_base_resp demo_pair) h
        \<and> db' = fold store_response (mt_responses self') empty_table"
  by (rule every_value_of_a_pair_is_tested [where vs = "[cp ''1'', cp ''2'']" and org = "cp ''a''" and m = all_lower])
    (auto simp: demo_pair_def cp_def basic_mutations_def mt_valued_def)

end
