(* ===== verification/Header_Data.thy ===== *)
theory Header_Data
  imports Header_Tests
begin

text \<open>
  The responses the study generates: the URL placeholders and the runs of
  \<open>_hp/hp/tools/response_header_generation.py\<close> over each tested header. The hosts come from
  \<open>wpt-config.json\<close>; the values read from the cached crawler.ninja files (regular expressions over data
  files) are the parameter \<open>crawler\<close>, a function of the file name and the minimal count.
\<close>

record hosts =
  base_host :: ustr
  alt_host :: ustr

type_synonym crawler = "string \<Rightarrow> nat \<Rightarrow> ustr list"

section \<open>Hosts and URL placeholders\<close>

definition redirect_empty :: "hosts \<Rightarrow> header" where
  "redirect_empty h = (cp ''location'', cp ''https://sub.'' @ base_host h @ cp ''/_hp/common/empty.html'')"

definition origin_s :: "hosts \<Rightarrow> ustr" where
  "origin_s h = cp ''https://sub.'' @ base_host h"

definition all_replacements :: "hosts \<Rightarrow> ustr list" where
  "all_replacements h =
    (let site = cp ''sub.'' @ base_host h;
         origin_s_upper = map cp_upper (cp ''HTTPS://SUB.'' @ base_host h);
         origin_s_path = origin_s h @ cp ''/abc/'';
         origin_s_query = origin_s h @ cp ''/?a=a'';
         origin = cp ''http://sub.'' @ base_host h;
         origin_sp = origin_s h @ cp '':443'';
         home = origin_s h @ cp ''/'';
         home_p = origin_sp @ cp ''/'';
         parent = cp ''https://'' @ base_host h;
         child = cp ''https://sub.sub.'' @ base_host h;
         parent_childs = cp ''*.'' @ base_host h;
         self_childs = cp ''*.sub.'' @ base_host h;
         self_childs_https = cp ''https://*.sub.'' @ base_host h;
         cross_site_origin = cp ''https://'' @ alt_host h
     in [site, origin_s h, origin_s_upper, origin_s_path, origin_s_query, origin, origin_sp, home, home_p,
         parent, child, parent_childs, self_childs, self_childs_https, cross_site_origin])"

definition url_rep :: ustr where
  "url_rep = cp ''<!URL!>''"

definition expand_urls :: "hosts \<Rightarrow> ustr list \<Rightarrow> ustr list" where
  "expand_urls h other_values =
     concat (map (\<lambda>v. if \<not> contains_sub url_rep v then [v]
                      else map (\<lambda>url_like. replace_sub url_rep url_like v) (all_replacements h)) other_values)"

section \<open>One object per tested header\<close>

definition header_tests_init ::
  "ustr \<Rightarrow> ustr \<Rightarrow> ustr list \<Rightarrow> ustr list \<Rightarrow> ustr list \<Rightarrow> ustr list \<Rightarrow> ustr list \<Rightarrow> ustr list
     \<Rightarrow> header list option \<Rightarrow> header_tests" where
  "header_tests_init lab name alts blocking allowing partially legacy others base =
     \<lparr>ht_label = lab, ht_header_name = name, ht_alt_names = alts, ht_block_values = blocking,
      ht_allow_values = allowing, ht_partial_values = partially, ht_legacy_values = legacy,
      ht_other_values = others, ht_base_resp = base, ht_responses = []\<rparr>"

text \<open>For CORS all headers are fixed except the tested one.\<close>

definition full_base_resp :: "hosts \<Rightarrow> header list" where
  "full_base_resp h =
     [(cp ''Test'', cp ''Test''), (cp ''access-control-allow-origin'', origin_s h),
      (cp ''access-control-allow-credentials'', cp ''true''), (cp ''access-control-allow-methods'', cp ''TEST''),
      (cp ''access-control-allow-headers'', cp ''Test''), (cp ''access-control-expose-headers'', cp ''Test'')]"

definition cors_base :: "hosts \<Rightarrow> ustr \<Rightarrow> header list" where
  "cors_base h name = filter (\<lambda>tup. fst tup \<noteq> name) (full_base_resp h)"

definition xfo_tests :: "hosts \<Rightarrow> crawler \<Rightarrow> header_tests" where
  "xfo_tests h crawler =
    (let
       lab = cp ''XFO'';
       name = cp ''x-frame-options'';
       alts = [cp ''frame-options'', cp ''x-frame-option'', cp ''x-frames-options'',
        cp ''content-security-policy'', cp ''x_frame_options'', cp ''xframeoptions''];
       block_values = [cp ''DENY''];
       allow_values = [cp ''ALLOWALL''];
       partial_values = [cp ''SAMEORIGIN''];
       legacy_values = [cp ''ALLOW-FROM '' @ origin_s h];
       basic_values = [[], cp ''INVALID'', cp ''null'', cp ''*'', url_rep];
       wpt_values = [[], cp ''SAMEORIGIN'', cp ''  SAMEORIGIN '', [34] @ cp ''SAMEORIGIN,DENY'' @ [34],
        cp ''  SAMEORIGIN,    DENY'', cp ''  DENY '', cp ''ALLOWALL'', [34] @ cp ''DENY'' @ [34],
        cp ''ALLOW-FROM '' @ url_rep, cp ''denY'', [34] @ cp ''SAMEORIGIN'' @ [34], cp ''sameOriGin'',
        cp ''DENY'', cp '',SAMEORIGIN,,DENY,'', cp ''INVALID'', cp ''allowAll'', cp ''sameOrigin'',
        cp ''ALLOW-FROM='' @ url_rep];
       siewert_values = [cp ''deny, deny'', cp ''allow-from '' @ url_rep @ cp ''; allow-from '' @ url_rep,
        cp ''deny, sameorigin'', cp ''deny, allow-from '' @ url_rep, cp ''RANDOMDIRECTIVE'', cp ''deny; deny'',
        cp ''deny; allow-from '' @ url_rep, cp ''allowall'', cp ''allow-from '' @ url_rep @
        cp '', allow-from '' @ url_rep, cp ''deny; sameorigin'', cp ''sameorigin, allow-from '' @ url_rep,
        cp ''allow-from '' @ url_rep, cp ''allow-from '' @ url_rep @ cp '', deny'', cp ''sameorigin'',
        cp ''sameorigin, deny'', cp ''deny'', cp ''sameorigin, sameorigin'', cp ''sameorigin; deny'',
        cp ''allow-from '' @ url_rep @ cp '', sameorigin'', cp ''sameorigin; sameorigin'', cp ''allow-from '' @
        url_rep @ cp ''; deny''];
       crawler_ninja_values = crawler ''cached_crawler-ninja_values/xfo-values.txt'' 0;
       own_values = [];
       other_values = basic_values @ wpt_values @ siewert_values @ crawler_ninja_values @ own_values;
       other_values = expand_urls h (other_values)
     in header_tests_init lab name alts block_values allow_values partial_values legacy_values other_values
          (None))"

definition csp_fa_tests :: "hosts \<Rightarrow> crawler \<Rightarrow> header_tests" where
  "csp_fa_tests h crawler =
    (let
       lab = cp ''CSP-FA'';
       name = cp ''content-security-policy'';
       alts = [cp ''x-content-security-policy'', cp ''x-webkit-csp'', cp ''x-webkit-content-security-policy''];
       block_values = [cp ''frame-ancestors '' @ [39] @ cp ''none'' @ [39]];
       allow_values = [cp ''frame-ancestors *''];
       partial_values = [cp ''frame-ancestors '' @ [39] @ cp ''self'' @ [39]];
       legacy_values = [];
       basic_values = [[], cp ''INVALID'', cp ''null'', cp ''*'', url_rep];
       wpt_values = [cp ''frame-ancestors '' @ [39] @ cp ''none'' @ [39], cp ''frame-ancestors '' @ [39] @
        cp ''self'' @ [39], cp ''frame-ancestors *'', cp ''frame-ancestors '' @ url_rep];
       siewert_values = [cp ''frame-ancestors https:;'', cp ''frame-ancestors http:;'', cp ''frame-ancestors ''
        @ url_rep @ cp '' '' @ url_rep @ cp '';'', cp ''frame-ancestors '' @ url_rep @ cp '';''];
       crawler_ninja_values = [];
       own_values = [cp ''default-src '' @ [39] @ cp ''none'' @ [39], cp ''self'', cp ''*'',
        cp ''frame-ancestors self'', cp ''frame-ancestors'', cp ''frame-ancestors none'',
        cp ''frame-src none'', cp ''frame-ancestors '' @ [39] @ cp ''null'' @ [39],
        cp ''frame-ancestors null''];
       other_values = basic_values @ wpt_values @ siewert_values @ crawler_ninja_values @ own_values;
       other_values = expand_urls h (other_values)
     in header_tests_init lab name alts block_values allow_values partial_values legacy_values other_values
          (None))"

definition cors_acao_tests :: "hosts \<Rightarrow> crawler \<Rightarrow> header_tests" where
  "cors_acao_tests h crawler =
    (let
       lab = cp ''CORS-ACAO'';
       alts = [];
       name = cp ''access-control-allow-origin'';
       block_values = [cp ''null''];
       allow_values = [cp ''*''];
       partial_values = [origin_s h];
       legacy_values = [];
       basic_values = [[], cp ''INVALID'', cp ''null'', cp ''*'', cp ''Test'', cp ''true'', cp ''?1'',
        cp ''?0'', cp ''TEST'', cp ''test'', cp ''false'', cp ''https://'', cp ''//'', url_rep];
       other_values = expand_urls h (basic_values)
     in header_tests_init lab name alts block_values allow_values partial_values legacy_values other_values
          (Some (cors_base h name)))"

definition cors_acac_tests :: "hosts \<Rightarrow> crawler \<Rightarrow> header_tests" where
  "cors_acac_tests h crawler =
    (let
       lab = cp ''CORS-ACAC'';
       alts = [];
       name = cp ''access-control-allow-credentials'';
       block_values = [];
       allow_values = [cp ''true''];
       partial_values = [];
       legacy_values = [];
       basic_values = [[], cp ''INVALID'', cp ''null'', cp ''*'', cp ''Test'', cp ''true'', cp ''?1'',
        cp ''?0'', cp ''TEST'', cp ''test'', cp ''false'', cp ''https://'', cp ''//'', url_rep];
       other_values = expand_urls h (basic_values)
     in header_tests_init lab name alts block_values allow_values partial_values legacy_values other_values
          (Some (cors_base h name)))"

definition corp_tests :: "hosts \<Rightarrow> crawler \<Rightarrow> header_tests" where
  "corp_tests h crawler =
    (let
       lab = cp ''CORP'';
       name = cp ''cross-origin-resource-policy'';
       alts = [cp ''from-origin'', cp ''x-cross-origin-resource-policy''];
       block_values = [[]];
       allow_values = [cp ''cross-origin''];
       partial_values = [cp ''same-site'', cp ''same-origin''];
       legacy_values = [];
       basic_values = [[], cp ''INVALID'', cp ''null'', cp ''*'', url_rep];
       wpt_values = [cp ''same'', cp ''same, same-origin'', cp ''SAME-ORIGIN'', cp ''Same-Origin'',
        cp ''same-origin, <>'', cp ''same-origin, same-origin'', url_rep];
       siewert_values = [];
       crawler_ninja_values = [];
       own_values = [cp ''unsafe-none''];
       other_values = basic_values @ wpt_values @ siewert_values @ crawler_ninja_values @ own_values;
       other_values = expand_urls h (other_values)
     in header_tests_init lab name alts block_values allow_values partial_values legacy_values other_values
          (None))"

definition coep_tests :: "hosts \<Rightarrow> crawler \<Rightarrow> header_tests" where
  "coep_tests h crawler =
    (let
       lab = cp ''COEP'';
       name = cp ''cross-origin-embedder-policy'';
       alts = [cp ''x-cross-origin-embedder-policy''];
       block_values = [cp ''require-corp''];
       allow_values = [cp ''unsafe-none''];
       partial_values = [cp ''credentialless''];
       legacy_values = [];
       basic_values = [[], cp ''INVALID'', cp ''null'', cp ''*'', url_rep];
       wpt_values = [cp ''jibberish'', cp ''require%FFcorp'', cp ''require-corp;'', [11] @ cp ''require-corp''
        @ [11], [12] @ cp ''require-corp'' @ [12], [13] @ cp ''require-corp'' @ [13], cp ''Require-corp'', [34]
        @ cp ''require-corp'' @ [34], cp '':cmVxdWlyZS1jb3Jw:'', cp ''require-corp;'' @ [9] @ cp ''foo=bar'',
        cp ''require-corp require-corp'', cp ''require-corp,require-corp'', cp ''require-corp'',
        cp '' require-corp '', [9] @ cp ''require-corp'' @ [9], cp '' '' @ [9] @ cp ''require-corp'',
        cp ''require-corp'' @ [9] @ cp '' '', cp ''require-corp; foo=bar'', cp ''require-corp;require-corp'',
        cp ''require-corp; report-to='' @ [34] @ cp ''data:''];
       siewert_values = [];
       crawler_ninja_values = [];
       own_values = [cp ''cross-origin'', cp ''same-origin''];
       other_values = basic_values @ wpt_values @ siewert_values @ crawler_ninja_values @ own_values;
       other_values = expand_urls h (other_values)
     in header_tests_init lab name alts block_values allow_values partial_values legacy_values other_values
          (None))"

definition coop_tests :: "hosts \<Rightarrow> crawler \<Rightarrow> header_tests" where
  "coop_tests h crawler =
    (let
       lab = cp ''COOP'';
       name = cp ''cross-origin-opener-policy'';
       alts = [cp ''x-cross-origin-opener-policy''];
       block_values = [];
       allow_values = [cp ''unsafe-none''];
       partial_values = [cp ''same-origin'', cp ''same-origin-allow-popups''];
       legacy_values = [];
       basic_values = [[], cp ''INVALID'', cp ''null'', cp ''*'', url_rep];
       wpt_values = [cp ''same-origin;'', [11] @ cp ''same-origin'' @ [11], [12] @ cp ''same-origin'' @ [12],
        [13] @ cp ''same-origin'' @ [13], cp ''Same-origin'', cp ''same-origin;'' @ [9] @ cp ''foo=bar'',
        cp ''same-origin ;foo=bar'', cp ''same-origin; foo=bar;'', [34] @ cp ''same-origin'' @ [34],
        cp '':c2FtZS1vcmlnaW4=:'', cp ''?1'', cp ''1'', cp ''$same-origin'', cp ''same-origin same-origin'',
        cp ''same-origin'' @ [92] @ cp '',same-origin'', cp ''*same-origin '', cp ''same%FForigin'',
        cp '' same-origin'', cp ''same-origin '', [9] @ cp ''same-origin'', cp ''same-origin'' @ [9],
        cp ''same-origin;same-origin'', cp ''same-origin; foo=bar''];
       siewert_values = [];
       crawler_ninja_values = [];
       own_values = [cp ''cross-origin'', cp ''same-origin'', cp ''same-origin-plus-COEP''];
       other_values = basic_values @ wpt_values @ siewert_values @ crawler_ninja_values @ own_values;
       other_values = expand_urls h (other_values)
     in header_tests_init lab name alts block_values allow_values partial_values legacy_values other_values
          (None))"

definition csp_script_tests :: "hosts \<Rightarrow> crawler \<Rightarrow> header_tests" where
  "csp_script_tests h crawler =
    (let
       lab = cp ''CSP-SCRIPT'';
       name = cp ''content-security-policy'';
       alts = [cp ''x-content-security-policy'', cp ''x-webkit-csp'', cp ''x-webkit-content-security-policy''];
       block_values = [cp ''script-src '' @ [39] @ cp ''none'' @ [39]];
       allow_values = [cp ''script-src *''];
       partial_values = [cp ''script-src '' @ [39] @ cp ''self'' @ [39]];
       legacy_values = [];
       basic_values = [[], cp ''INVALID'', cp ''null'', cp ''*'', url_rep];
       wpt_values = [];
       siewert_values = [];
       crawler_ninja_values = [];
       own_values = [cp ''default-src '' @ [39] @ cp ''none'' @ [39], cp ''self'', cp ''*'',
        cp ''script-src self'', cp ''script-src'', cp ''script-src none'', cp ''script-src none'',
        cp ''script-src '' @ [39] @ cp ''null'' @ [39], cp ''script-src null'', cp ''script-src-elem '' @
        url_rep, cp ''script-src-attr '' @ url_rep];
       other_values = basic_values @ wpt_values @ siewert_values @ crawler_ninja_values @ own_values;
       other_values = expand_urls h (other_values)
     in header_tests_init lab name alts block_values allow_values partial_values legacy_values other_values
          (None))"

definition csp_img_tests :: "hosts \<Rightarrow> crawler \<Rightarrow> header_tests" where
  "csp_img_tests h crawler =
    (let
       lab = cp ''CSP-IMG'';
       name = cp ''content-security-policy'';
       alts = [cp ''x-content-security-policy'', cp ''x-webkit-csp'', cp ''x-webkit-content-security-policy''];
       block_values = [cp ''img-src '' @ [39] @ cp ''none'' @ [39]];
       allow_values = [cp ''img-src *''];
       partial_values = [cp ''img-src '' @ [39] @ cp ''self'' @ [39]];
       legacy_values = [];
       basic_values = [[], cp ''INVALID'', cp ''null'', cp ''*'', url_rep];
       wpt_values = [cp ''img-src '' @ [39] @ cp ''none'' @ [39], cp ''img-src '' @ [39] @ cp ''self'' @ [39],
        cp ''img-src *'', cp ''img-src '' @ url_rep];
       siewert_values = [];
       crawler_ninja_values = [];
       own_values = [cp ''default-src '' @ [39] @ cp ''none'' @ [39], cp ''self'', cp ''*'',
        cp ''img-src self'', cp ''img-src'', cp ''img-src none'', cp ''frame-src none'', cp ''img-src '' @ [39]
        @ cp ''null'' @ [39], cp ''img-src null''];
       other_values = basic_values @ wpt_values @ siewert_values @ crawler_ninja_values @ own_values;
       other_values = expand_urls h (other_values)
     in header_tests_init lab name alts block_values allow_values partial_values legacy_values other_values
          (None))"

definition hsts_tests :: "hosts \<Rightarrow> crawler \<Rightarrow> header_tests" where
  "hsts_tests h crawler =
    (let
       lab = cp ''HSTS'';
       name = cp ''strict-transport-security'';
       alts = [cp ''x-strict-transport-security'', cp ''hsts''];
       block_values = [cp ''max-age=0''];
       allow_values = [];
       partial_values = [cp ''max-age=60'', cp ''max-age=20; includeSubDomains''];
       legacy_values = [];
       basic_values = [[], cp ''INVALID'', cp ''null'', cp ''*'', url_rep];
       wpt_values = [];
       siewert_values = [cp ''max-age=60; max-age=120'',
        cp ''max-age=60; someDirective, max-age=60; someDirective'', cp ''max-age=60; preload'',
        cp ''max-age=0, max-age=60'', cp ''max-age=60, max-age=60; max-age=60; includeSubdomains'',
        cp ''max-age=60; includeSubDomains'', cp ''random, includeSubdomains; max-age=60; includeSubdomains'',
        cp ''max-age=60; max-age=0'', cp ''max-age=60, max-age=120'', cp ''max-age=60, max-age=60'',
        cp ''max-age=60; max-age=60, includeSubdomains'',
        cp ''max-age=60, includeSubdomains; max-age=60; includeSubdomains'', cp ''includeSubDomains'',
        cp ''max-age=60; max-age=60'', cp ''max-age=60,; includeSubdomains'',
        cp ''max-age=60; preload; preload'', cp ''max-age=60'', cp ''max-age=0'',
        cp ''max-age=60; includeSubDomains; preload'', cp ''max-age=60, x; max-age=60; includeSubdomains'',
        cp ''max-age=60; includeSubdomains; max-age=60, includeSubdomains'',
        cp ''max-age=60; includeSubDomains, max-age=60; includeSubDomains'',
        cp ''max-age=60, includeSubdomains'', cp ''max-age=60; someDirective; someDirective'',
        cp ''max-age=60, max-age=0'', cp ''max-age=0; max-age=60'', cp ''max-age=120'',
        cp ''max-age=60; includeSubDomains; includeSubDomains'', cp ''preload'',
        cp ''max-age=60; preload, max-age=60; preload'', cp ''x, max-age=60; max-age=60; includeSubdomains'',
        cp ''max-age=60; includeSubdomains, max-age=60'', cp ''max-age=60; ,''];
       crawler_ninja_values = crawler ''cached_crawler-ninja_values/sts-values.txt'' 0;
       own_values = [cp ''includeSubDomains'', cp ''max-age=-5'',
        cp ''max-age=60; includeSubDomains; preload''];
       other_values = basic_values @ wpt_values @ siewert_values @ crawler_ninja_values @ own_values;
       other_values = expand_urls h (other_values)
     in header_tests_init lab name alts block_values allow_values partial_values legacy_values other_values
          (None))"

definition pp_tests :: "hosts \<Rightarrow> crawler \<Rightarrow> header_tests" where
  "pp_tests h crawler =
    (let
       lab = cp ''PP'';
       name = cp ''permissions-policy'';
       alts = [cp ''x-permissions-policy'', cp ''feature-policy''];
       block_values = [cp ''fullscreen=()''];
       allow_values = [cp ''fullscreen=(*)''];
       partial_values = [cp ''fullscreen=(self)''];
       legacy_values = [];
       basic_values = [[], cp ''INVALID'', cp ''null'', cp ''*'', url_rep];
       wpt_values = [];
       siewert_values = [];
       crawler_ninja_values = crawler ''cached_crawler-ninja_values/fp-values.txt'' 4 @ crawler
        ''cached_crawler-ninja_values/pp-values.txt'' 4;
       own_values = [cp ''fullscreen='', cp ''fullscreen=*'', cp ''fullscreen=()'', cp ''fullscreen=(self)'',
        cp ''fullscreen=('' @ url_rep @ cp '')'', cp ''fullscreen=(self none)'', cp ''fullscreen=(self,none)'',
        cp ''fullscreen=(src)''];
       other_values = basic_values @ wpt_values @ siewert_values @ crawler_ninja_values @ own_values;
       other_values = expand_urls h (other_values)
     in header_tests_init lab name alts block_values allow_values partial_values legacy_values other_values
          (None))"

definition rp_tests :: "hosts \<Rightarrow> crawler \<Rightarrow> header_tests" where
  "rp_tests h crawler =
    (let
       lab = cp ''RP'';
       name = cp ''referrer-policy'';
       alts = [cp ''x-referrer-policy'', cp ''referer-policy''];
       block_values = [cp ''no-referrer''];
       allow_values = [cp ''unsafe-url''];
       partial_values = [cp ''same-origin''];
       legacy_values = [];
       basic_values = [[], cp ''INVALID'', cp ''null'', cp ''*'', url_rep];
       wpt_values = [];
       siewert_values = [];
       crawler_ninja_values = crawler ''cached_crawler-ninja_values/rp-values.txt'' 0;
       own_values = [cp ''no-referrer-when-downgrade'', cp ''origin'', cp ''strict-origin'',
        cp ''origin-when-cross-origin'', cp ''strict-origin-when-cross-origin''];
       other_values = basic_values @ wpt_values @ siewert_values @ crawler_ninja_values @ own_values;
       other_values = expand_urls h (other_values)
     in header_tests_init lab name alts block_values allow_values partial_values legacy_values other_values
          (None))"

definition tao_tests :: "hosts \<Rightarrow> crawler \<Rightarrow> header_tests" where
  "tao_tests h crawler =
    (let
       lab = cp ''TAO'';
       name = cp ''timing-allow-origin'';
       alts = [cp ''x-timing-allow-origin''];
       block_values = [cp ''null''];
       allow_values = [cp ''*''];
       partial_values = [];
       legacy_values = [];
       basic_values = [[], cp ''INVALID'', cp ''null'', cp ''*'', url_rep];
       wpt_values = [];
       siewert_values = [];
       crawler_ninja_values = [];
       own_values = [cp ''self'', [39] @ cp ''self'' @ [39], url_rep @ cp '' '' @ url_rep, url_rep @ cp '','' @
        url_rep];
       other_values = basic_values @ wpt_values @ siewert_values @ crawler_ninja_values @ own_values;
       other_values = expand_urls h (other_values)
     in header_tests_init lab name alts block_values allow_values partial_values legacy_values other_values
          (None))"

definition xcto_tests :: "hosts \<Rightarrow> crawler \<Rightarrow> header_tests" where
  "xcto_tests h crawler =
    (let
       lab = cp ''XCTO'';
       name = cp ''x-content-type-options'';
       alts = [cp ''content-type-options''];
       block_values = [cp ''nosniff''];
       allow_values = [];
       partial_values = [];
       legacy_values = [];
       basic_values = [[], cp ''INVALID'', cp ''nosniff'', cp ''no-sniff''];
       wpt_values = [cp ''NOSNIFF'', cp ''nosniff,,@#$#%%&^&^*()()11!'', cp ''@#$#%%&^&^*()()11!,nosniff'',
        cp ''no'', [], cp '',nosniff'', cp ''nosniff'' @ [12], cp ''nosniff'' @ [11] @ cp '',nosniff'', [39] @
        cp ''NosniFF'' @ [39], [34] @ cp ''nosniFF'' @ [34]];
       siewert_values = [];
       crawler_ninja_values = crawler ''cached_crawler-ninja_values/xcto-values.txt'' 0;
       own_values = [cp ''SNIFF'', cp ''no'', cp ''always'', cp ''maybe''];
       other_values = basic_values @ wpt_values @ siewert_values @ crawler_ninja_values @ own_values;
       other_values = expand_urls h (other_values)
     in header_tests_init lab name alts block_values allow_values partial_values legacy_values other_values
          (None))"

text \<open>The loop over the methods, headers and exposed headers: the label is built from the initials.\<close>

definition cors_list_tests :: "hosts \<Rightarrow> ustr \<Rightarrow> header_tests" where
  "cors_list_tests h name =
    (let lab = cp ''CORS-'' @ map (\<lambda>w. cp_upper (hd w)) (split_on 45 name);
         block_values = [];
         allow_values = [cp ''*''];
         partial_values = (if contains_sub (cp ''methods'') name then [cp ''TEST''] else [cp ''Test'']);
         legacy_values = [];
         basic_values = [[], cp ''INVALID'', cp ''null'', cp ''*'', cp ''Test'', cp ''true'', cp ''?1'', cp ''?0'',
           cp ''TEST'', cp ''test'', cp ''false'', cp ''https://'', cp ''//'', url_rep];
         other_values = expand_urls h basic_values
     in header_tests_init lab name [] block_values allow_values partial_values legacy_values other_values
          (Some (cors_base h name)))"

definition cors_list_headers :: "ustr list" where
  "cors_list_headers = [cp ''access-control-allow-methods'', cp ''access-control-allow-headers'',
     cp ''access-control-expose-headers'']"

definition cspvsxfo_tests :: "hosts \<Rightarrow> crawler \<Rightarrow> mult_tests res" where
  "cspvsxfo_tests h crawler =
    (let c = csp_fa_tests h crawler;
         csp_fa_all = ht_block_values c @ ht_allow_values c @ ht_partial_values c @ ht_legacy_values c
           @ ht_other_values c
     in mult_tests_init [cp ''content-security-policy'', cp ''x-frame-options'']
          [(cp ''content-security-policy'', csp_fa_all),
           (cp ''x-frame-options'', [cp ''DENY'', [], cp ''INVALID'', cp ''SAMEORIGIN''])]
          (cp ''CSPvsXFO'') None)"

section \<open>The whole script\<close>

definition all_header_tests :: "hosts \<Rightarrow> crawler \<Rightarrow> header_tests list" where
  "all_header_tests h crawler =
     [xfo_tests h crawler, csp_fa_tests h crawler, cors_acao_tests h crawler, cors_acac_tests h crawler]
     @ map (cors_list_tests h) cors_list_headers
     @ [corp_tests h crawler, coep_tests h crawler, coop_tests h crawler, csp_script_tests h crawler,
        csp_img_tests h crawler, hsts_tests h crawler, pp_tests h crawler, rp_tests h crawler,
        tao_tests h crawler, xcto_tests h crawler]"

definition generate_all ::
  "gen_env \<Rightarrow> hosts \<Rightarrow> crawler \<Rightarrow> response_row table \<Rightarrow> response_row table res" where
  "generate_all env h crawler db =
     (let db1 = fold (\<lambda>t db. snd (create_all_tests env (redirect_empty h) t db)) (all_header_tests h crawler) db
      in rbind (cspvsxfo_tests h crawler) (\<lambda>mt. rbind (mult_create_all_tests env mt db1) (\<lambda>(_, db2). Inr db2)))"

section \<open>Properties of the experiment\<close>

definition plain_hosts :: "hosts \<Rightarrow> bool" where
  "plain_hosts h \<longleftrightarrow> 60 \<notin> set (base_host h @ alt_host h) \<and> 62 \<notin> set (base_host h @ alt_host h)"

lemma all_replacements_chars:
  assumes "plain_hosts h" "url_like \<in> set (all_replacements h)"
  shows "60 \<notin> set url_like" "62 \<notin> set url_like" "46 \<in> set url_like \<or> 47 \<in> set url_like"
  using assms
  by (auto simp: all_replacements_def Let_def origin_s_def plain_hosts_def cp_def cp_upper_def split: if_splits)

text \<open>
  expanding the URL placeholder leaves no placeholder in any value, keeps the values that have none,
  and yields one value per URL-like string for the others.
\<close>

theorem expand_urls_removes_placeholders:
  assumes "plain_hosts h"
  shows "list_all (\<lambda>v. \<not> contains_sub url_rep v) (expand_urls h vs)
    \<and> length (expand_urls h vs) = length vs + 14 * length (filter (contains_sub url_rep) vs)"
proof -
  have u: "url_rep \<noteq> []" "hd url_rep = 60" "last url_rep = 62" "46 \<notin> set url_rep" "47 \<notin> set url_rep"
    by (simp_all add: url_rep_def cp_def)
  have "\<not> contains_sub url_rep (replace_sub url_rep url_like v)" if "url_like \<in> set (all_replacements h)" for url_like v
    using all_replacements_chars [OF assms that] u replace_sub_removes [of url_rep url_like 46 v]
      replace_sub_removes [of url_rep url_like 47 v] by auto
  then have "list_all (\<lambda>v. \<not> contains_sub url_rep v) (expand_urls h vs)"
    by (auto simp: expand_urls_def list_all_iff)
  moreover have "length (all_replacements h) = 15" by (simp add: all_replacements_def Let_def)
  then have "length (expand_urls h vs) = length vs + 14 * length (filter (contains_sub url_rep) vs)"
    by (induction vs) (simp_all add: expand_urls_def)
  ultimately show ?thesis ..
qed

theorem expand_urls_removes_placeholders_witness:
  "list_all (\<lambda>v. \<not> contains_sub url_rep v)
     (expand_urls \<lparr>base_host = cp ''a.test'', alt_host = cp ''b.test''\<rparr> [url_rep @ url_rep])"
  using expand_urls_removes_placeholders [of "\<lparr>base_host = cp ''a.test'', alt_host = cp ''b.test''\<rparr>"]
  by (simp add: plain_hosts_def cp_def)

definition test_ok :: "header_tests \<Rightarrow> bool" where
  "test_ok t \<longleftrightarrow> take 2 (ht_other_values t) = [[], cp ''INVALID'']
     \<and> map cp_lower (ht_header_name t) = ht_header_name t
     \<and> concat (valid_groups t) \<noteq> [] \<and> ht_responses t = []
     \<and> ht_header_name t \<notin> fst ` set (case ht_base_resp t of None \<Rightarrow> [] | Some b \<Rightarrow> b)"

lemma expand_urls_head: "take 2 (expand_urls h ([] # cp ''INVALID'' # vs)) = [[], cp ''INVALID'']"
  by (simp add: expand_urls_def url_rep_def cp_def starts_with_def)

lemma test_ok_init:
  "vs = [] # cp ''INVALID'' # ws \<Longrightarrow> map cp_lower name = name \<Longrightarrow> blocking @ allowing @ partially \<noteq> [] \<Longrightarrow>
   test_ok (header_tests_init lab name alts blocking allowing partially legacy (expand_urls h vs) None)"
  using expand_urls_head by (simp add: test_ok_def header_tests_init_def valid_groups_def)

lemma test_ok_cors:
  "vs = [] # cp ''INVALID'' # ws \<Longrightarrow> map cp_lower name = name \<Longrightarrow> blocking @ allowing @ partially \<noteq> [] \<Longrightarrow>
   test_ok (header_tests_init lab name alts blocking allowing partially legacy (expand_urls h vs)
     (Some (cors_base h name)))"
  using expand_urls_head by (auto simp: test_ok_def header_tests_init_def valid_groups_def cors_base_def)

lemma cp_lower_id: "list_all (\<lambda>c. \<not> (65 \<le> c \<and> c \<le> 90)) s \<Longrightarrow> map cp_lower s = s"
  by (induction s) (auto simp: cp_lower_def)

lemmas test_ok_intros = test_ok_init [OF _ cp_lower_id] test_ok_cors [OF _ cp_lower_id]

lemma xfo_ok: "test_ok (xfo_tests h crawler)"
  unfolding xfo_tests_def Let_def append_Cons by (rule test_ok_intros, rule refl) (simp_all add: cp_def)

lemma csp_fa_ok: "test_ok (csp_fa_tests h crawler)"
  unfolding csp_fa_tests_def Let_def append_Cons by (rule test_ok_intros, rule refl) (simp_all add: cp_def)

lemma cors_acao_ok: "test_ok (cors_acao_tests h crawler)"
  unfolding cors_acao_tests_def Let_def append_Cons by (rule test_ok_intros, rule refl) (simp_all add: cp_def)

lemma cors_acac_ok: "test_ok (cors_acac_tests h crawler)"
  unfolding cors_acac_tests_def Let_def append_Cons by (rule test_ok_intros, rule refl) (simp_all add: cp_def)

lemma corp_ok: "test_ok (corp_tests h crawler)"
  unfolding corp_tests_def Let_def append_Cons by (rule test_ok_intros, rule refl) (simp_all add: cp_def)

lemma coep_ok: "test_ok (coep_tests h crawler)"
  unfolding coep_tests_def Let_def append_Cons by (rule test_ok_intros, rule refl) (simp_all add: cp_def)

lemma coop_ok: "test_ok (coop_tests h crawler)"
  unfolding coop_tests_def Let_def append_Cons by (rule test_ok_intros, rule refl) (simp_all add: cp_def)

lemma csp_script_ok: "test_ok (csp_script_tests h crawler)"
  unfolding csp_script_tests_def Let_def append_Cons by (rule test_ok_intros, rule refl) (simp_all add: cp_def)

lemma csp_img_ok: "test_ok (csp_img_tests h crawler)"
  unfolding csp_img_tests_def Let_def append_Cons by (rule test_ok_intros, rule refl) (simp_all add: cp_def)

lemma hsts_ok: "test_ok (hsts_tests h crawler)"
  unfolding hsts_tests_def Let_def append_Cons by (rule test_ok_intros, rule refl) (simp_all add: cp_def)

lemma pp_ok: "test_ok (pp_tests h crawler)"
  unfolding pp_tests_def Let_def append_Cons by (rule test_ok_intros, rule refl) (simp_all add: cp_def)

lemma rp_ok: "test_ok (rp_tests h crawler)"
  unfolding rp_tests_def Let_def append_Cons by (rule test_ok_intros, rule refl) (simp_all add: cp_def)

lemma tao_ok: "test_ok (tao_tests h crawler)"
  unfolding tao_tests_def Let_def append_Cons by (rule test_ok_intros, rule refl) (simp_all add: cp_def)

lemma xcto_ok: "test_ok (xcto_tests h crawler)"
  unfolding xcto_tests_def Let_def append_Cons by (rule test_ok_intros, rule refl) (simp_all add: cp_def)

lemma cors_list_ok: "test_ok (cors_list_tests h name)" if "name \<in> set cors_list_headers"
  using that unfolding cors_list_tests_def Let_def
  by (intro test_ok_cors [OF refl]) (auto simp: cors_list_headers_def cp_def cp_lower_def)

lemma all_tests_ok: "list_all test_ok (all_header_tests h crawler)"
  using cors_list_ok
  by (simp add: all_header_tests_def cors_list_headers_def xfo_ok csp_fa_ok cors_acao_ok cors_acac_ok corp_ok
      coep_ok coop_ok csp_script_ok csp_img_ok hsts_ok pp_ok rp_ok tao_ok xcto_ok)

lemma all_labels:
  "map ht_label (all_header_tests h crawler) =
       map cp [''XFO'', ''CSP-FA'', ''CORS-ACAO'', ''CORS-ACAC'', ''CORS-ACAM'', ''CORS-ACAH'', ''CORS-ACEH'', ''CORP'',
         ''COEP'', ''COOP'', ''CSP-SCRIPT'', ''CSP-IMG'', ''HSTS'', ''PP'', ''RP'', ''TAO'', ''XCTO'']"
  by (simp add: all_header_tests_def cors_list_headers_def header_tests_init_def Let_def
        cors_list_tests_def xfo_tests_def csp_fa_tests_def cors_acao_tests_def cors_acac_tests_def
      corp_tests_def coep_tests_def coop_tests_def csp_script_tests_def csp_img_tests_def hsts_tests_def
      pp_tests_def rp_tests_def tao_tests_def xcto_tests_def)
      (simp add: cp_def cp_upper_def)

text \<open>
  the study has seventeen header tests with different labels besides CSPvsXFO; each starts its other
  values with the empty and an invalid one, uses the lower-case header name, has at least one valid
  value, starts without responses, and never repeats the tested header in its base response.
\<close>

theorem experiment_well_formed:
  "list_all test_ok (all_header_tests h crawler)
   \<and> map ht_label (all_header_tests h crawler) =
       map cp [''XFO'', ''CSP-FA'', ''CORS-ACAO'', ''CORS-ACAC'', ''CORS-ACAM'', ''CORS-ACAH'', ''CORS-ACEH'', ''CORP'',
         ''COEP'', ''COOP'', ''CSP-SCRIPT'', ''CSP-IMG'', ''HSTS'', ''PP'', ''RP'', ''TAO'', ''XCTO'']
   \<and> distinct (map ht_label (all_header_tests h crawler))"
  using all_tests_ok all_labels by (simp add: cp_def)

section \<open>Running the script again\<close>

definition gen_tests :: "gen_env \<Rightarrow> hosts \<Rightarrow> header_tests list \<Rightarrow> response_row table \<Rightarrow> response_row table" where
  "gen_tests env h ts db = fold (\<lambda>t db. snd (create_all_tests env (redirect_empty h) t db)) ts db"

definition tests_rows :: "gen_env \<Rightarrow> hosts \<Rightarrow> header_tests list \<Rightarrow> response_row set" where
  "tests_rows env h ts = (\<Union>t \<in> set ts. test_row t ` set (all_calls env (redirect_empty h) t))"

lemma gen_tests_rows:
  "table_inv uq_response db \<Longrightarrow> list_all test_ok ts \<Longrightarrow>
   table_inv uq_response (gen_tests env h ts db)
   \<and> table_rows (gen_tests env h ts db) = table_rows db \<union> tests_rows env h ts"
proof (induction ts arbitrary: db)
  case (Cons t ts)
  let ?db = "snd (create_all_tests env (redirect_empty h) t db)"
  have "table_rows ?db = table_rows db \<union> test_row t ` set (all_calls env (redirect_empty h) t)"
    using Cons.prems by (simp add: table_rows_create_all test_ok_def)
  with Cons.IH [of ?db] Cons.prems show ?case
    by (simp add: gen_tests_def tests_rows_def table_inv_create_all) blast
qed (simp add: gen_tests_def tests_rows_def)

lemma gen_tests_present:
  "table_inv uq_response db \<Longrightarrow> list_all test_ok ts \<Longrightarrow> tests_rows env h ts \<subseteq> table_rows db \<Longrightarrow>
   gen_tests env h ts db = db"
proof (induction ts)
  case (Cons t ts)
  have "snd (create_all_tests env (redirect_empty h) t db) = db"
    using Cons.prems resp_db.add_all_present
    by (simp add: create_all_tests_eq Let_def save_responses_def test_ok_def tests_rows_def)
  with Cons show ?case by (simp add: gen_tests_def tests_rows_def)
qed (simp add: gen_tests_def)

lemma tests_rows_env:
  "set_order a \<Longrightarrow> set_order b \<Longrightarrow> coin a = coin b \<Longrightarrow> tests_rows a h ts = tests_rows b h ts"
  using set_all_calls_env [of a b] by (simp add: tests_rows_def)

lemma cspvsxfo_init:
  obtains mt where "cspvsxfo_tests h crawler = Inr mt" "mt_valued mt" "mt_responses mt = []"
proof -
  have "length (cp ''content-security-policy'') \<noteq> length (cp ''x-frame-options'')" by (simp add: cp_def)
  then have "cp ''content-security-policy'' \<noteq> cp ''x-frame-options''" by metis
  moreover have "ht_block_values (csp_fa_tests h crawler) \<noteq> []"
    by (simp add: csp_fa_tests_def Let_def header_tests_init_def)
  ultimately show ?thesis
    using that by (auto simp: cspvsxfo_tests_def Let_def mult_tests_init_def mt_valued_def)
qed

lemma generate_all_eq:
  assumes "set_order env" and "cspvsxfo_tests h crawler = Inr mt" "mt_valued mt" "mt_responses mt = []"
  shows "generate_all env h crawler db
    = Inr (fold store_response (mt_rows env mt) (gen_tests env h (all_header_tests h crawler) db))"
  using assms by (simp add: generate_all_def gen_tests_def mult_create_all_tests_eq Let_def)



end
