(* ===== verification/Basic_Responses.thy ===== *)
theory Basic_Responses
  imports Header_Data
begin

text \<open>
  The debug and basic responses of \<open>_hp/hp/tools/create_responses.py\<close>. The script is a straight line of
  assignments and calls of \<open>create_responses\<close>; each region is the list of rows its calls pass to
  \<open>get_or_create\<close>, with the assignments as \<open>let\<close>s, so that a variable left over from an earlier region
  keeps the value it has there.
\<close>

definition h_site :: "hosts \<Rightarrow> ustr" where "h_site h = cp ''sub.'' @ base_host h"
definition h_origin :: "hosts \<Rightarrow> ustr" where "h_origin h = cp ''http://sub.'' @ base_host h"
definition h_origin_sp :: "hosts \<Rightarrow> ustr" where "h_origin_sp h = origin_s h @ cp '':443''"
definition h_home :: "hosts \<Rightarrow> ustr" where "h_home h = origin_s h @ cp ''/''"
definition h_home_p :: "hosts \<Rightarrow> ustr" where "h_home_p h = h_origin_sp h @ cp ''/''"
definition h_parent :: "hosts \<Rightarrow> ustr" where "h_parent h = cp ''https://'' @ base_host h"
definition h_parent_childs :: "hosts \<Rightarrow> ustr" where "h_parent_childs h = cp ''*.'' @ base_host h"
definition h_self_childs :: "hosts \<Rightarrow> ustr" where "h_self_childs h = cp ''*.sub.'' @ base_host h"

text \<open>\<open>create_responses(header_list, label, status_code, resp_type)\<close>: the rows it gets or creates.\<close>

definition responses :: "header list list \<Rightarrow> ustr \<Rightarrow> int \<Rightarrow> resp_type \<Rightarrow> response_row list" where
  "responses header_list lab code rt =
     map (\<lambda>hd. \<lparr>raw_header = hd, status_code = code, label = lab, resp_type = rt\<rparr>) header_list"

section \<open>The regions\<close>

definition basic_xfo :: "hosts \<Rightarrow> response_row list" where
  "basic_xfo h =
    (let
       lab = cp ''XFO'';
       name = cp ''x-frame-options'';
       v1 = cp ''DENY'';
       v2 = cp ''SAMEORIGIN'';
       v3 = cp ''INVALID'';
       v4 = cp ''ALLOWALL'';
       v5 = [];
       v6 = cp ''null'';
       v7 = cp ''*'';
       all_values = [v1, v2, v3, v4, v5, v6, v7];
       header_deny = [(name, v1)];
       header_allow = [(name, v2)];
       out1 = responses [header_deny, header_allow] lab 200 Debug;
       header_list = [[(name, value)]. value \<leftarrow> all_values];
       header_list = header_list @ [[], [(name, v1 @ cp '', '' @ v3 @ cp '', '' @ v4)]];
       out2 = responses header_list lab 200 Basic;
       header_list = [[(name, v2), redirect_empty h], [(name, v3), redirect_empty h]];
       out3 = responses header_list lab 302 Basic
     in out1 @ out2 @ out3)"

definition basic_csp_framing :: "hosts \<Rightarrow> response_row list" where
  "basic_csp_framing h =
    (let
       lab = cp ''CSP-FA'';
       name = cp ''Content-Security-Policy'';
       base = cp ''frame-ancestors'';
       v1 = base;
       v2 = base @ cp '' '' @ [39] @ cp ''none'' @ [39];
       v3 = base @ cp '' *'';
       v4 = base @ cp '' '' @ [39] @ cp ''self'' @ [39];
       v5 = base @ cp '' '' @ origin_s h;
       v6 = base @ cp '' '' @ h_home h;
       v7 = base @ cp '' '' @ h_parent_childs h;
       v8 = [];
       v9 = base @ cp ''=*'';
       v10 = cp ''default-src *'';
       v11 = base @ cp '' http:'';
       v12 = cp ''null'';
       v13 = cp ''*'';
       all_values = [v1, v2, v3, v4, v5, v6, v7, v8, v9, v10, v11, v12, v13];
       header_deny = [(name, v2)];
       header_allow = [(name, v3)];
       out1 = responses [header_deny, header_allow] lab 200 Debug;
       header_list = [[(name, value)]. value \<leftarrow> all_values];
       header_list = header_list @ [[], [(name, v2 @ cp '', '' @ v3 @ cp '', '' @ v4)]];
       out2 = responses header_list lab 200 Basic;
       header_list = [[(name, v2), redirect_empty h], [(name, v3), redirect_empty h]];
       out3 = responses header_list lab 302 Basic;
       lab = cp ''CSPvsXFO'';
       h1 = cp ''Content-Security-Policy'';
       h2 = cp ''X-Frame-Options'';
       deny_cf = (h1, cp ''frame-ancestors '' @ [39] @ cp ''none'' @ [39]);
       deny_x = (h2, cp ''DENY'');
       allowall_cf = (h1, cp ''*'');
       allowall_x = (h2, cp ''INVALID'');
       allowsome_cf = (h1, cp ''frame-ancestors '' @ h_parent_childs h);
       allowsome_x = (h2, cp ''SAMEORIGIN'');
       header_deny = [deny_cf, deny_x];
       header_allow = [allowall_cf, allowall_x];
       out4 = responses [header_deny, header_allow] lab 200 Debug;
       header_list = [[deny_cf, allowall_x], [deny_cf, allowsome_x], [allowall_cf, allowsome_x], [deny_x,
        allowall_cf], [deny_x, allowsome_cf]];
       out5 = responses header_list lab 200 Basic;
       header_list = [[(name, v2), redirect_empty h], [(name, v3), redirect_empty h]];
       out6 = responses header_list lab 302 Basic
     in out1 @ out2 @ out3 @ out4 @ out5 @ out6)"

definition basic_corp :: "hosts \<Rightarrow> response_row list" where
  "basic_corp h =
    (let
       lab = cp ''CORP'';
       name = cp ''Cross-Origin-Resource-Policy'';
       v1 = cp ''unsafe-none'';
       v2 = cp ''same-origin'';
       v3 = cp ''same-site'';
       v4 = cp ''cross-origin'';
       v5 = [];
       v6 = cp ''null'';
       v7 = cp ''*'';
       all_values = [v1, v2, v3, v4, v5, v6, v7];
       header_deny = [(name, v2)];
       header_allow = [(name, v4)];
       out1 = responses [header_deny, header_allow] lab 200 Debug;
       header_list = [[(name, value)]. value \<leftarrow> all_values];
       header_list = header_list @ [[], [(name, v1 @ cp '', '' @ v3 @ cp '', '' @ v4)]];
       out2 = responses header_list lab 200 Basic;
       header_list = [[(name, v2), redirect_empty h], [(name, v3), redirect_empty h]];
       out3 = responses header_list lab 302 Basic
     in out1 @ out2 @ out3)"

definition basic_coep :: "hosts \<Rightarrow> response_row list" where
  "basic_coep h =
    (let
       lab = cp ''COEP'';
       name = cp ''Cross-Origin-Embedder-Policy'';
       v1 = cp ''unsafe-none'';
       v2 = cp ''require-corp'';
       v3 = cp ''credentialless'';
       v4 = cp ''cross-origin'';
       v5 = [];
       v6 = cp ''null'';
       v7 = cp ''*'';
       all_values = [v1, v2, v3, v4, v5, v6, v7];
       header_deny = [(name, v2)];
       header_allow = [(name, v1)];
       out1 = responses [header_deny, header_allow] lab 200 Debug;
       header_list = [[(name, value)]. value \<leftarrow> all_values];
       header_list = header_list @ [[], [(name, v1 @ cp '', '' @ v3 @ cp '', '' @ v4)]];
       out2 = responses header_list lab 200 Basic;
       header_list = [[(name, v2), redirect_empty h], [(name, v3), redirect_empty h]];
       out3 = responses header_list lab 302 Basic
     in out1 @ out2 @ out3)"

definition basic_coop :: "hosts \<Rightarrow> response_row list" where
  "basic_coop h =
    (let
       lab = cp ''COOP'';
       name = cp ''Cross-Origin-Opener-Policy'';
       v1 = cp ''unsafe-none'';
       v2 = cp ''same-origin-allow-popups'';
       v3 = cp ''same-origin'';
       v4 = cp ''same-origin-plus-COEP'';
       v5 = [];
       v6 = cp ''null'';
       v7 = cp ''*'';
       all_values = [v1, v2, v3, v4, v5, v6, v7];
       header_deny = [(name, v3)];
       header_allow = [(name, v1)];
       out1 = responses [header_deny, header_allow] lab 200 Debug;
       header_list = [[(name, value)]. value \<leftarrow> all_values];
       header_list = header_list @ [[], [(name, v1 @ cp '', '' @ v3 @ cp '', '' @ v4)]];
       out2 = responses header_list lab 200 Basic;
       header_list = [[(name, v2), redirect_empty h], [(name, v3), redirect_empty h]];
       out3 = responses header_list lab 302 Basic
     in out1 @ out2 @ out3)"

definition basic_cors :: "hosts \<Rightarrow> response_row list" where
  "basic_cors h =
    (let
       lab = cp ''CORS'';
       acao = cp ''Access-Control-Allow-Origin'';
       acac = cp ''Access-Control-Allow-Credentials'';
       acam = cp ''Access-Control-Allow-Methods'';
       acah = cp ''Access-Control-Allow-Headers'';
       aceh = cp ''Access-Control-Expose-Headers'';
       base_resp = [(cp ''Test'', cp ''Test'')];
       header_deny = [(acao, cp ''null'')];
       header_allow = [(acao, origin_s h), (acac, cp ''true''), (acam, cp ''TEST''), (acah, cp ''Test''),
        (aceh, cp ''Test''), (cp ''Test'', cp ''Test'')];
       out1 = responses [header_deny, header_allow] lab 200 Debug;
       header_list = [base_resp @ [(acao, h_origin h)], base_resp @ [(acac, cp ''true'')], base_resp @
        [(acao, cp ''*'')] @ [(acac, cp ''true'')], base_resp @ [(acao, origin_s h)] @ [(acac, cp ''true'')]
        @ [(acam, cp ''TEST'')] @ [(acah, cp ''Test'')] @ [(aceh, cp ''Test'')]];
       out2 = responses header_list lab 200 Basic;
       header_list = [[(acao, origin_s h), redirect_empty h], [(acao, cp ''*''), redirect_empty h]];
       out3 = responses header_list lab 302 Basic
     in out1 @ out2 @ out3)"

definition basic_csp_script :: "hosts \<Rightarrow> response_row list" where
  "basic_csp_script h =
    (let
       lab = cp ''CSP-SCRIPT'';
       name = cp ''Content-Security-Policy'';
       base = cp ''script-src'';
       v1 = base;
       v2 = base @ cp '' '' @ [39] @ cp ''none'' @ [39];
       v3 = base @ cp '' *'';
       v4 = base @ cp '' '' @ [39] @ cp ''self'' @ [39];
       v5 = base @ cp '' '' @ origin_s h;
       v6 = base @ cp '' '' @ h_home h;
       v7 = base @ cp '' '' @ h_parent_childs h;
       v8 = [];
       v9 = base @ cp ''=*'';
       v10 = cp ''default-src *'';
       v11 = base @ cp '' http:'';
       v12 = cp ''null'';
       v13 = cp ''*'';
       all_values = [v1, v2, v3, v4, v5, v6, v7, v8, v9, v10, v11, v12, v13];
       header_deny = [(name, v2)];
       header_allow = [(name, v3)];
       out1 = responses [header_deny, header_allow] lab 200 Debug;
       header_list = [[(name, value)]. value \<leftarrow> all_values];
       header_list = header_list @ [[], [(name, v2 @ cp '', '' @ v3 @ cp '', '' @ v4)]];
       out2 = responses header_list lab 200 Basic;
       header_list = [[(name, v2), redirect_empty h], [(name, v3), redirect_empty h]];
       out3 = responses header_list lab 302 Basic
     in out1 @ out2 @ out3)"

definition basic_csp_img :: "hosts \<Rightarrow> response_row list" where
  "basic_csp_img h =
    (let
       lab = cp ''CSP-IMG'';
       name = cp ''Content-Security-Policy'';
       base = cp ''img-src'';
       v1 = base;
       v2 = base @ cp '' '' @ [39] @ cp ''none'' @ [39];
       v3 = base @ cp '' *'';
       v4 = base @ cp '' '' @ [39] @ cp ''self'' @ [39];
       v5 = base @ cp '' '' @ origin_s h;
       v6 = base @ cp '' '' @ h_home h;
       v7 = base @ cp '' '' @ h_parent_childs h;
       v8 = [];
       v9 = base @ cp ''=*'';
       v10 = cp ''default-src *'';
       v11 = base @ cp '' http:'';
       v12 = cp ''null'';
       v13 = cp ''*'';
       all_values = [v1, v2, v3, v4, v5, v6, v7, v8, v9, v10, v11, v12, v13];
       header_deny = [(name, v2)];
       header_allow = [(name, v3)];
       out1 = responses [header_deny, header_allow] lab 200 Debug;
       header_list = [[(name, value)]. value \<leftarrow> all_values];
       header_list = header_list @ [[], [(name, v2 @ cp '', '' @ v3 @ cp '', '' @ v4)]];
       out2 = responses header_list lab 200 Basic;
       header_list = [[(name, v2), redirect_empty h], [(name, v3), redirect_empty h]];
       out3 = responses header_list lab 302 Basic
     in out1 @ out2 @ out3)"

definition basic_hsts :: "hosts \<Rightarrow> response_row list" where
  "basic_hsts h =
    (let
       lab = cp ''HSTS'';
       name = cp ''Strict-Transport-Security'';
       v1 = cp ''max-age=20'';
       v2 = cp ''max-age=20; includeSubDomains'';
       v3 = cp ''includeSubDomains'';
       v4 = [];
       v5 = cp ''max-age=20; includeSubDomains; preload'';
       v6 = cp ''max-age=0'';
       v7 = cp ''max-age=-5'';
       header_deny = [(name, v1)];
       header_allow = [(name, v2)];
       out1 = responses [header_deny, header_allow] lab 200 Debug;
       header_list = [[(name, cp ''*'')], [], [(name, cp ''null'')], [(name, v1)], [(name, v2)], [(name,
        v3)], [(name, v4)], [(name, v5)], [(name, v6)], [(name, v7)], [(name, v1 @ cp '', '' @ v2 @ cp '', ''
        @ v3 @ cp '', '' @ v4 @ cp '', '' @ v5 @ cp '', '' @ v6 @ cp '', '' @ v7)], [(name, cp ''abc, '' @
        v1)]];
       out2 = responses header_list lab 200 Basic;
       header_list = [[(name, v1), redirect_empty h], [(name, v2), redirect_empty h]];
       out3 = responses header_list lab 302 Basic
     in out1 @ out2 @ out3)"

definition basic_pp :: "hosts \<Rightarrow> response_row list" where
  "basic_pp h =
    (let
       lab = cp ''PP'';
       name = cp ''Permissions-Policy'';
       header_deny = [(name, cp ''fullscreen=()'')];
       header_allow = [(name, cp ''fullscreen=(*)'')];
       out1 = responses [header_deny, header_allow] lab 200 Debug;
       header_list = [[(name, cp ''*'')], [], [(name, cp ''null'')], [(name, cp ''fullscreen='')], [(name,
        cp ''fullscreen=*'')], [(name, cp ''fullscreen=()'')], [(name, cp ''fullscreen=(self)'')], [(name,
        cp ''fullscreen=('' @ origin_s h @ cp '')'')], [(name, cp ''fullscreen=('' @ h_parent_childs h @
        cp '')'')], [(name, cp ''fullscreen=('' @ h_self_childs h @ cp '')'')], [(name,
        cp ''fullscreen=(self none)'')], [(name, cp ''fullscreen=(self,none)'')], [(name,
        cp ''fullscreen=(src)'')], [(name, cp ''fullscreen=('' @ h_home h @ cp '')'')], [(name,
        cp ''fullscreen=('' @ h_home_p h @ cp '')'')]];
       out2 = responses header_list lab 200 Basic;
       header_list = [[(name, cp ''fullscreen=()''), redirect_empty h], [(name, cp ''fullscreen=(*)''),
        redirect_empty h]];
       out3 = responses header_list lab 302 Basic;
       name = cp ''Feature-Policy'';
       header_list = [[(name, cp ''fullscreen *'')], [(name, cp ''fullscreen '' @ [39] @ cp ''none'' @
        [39])], [(name, cp ''fullscreen '' @ [39] @ cp ''self'' @ [39])], [(name, cp ''fullscreen '' @ [39] @
        cp ''src'' @ [39])], [(name, cp ''fullscreen '' @ origin_s h)], [(name, cp ''fullscreen '' @
        h_self_childs h)], [(name, cp ''fullscreen '' @ h_parent_childs h)]];
       out4 = responses header_list lab 200 Basic
     in out1 @ out2 @ out3 @ out4)"

definition basic_rp :: "hosts \<Rightarrow> response_row list" where
  "basic_rp h =
    (let
       lab = cp ''RP'';
       name = cp ''Referrer-Policy'';
       v1 = cp ''no-referrer'';
       v2 = cp ''no-referrer-when-downgrade'';
       v3 = cp ''same-origin'';
       v4 = cp ''origin'';
       v5 = cp ''strict-origin'';
       v6 = cp ''origin-when-cross-origin'';
       v7 = cp ''strict-origin-when-cross-origin'';
       v8 = cp ''unsafe-url'';
       v9 = [];
       header_deny = [(name, v1)];
       header_allow = [(name, v8)];
       out1 = responses [header_deny, header_allow] lab 200 Debug;
       header_list = [[(name, cp ''*'')], [], [(name, cp ''null'')], [(name, v1)], [(name, v2)], [(name,
        v3)], [(name, v4)], [(name, v5)], [(name, v6)], [(name, v7)], [(name, v8)], [(name, v9)], [(name, v1
        @ cp '', '' @ v2 @ cp '', '' @ v3 @ cp '', '' @ v4 @ cp '', '' @ v5 @ cp '', '' @ v6 @ cp '', '' @ v7
        @ cp '', '' @ v8)], [(name, cp ''abc, '' @ v5)]];
       out2 = responses header_list lab 200 Basic;
       header_list = [[(name, v1), redirect_empty h], [(name, v8), redirect_empty h]];
       out3 = responses header_list lab 302 Basic
     in out1 @ out2 @ out3)"

definition basic_tao :: "hosts \<Rightarrow> response_row list" where
  "basic_tao h =
    (let
       lab = cp ''TAO'';
       name = cp ''Timing-Allow-Origin'';
       header_deny = [(name, cp ''null'')];
       header_allow = [(name, cp ''*'')];
       out1 = responses [header_deny, header_allow] lab 200 Debug;
       header_list = [[(name, cp ''*'')], [], [(name, cp ''null'')], [(name, origin_s h)], [(name, h_origin
        h)], [(name, h_parent h)], [(name, h_home h)], [(name, h_origin_sp h)], [(name, h_site h)], [(name,
        cp ''null''), (name, cp ''*'')], [(name, origin_s h), (name, cp ''*'')]];
       out2 = responses header_list lab 200 Basic;
       header_list = [[(name, cp ''*''), redirect_empty h], [(name, cp ''null''), redirect_empty h]];
       out3 = responses header_list lab 302 Basic
     in out1 @ out2 @ out3)"

definition basic_xcto :: "hosts \<Rightarrow> response_row list" where
  "basic_xcto h =
    (let
       lab = cp ''XCTO'';
       name = cp ''X-Content-Type-Options'';
       header_deny = [(name, cp ''nosniff'')];
       header_allow = [(name, cp ''*'')];
       out1 = responses [header_deny, header_allow] lab 200 Debug;
       header_list = [[(name, cp ''nosniff'')], [], [(name, cp ''null'')], [(name, origin_s h)], [(name,
        h_origin h)], [(name, h_parent h)], [(name, h_home h)], [(name, h_origin_sp h)], [(name, h_site h)],
        [(name, cp ''*''), (name, cp ''nosniff'')], [(name, origin_s h), (name, cp ''null'')]];
       out2 = responses header_list lab 200 Basic;
       header_list = [[(name, cp ''*''), redirect_empty h], [(name, cp ''no-sniff''), redirect_empty h]];
       out3 = responses header_list lab 302 Basic
     in out1 @ out2 @ out3)"

section \<open>The script\<close>

definition basic_rows :: "hosts \<Rightarrow> response_row list" where
  "basic_rows h = basic_xfo h @ basic_csp_framing h @ basic_corp h @ basic_coep h @ basic_coop h @ basic_cors h
     @ basic_csp_script h @ basic_csp_img h @ basic_hsts h @ basic_pp h @ basic_rp h @ basic_tao h @ basic_xcto h"

definition create_basic :: "hosts \<Rightarrow> response_row table \<Rightarrow> response_row table" where
  "create_basic h db = fold store_response (basic_rows h) db"

section \<open>Properties\<close>

definition basic_row_ok :: "hosts \<Rightarrow> response_row \<Rightarrow> bool" where
  "basic_row_ok h r \<longleftrightarrow> resp_type r \<noteq> Parsing \<and>
     (status_code r = 200 \<or> status_code r = 302 \<and> resp_type r = Basic \<and> ends_with [redirect_empty h] (raw_header r))"

lemma basic_row_ok_responses:
  "list_all (basic_row_ok h) (responses hl lab 200 Debug)"
  "list_all (basic_row_ok h) (responses hl lab 200 Basic)"
  "list_all (basic_row_ok h) (responses [[a, redirect_empty h], [b, redirect_empty h]] lab 302 Basic)"
  by (auto simp: responses_def basic_row_ok_def list_all_iff ends_with_def)

lemmas basic_regions = basic_xfo_def basic_csp_framing_def basic_corp_def basic_coep_def basic_coop_def
  basic_cors_def basic_csp_script_def basic_csp_img_def basic_hsts_def basic_pp_def basic_rp_def basic_tao_def
  basic_xcto_def

definition debug_labels :: "response_row list \<Rightarrow> ustr list" where
  "debug_labels rs = map label (filter (\<lambda>r. resp_type r = Debug) rs)"

lemma debug_labels_simps [simp]:
  "debug_labels (xs @ ys) = debug_labels xs @ debug_labels ys"
  "debug_labels (responses [a, b] lab code Debug) = [lab, lab]"
  "debug_labels (responses hl lab code Basic) = []"
  by (simp_all add: debug_labels_def responses_def)

text \<open>
  the script stores, for each of the fourteen labels, exactly one blocking and one allowing debug
  response; all its other responses are basic ones, and those with a redirect status end with the
  \<open>location\<close> header.
\<close>

theorem basic_rows_complete:
  "list_all (basic_row_ok h) (basic_rows h)
   \<and> debug_labels (basic_rows h) = concat (map (\<lambda>l. [cp l, cp l])
       [''XFO'', ''CSP-FA'', ''CSPvsXFO'', ''CORP'', ''COEP'', ''COOP'', ''CORS'', ''CSP-SCRIPT'', ''CSP-IMG'', ''HSTS'',
        ''PP'', ''RP'', ''TAO'', ''XCTO''])"
proof
  show "list_all (basic_row_ok h) (basic_rows h)"
    unfolding basic_rows_def basic_regions Let_def list_all_append
    by (intro conjI basic_row_ok_responses)
  show "debug_labels (basic_rows h) = concat (map (\<lambda>l. [cp l, cp l])
       [''XFO'', ''CSP-FA'', ''CSPvsXFO'', ''CORP'', ''COEP'', ''COOP'', ''CORS'', ''CSP-SCRIPT'', ''CSP-IMG'', ''HSTS'',
        ''PP'', ''RP'', ''TAO'', ''XCTO''])"
    unfolding basic_rows_def basic_regions Let_def by simp
qed

definition select_rows :: "ustr \<Rightarrow> int \<Rightarrow> response_row list \<Rightarrow> header list list" where
  "select_rows lab code rs = map raw_header (filter (\<lambda>r. label r = lab \<and> status_code r = code) rs)"

lemma select_rows_append: "select_rows lab code (xs @ ys) = select_rows lab code xs @ select_rows lab code ys"
  by (simp add: select_rows_def)

lemma select_rows_responses:
  "select_rows lab code (responses hl lab' code' rt) = (if lab' = lab \<and> code' = code then hl else [])"
  by (simp add: select_rows_def responses_def comp_def)

lemma cp_inject: "cp s = cp t \<longleftrightarrow> s = t"
proof -
  have "inj (of_char :: char \<Rightarrow> nat)" by (rule injI) simp
  then show ?thesis by (simp add: cp_def inj_map_eq_map)
qed

text \<open>
  the redirect responses of CSPvsXFO, meant to compare the two headers, reuse variables of the CSP
  region: both carry a Content-Security-Policy header only, and are those of label CSP-FA.
\<close>

theorem cspvsxfo_redirects_only_csp:
  "select_rows (cp ''CSPvsXFO'') 302 (basic_rows h) = select_rows (cp ''CSP-FA'') 302 (basic_rows h)
   \<and> select_rows (cp ''CSPvsXFO'') 302 (basic_rows h) =
     [[(cp ''Content-Security-Policy'', cp ''frame-ancestors '' @ [39] @ cp ''none'' @ [39]), redirect_empty h],
      [(cp ''Content-Security-Policy'', cp ''frame-ancestors *''), redirect_empty h]]"
  unfolding basic_rows_def basic_regions Let_def select_rows_append select_rows_responses cp_inject
  by (simp add: cp_def)

end
