(* ===== verification/Crawler.thy ===== *)
theory Crawler
  imports Basic_Responses
begin

text \<open>
  The test runner's planning (\<open>_hp/hp/tools/crawler/utils.py\<close>): the test configuration, splitting the
  ids of the stored responses into ranges, and the test URLs. The request for the ids is the parameter
  \<open>fetch\<close>, a function of the label and the response type; \<open>Test_Endpoints\<close> holds the endpoint that answers it.
  Host and timeout modifier are arguments, as the functions read them from the configuration or from their
  callers; all callers give integral modifiers.
\<close>

section \<open>Configuration\<close>

definition GLOBAL_TEST_TIMEOUT :: int where "GLOBAL_TEST_TIMEOUT = 5"
definition BROWSER_START_TIMEOUT :: int where "BROWSER_START_TIMEOUT = 1"
definition FINAL_REQ_TIMEOUT :: int where "FINAL_REQ_TIMEOUT = 1"

definition TIMEOUT :: int where
  "TIMEOUT = BROWSER_START_TIMEOUT + GLOBAL_TEST_TIMEOUT + FINAL_REQ_TIMEOUT"

text \<open>Test file, label, number of response ids, popups for parsing, popups for basic.\<close>

definition test_info :: "(string \<times> string \<times> int \<times> int \<times> int) list" where
  "test_info =
    [(''fetch-cors.sub.html'', ''CORS'', 1, 0, 0),
     (''fetch-cors.sub.html'', ''CORS-ACAO'', 5, 0, 0),
     (''fetch-cors.sub.html'', ''CORS-ACAC'', 5, 0, 0),
     (''fetch-cors.sub.html'', ''CORS-ACAM'', 5, 0, 0),
     (''fetch-cors.sub.html'', ''CORS-ACAH'', 5, 0, 0),
     (''fetch-cors.sub.html'', ''CORS-ACEH'', 5, 0, 0),
     (''framing.sub.html'', ''XFO'', 5, 0, 0),
     (''framing.sub.html'', ''CSP-FA'', 5, 0, 0),
     (''framing.sub.html'', ''CSPvsXFO'', 5, 0, 0),
     (''fullscreen-api-pp.sub.html'', ''PP'', 5, 0, 0),
     (''perfAPI-tao.sub.html'', ''TAO'', 10, 0, 0),
     (''referrer-access-rp.sub.html'', ''RP'', 10, 0, 8),
     (''script-execution-csp.sub.html'', ''CSP-SCRIPT'', 10, 0, 0),
     (''subresource-loading-coep.sub.html'', ''COEP'', 5, 0, 0),
     (''subresource-loading-corp.sub.html'', ''CORP'', 10, 0, 0),
     (''subresource-loading-csp.sub.html'', ''CSP-IMG'', 5, 0, 0),
     (''window-references-coop.sub.html'', ''COOP'', 1, 1, 8),
     (''script-execution-xcto.sub.html'', ''XCTO'', 5, 0, 0),
     (''upgrade-hsts.sub.html'', ''HSTS'', 1, 0, 0)]"

definition timeout_modifiers :: "string \<Rightarrow> int" where
  "timeout_modifiers lab =
     (if lab \<in> {''RP'', ''XFO'', ''CSP-FA'', ''CSPvsXFO'', ''CORP'', ''HSTS''} then 2 else 1)"

fun resp_type_str :: "resp_type \<Rightarrow> string" where
  "resp_type_str Debug = ''debug''"
| "resp_type_str Basic = ''basic''"
| "resp_type_str Parsing = ''parsing''"

section \<open>Splitting the response ids\<close>

text \<open>
  The loop of \<open>get_resp_ids\<close> for ranges of more than one id. The variables \<open>start\<close>, \<open>cur\<close> and \<open>count\<close>
  are \<open>None\<close> together.
\<close>

fun split_loop :: "int \<Rightarrow> (int \<times> int \<times> int) option \<Rightarrow> int list \<Rightarrow> (int \<times> int) list" where
  "split_loop n None [] = []"
| "split_loop n (Some (start, cur, cnt)) [] = [(start, cur)]"
| "split_loop n None (nxt # ids) = split_loop n (Some (nxt, nxt, 1)) ids"
| "split_loop n (Some (start, cur, cnt)) (nxt # ids) =
     (if nxt - cur \<noteq> 1 then (start, cur) # split_loop n (Some (nxt, nxt, 1)) ids
      else if cnt + 1 = n then (start, nxt) # split_loop n None ids
      else split_loop n (Some (start, nxt, cnt + 1)) ids)"

type_synonym fetch = "string \<Rightarrow> resp_type \<Rightarrow> int list"

definition get_resp_ids :: "fetch \<Rightarrow> string \<Rightarrow> resp_type \<Rightarrow> int \<Rightarrow> (int \<times> int) list res" where
  "get_resp_ids fetch lab rt num =
     (if num < 1 then Inl AssertionError
      else let resp_ids = fetch lab rt
           in if num = 1 then Inr (map (\<lambda>i. (i, i)) resp_ids)
              else Inr (split_loop num None resp_ids))"

section \<open>Test URLs\<close>

text \<open>A popup part of a test URL: first and last popup and whether the tests without popup run.\<close>

record test_url =
  tu_scheme :: string
  tu_file :: string
  tu_timeout :: int
  tu_resp_type :: resp_type
  tu_browser_id :: int
  tu_label :: string
  tu_first_id :: int
  tu_last_id :: int
  tu_popups :: "(int \<times> int \<times> bool) option"

definition render_url :: "string \<Rightarrow> test_url \<Rightarrow> string" where
  "render_url host t =
     tu_scheme t @ ''://sub.'' @ host @ ''/_hp/tests/'' @ tu_file t @ ''?timeout='' @ int_str (tu_timeout t)
     @ ''&resp_type='' @ resp_type_str (tu_resp_type t) @ ''&browser_id='' @ int_str (tu_browser_id t)
     @ ''&label='' @ tu_label t @ ''&first_id='' @ int_str (tu_first_id t) @ ''&last_id='' @ int_str (tu_last_id t)
     @ ''&scheme='' @ tu_scheme t
     @ (case tu_popups t of None \<Rightarrow> ''''
        | Some (a, b, run) \<Rightarrow> ''&first_popup='' @ int_str a @ ''&last_popup='' @ int_str b @ ''&run_no_popup=''
            @ (if run then ''yes'' else ''no''))"

text \<open>\<open>range(a, b, s)\<close>; Python raises \<open>ValueError\<close> for a step of 0.\<close>

definition py_range :: "int \<Rightarrow> int \<Rightarrow> int \<Rightarrow> int list res" where
  "py_range a b s =
     (if s = 0 then Inl ValueError
      else if 0 < s then Inr (map (\<lambda>k. a + int k * s) [0..<nat ((b - a + s - 1) div s)])
      else Inr (map (\<lambda>k. a + int k * s) [0..<nat ((a - b - s - 1) div (- s))]))"

definition popup_buckets :: "int \<Rightarrow> int \<Rightarrow> int list list res" where
  "popup_buckets all_popups max_popups =
     rbind (py_range 1 (all_popups + 1) max_popups)
       (\<lambda>starts. rmap (\<lambda>start. py_range start (min (start + max_popups) (all_popups + 1)) 1) starts)"

text \<open>The popup parts of the URLs for one range of ids.\<close>

definition popup_parts :: "int \<Rightarrow> int \<Rightarrow> (int \<times> int \<times> bool) option list res" where
  "popup_parts all_popups max_popups =
     (if all_popups > max_popups
      then rbind (popup_buckets all_popups max_popups)
             (\<lambda>buckets. rmap (\<lambda>(i, bucket). if bucket = [] then Inl IndexError
                                else Inr (Some (hd bucket, last bucket, i = 0))) (enumerate 0 buckets))
      else Inr [None])"

definition tests_of_entry ::
  "fetch \<Rightarrow> resp_type \<Rightarrow> int \<Rightarrow> string \<Rightarrow> int \<Rightarrow> int \<Rightarrow> int \<Rightarrow> string \<times> string \<times> int \<times> int \<times> int
     \<Rightarrow> test_url list res" where
  "tests_of_entry fetch rt browser_id scheme max_popups max_resps modifier =
    (\<lambda>(url, lab, num_resp_ids, popup_parsing, popup_basic).
     let num_popups = (if rt = Parsing then popup_parsing else popup_basic)
     in if max_popups = 0 \<and> popup_parsing + popup_basic > 0 then Inr []
        else if contains_sub ''upgrade'' url \<and> scheme = ''https'' then Inr []
        else if starts_with ''CORS'' lab \<and> lab \<noteq> ''CORS'' \<and> rt \<noteq> Parsing then Inr []
        else if starts_with ''CORS'' lab \<and> lab = ''CORS'' \<and> rt = Parsing then Inr []
        else let max_resp_ids = (if rt = Parsing then min num_resp_ids max_resps else 1);
                 test_timeout = timeout_modifiers lab * GLOBAL_TEST_TIMEOUT * modifier
             in rbind (get_resp_ids fetch lab rt max_resp_ids)
                  (\<lambda>ranges. rbind (rmap (\<lambda>(first_id, last_id).
                      rbind (popup_parts (num_popups * (last_id - first_id + 1)) max_popups)
                        (\<lambda>parts. Inr (map (\<lambda>p. \<lparr>tu_scheme = scheme, tu_file = url, tu_timeout = test_timeout,
                            tu_resp_type = rt, tu_browser_id = browser_id, tu_label = lab, tu_first_id = first_id,
                            tu_last_id = last_id, tu_popups = p\<rparr>) parts))) ranges)
                    (\<lambda>urls. Inr (concat urls))))"

definition get_tests ::
  "fetch \<Rightarrow> resp_type \<Rightarrow> int \<Rightarrow> string \<Rightarrow> int \<Rightarrow> int \<Rightarrow> int \<Rightarrow> test_url list res" where
  "get_tests fetch rt browser_id scheme max_popups max_resps modifier =
     rbind (rmap (tests_of_entry fetch rt browser_id scheme max_popups max_resps modifier) test_info)
       (\<lambda>urls. Inr (concat urls))"

section \<open>The ranges cover the ids\<close>

definition ids_of :: "(int \<times> int) list \<Rightarrow> int list" where
  "ids_of ranges = concat (map (\<lambda>(a, b). [a..b]) ranges)"

lemma ids_of_simps [simp]: "ids_of [] = []" "ids_of ((a, b) # rs) = [a..b] @ ids_of rs"
  by (simp_all add: ids_of_def)

fun pending_ok :: "int \<Rightarrow> (int \<times> int \<times> int) option \<Rightarrow> bool" where
  "pending_ok n None = True"
| "pending_ok n (Some (start, cur, cnt)) \<longleftrightarrow> start \<le> cur \<and> cnt = cur - start + 1 \<and> cnt < n"

fun pending_ids :: "(int \<times> int \<times> int) option \<Rightarrow> int list" where
  "pending_ids None = []"
| "pending_ids (Some (start, cur, cnt)) = [start..cur]"

lemma split_loop_ids:
  "1 < n \<Longrightarrow> pending_ok n st \<Longrightarrow> ids_of (split_loop n st ids) = pending_ids st @ ids"
proof (induction n st ids rule: split_loop.induct)
  case (4 n start cur cnt nxt ids)
  show ?case
  proof (cases "nxt - cur = 1")
    case True
    then have nxt: "nxt = cur + 1" by simp
    have "[start..cur + 1] = [start..cur] @ [cur + 1]"
      using 4(5) upto_rec2 [of start "cur + 1"] by simp
    with 4 show ?thesis unfolding nxt by (cases "cnt + 1 = n") auto
  next
    case False
    with 4 show ?thesis by simp
  qed
qed auto

lemma split_loop_sizes:
  "1 < n \<Longrightarrow> pending_ok n st \<Longrightarrow> (a, b) \<in> set (split_loop n st ids) \<Longrightarrow> a \<le> b \<and> b - a + 1 \<le> n"
proof (induction n st ids rule: split_loop.induct)
  case (4 n start cur cnt nxt ids)
  show ?case
  proof (cases "nxt - cur = 1")
    case True
    then have "nxt = cur + 1" by simp
    with 4 show ?thesis by (cases "cnt + 1 = n") auto
  qed (use 4 in auto)
qed auto

lemma resp_ranges:
  assumes "get_resp_ids fetch lab rt num = Inr ranges"
  shows "ids_of ranges = fetch lab rt \<and> list_all (\<lambda>(a, b). a \<le> b \<and> b - a + 1 \<le> num) ranges"
proof (cases "num = 1")
  case True
  then have "ranges = map (\<lambda>i. (i, i)) (fetch lab rt)" using assms by (simp add: get_resp_ids_def)
  then show ?thesis using True by (induction "fetch lab rt" arbitrary: ranges) (auto simp: ids_of_def comp_def list_all_iff)
next
  case False
  then have "1 < num" "ranges = split_loop num None (fetch lab rt)"
    using assms by (auto simp: get_resp_ids_def split: if_splits)
  then show ?thesis
    using split_loop_ids [of num None] split_loop_sizes [of num None] by (auto simp: list_all_iff)
qed

text \<open>
  the ranges of \<open>get_resp_ids\<close> cover exactly the ids the server returned, in their order and each
  once, also across gaps; every range is non-empty and has at most the requested number of ids.
\<close>

theorem resp_id_ranges_cover:
  assumes "get_resp_ids fetch lab rt num = Inr ranges"
  shows "ids_of ranges = fetch lab rt \<and> list_all (\<lambda>(a, b). a \<le> b \<and> b - a + 1 \<le> num) ranges"
  using resp_ranges [OF assms] .

theorem resp_id_ranges_cover_witness:
  "ids_of [(1, 3), (4, 4), (7, 8)] = [1, 2, 3, 4, 7, 8]"
  using resp_id_ranges_cover [of "\<lambda>l r. [1, 2, 3, 4, 7, 8]" "''XFO''" Basic 3 "[(1, 3), (4, 4), (7, 8)]"]
  by (simp add: get_resp_ids_def)

section \<open>The popups of a test\<close>

lemma py_range_1: "py_range a b 1 = Inr [a..b - 1]"
proof -
  have "map (\<lambda>k. a + int k) [0..<nat (b - a)] = [a..b - 1]"
    by (rule nth_equalityI) (auto simp: nth_upto)
  then show ?thesis by (simp add: py_range_def)
qed

text \<open>The k-th bucket and the number of buckets.\<close>

definition bucket :: "int \<Rightarrow> int \<Rightarrow> nat \<Rightarrow> int list" where
  "bucket al m k = [1 + int k * m..min (int k * m + m) al]"

definition bucket_count :: "int \<Rightarrow> int \<Rightarrow> nat" where
  "bucket_count al m = nat ((al + m - 1) div m)"

lemma bucket_count:
  assumes "0 < m" "m < al"
  shows "k < bucket_count al m \<Longrightarrow> int k * m < al" "al \<le> int (bucket_count al m) * m" "0 < bucket_count al m"
proof -
  let ?q = "(al + m - 1) div m"
  have m: "?q * m + (al + m - 1) mod m = al + m - 1" "0 \<le> (al + m - 1) mod m" "(al + m - 1) mod m < m"
    using assms(1) by (simp_all only: div_mult_mod_eq pos_mod_sign pos_mod_bound)
  have q: "?q * m \<le> al + m - 1" "al \<le> ?q * m" using m by linarith+
  have "0 < ?q" using assms by (simp add: pos_imp_zdiv_pos_iff)
  then show "al \<le> int (bucket_count al m) * m" "0 < bucket_count al m"
    using q(2) by (simp_all only: bucket_count_def zero_less_nat_eq int_nat_eq if_True less_imp_le)
  show "int k * m < al" if "k < bucket_count al m"
  proof -
    have "int k + 1 \<le> ?q" using that by (simp add: bucket_count_def)
    then have "(int k + 1) * m \<le> ?q * m" using assms(1) by simp
    then show ?thesis using q(1) by (simp add: algebra_simps)
  qed
qed

lemma concat_buckets:
  assumes "0 < m" "m < al"
  shows "j \<le> bucket_count al m \<Longrightarrow> concat (map (bucket al m) [0..<j]) = [1..min (int j * m) al]"
proof (induction j)
  case (Suc j)
  then have lt: "int j * m < al" using bucket_count(1) [OF assms] by simp
  have "[1..int j * m] @ [int j * m + 1..min (int j * m + m) al] = [1..min (int j * m + m) al]"
  proof (cases "j = 0")
    case False
    then have "1 \<le> int j * m" using assms(1) by (simp add: int_one_le_iff_zero_less)
    then show ?thesis using assms(1) lt by (intro upto_split2 [symmetric]) auto
  qed simp
  moreover have "concat (map (bucket al m) [0..<j]) = [1..int j * m]"
    using Suc lt by simp
  moreover have "int (Suc j) * m = int j * m + m" by (simp add: distrib_right)
  ultimately show ?case by (simp add: bucket_def [of al m j] add.commute)
qed simp

lemma popup_buckets_eq:
  assumes "0 < m" "m < al"
  shows "popup_buckets al m = Inr (map (bucket al m) [0..<bucket_count al m])"
proof -
  have "py_range 1 (al + 1) m = Inr (map (\<lambda>k. 1 + int k * m) [0..<bucket_count al m])"
    using assms by (simp add: py_range_def bucket_count_def algebra_simps)
  moreover have "py_range (1 + int k * m) (min (1 + int k * m + m) (al + 1)) 1 = Inr (bucket al m k)" for k
  proof -
    have "min (1 + int k * m + m) (al + 1) - 1 = min (int k * m + m) al" by linarith
    then show ?thesis by (simp add: py_range_1 bucket_def)
  qed
  then have "rmap (\<lambda>start. py_range start (min (start + m) (al + 1)) 1) (map (\<lambda>k. 1 + int k * m) ks)
      = Inr (map (bucket al m) ks)" for ks
    by (induction ks) simp_all
  ultimately show ?thesis by (simp add: popup_buckets_def)
qed

lemma upto_ends: "a \<le> b \<Longrightarrow> [a..b] \<noteq> []" "a \<le> b \<Longrightarrow> hd [a..b] = a" "a \<le> b \<Longrightarrow> last [a..b] = b" for a b :: int
  using upto_rec1 [of a b] upto_rec2 [of a b] by (simp, simp, metis last_snoc)

definition popups_of :: "(int \<times> int \<times> bool) option list \<Rightarrow> int list" where
  "popups_of parts = concat (map (\<lambda>p. case p of None \<Rightarrow> [] | Some (a, b, _) \<Rightarrow> [a..b]) parts)"

lemma popup_urls_cover_aux:
  assumes "0 < m" and "m < al"
  shows "\<exists>ps. popup_parts al m = Inr (map Some ps) \<and> popups_of (map Some ps) = [1..al]
    \<and> list_all (\<lambda>(a, b, _). a \<le> b \<and> b - a + 1 \<le> m) ps
    \<and> map (\<lambda>(_, _, run). run) ps = True # replicate (length ps - 1) False"
proof -
  let ?n = "bucket_count al m"
  let ?part = "\<lambda>k. (1 + int k * m, min (int k * m + m) al, k = 0)"
  have b: "1 + int k * m \<le> min (int k * m + m) al" if "k < ?n" for k
    using bucket_count(1) [OF assms that] assms(1) by simp
  then have bk: "bucket al m k \<noteq> []" "hd (bucket al m k) = 1 + int k * m" "last (bucket al m k) = min (int k * m + m) al"
    if "k < ?n" for k
    using upto_ends [OF b [OF that]] by (simp_all only: bucket_def not_False_eq_True)
  have "rmap (\<lambda>(i, bucket). if bucket = [] then Inl IndexError
          else Inr (Some (hd bucket, last bucket, i = 0))) (map (\<lambda>k. (k, bucket al m k)) [0..<?n])
      = Inr (map (Some \<circ> ?part) [0..<?n])"
    using bk by (subst rmap_all_Inr [where g = "\<lambda>(k, _). Some (?part k)"]) (auto simp: comp_def)
  moreover have "enumerate 0 (map (bucket al m) [0..<?n]) = map (\<lambda>k. (k, bucket al m k)) [0..<?n]"
    by (rule nth_equalityI) (simp_all add: nth_enumerate_eq)
  ultimately have parts: "popup_parts al m = Inr (map Some (map ?part [0..<?n]))"
    using assms by (simp add: popup_parts_def popup_buckets_eq)
  have "popups_of (map Some (map ?part [0..<?n])) = concat (map (bucket al m) [0..<?n])"
    by (simp add: popups_of_def comp_def bucket_def [abs_def])
  also have "\<dots> = [1..al]"
    using concat_buckets [OF assms order.refl] bucket_count(2) [OF assms] by simp
  finally have "popups_of (map Some (map ?part [0..<?n])) = [1..al]" .
  moreover have "list_all (\<lambda>(a, b, _). a \<le> b \<and> b - a + 1 \<le> m) (map ?part [0..<?n])"
    using b by (auto simp: list_all_iff min_def)
  moreover obtain n where n: "?n = Suc n" using bucket_count(3) [OF assms] by (cases ?n) auto
  have "map (\<lambda>(_, _, run). run) (map ?part [0..<?n]) = map (\<lambda>k. k = 0) [0..<Suc n]"
    by (simp add: n del: upt_Suc)
  moreover have "map (\<lambda>k. k = (0::nat)) [0..<Suc n] = True # replicate n False"
    by (rule nth_equalityI) (auto simp: nth_Cons' simp del: upt_Suc)
  ultimately show ?thesis
    unfolding parts by (intro exI [of _ "map ?part [0..<?n]"]) (simp add: n del: upt_Suc)
qed

text \<open>
  when a test has more popups than a URL may open, its URLs open exactly the popups 1 to the number
  of popups, in order and each once, at most \<open>max_popups\<close> per URL; the tests without a popup run with the
  first URL only.
\<close>

theorem popup_urls_cover:
  assumes "0 < m" and "m < al"
  shows "\<exists>ps. popup_parts al m = Inr (map Some ps) \<and> popups_of (map Some ps) = [1..al]
    \<and> list_all (\<lambda>(a, b, _). a \<le> b \<and> b - a + 1 \<le> m) ps
    \<and> map (\<lambda>(_, _, run). run) ps = True # replicate (length ps - 1) False"
  using popup_urls_cover_aux [OF assms] .

theorem popup_urls_cover_witness:
  "\<exists>ps. popup_parts 8 3 = Inr (map Some ps) \<and> popups_of (map Some ps) = [1..8]
    \<and> list_all (\<lambda>(a, b, _). a \<le> b \<and> b - a + 1 \<le> 3) ps
    \<and> map (\<lambda>(_, _, run). run) ps = True # replicate (length ps - 1) False"
  using popup_urls_cover [of 3 8] by simp

section \<open>The test URLs cover the responses\<close>

definition entry_runs :: "resp_type \<Rightarrow> string \<Rightarrow> int \<Rightarrow> string \<times> string \<times> int \<times> int \<times> int \<Rightarrow> bool" where
  "entry_runs rt scheme max_popups = (\<lambda>(url, lab, num_resp_ids, popup_parsing, popup_basic).
     \<not> (max_popups = 0 \<and> popup_parsing + popup_basic > 0)
     \<and> \<not> (contains_sub ''upgrade'' url \<and> scheme = ''https'')
     \<and> (starts_with ''CORS'' lab \<longrightarrow> (lab = ''CORS'' \<longleftrightarrow> rt \<noteq> Parsing)))"

definition covered :: "test_url list \<Rightarrow> (string \<times> int) set" where
  "covered urls = {(tu_label u, i) |u i. u \<in> set urls \<and> tu_first_id u \<le> i \<and> i \<le> tu_last_id u}"

lemma covered_simps [simp]: "covered [] = {}" "covered (xs @ ys) = covered xs \<union> covered ys"
  by (auto simp: covered_def)

lemma covered_concat: "covered (concat xss) = (\<Union>xs \<in> set xss. covered xs)"
  by (induction xss) auto

lemma covered_map:
  assumes "ps \<noteq> []" "\<And>p. tu_label (f p) = lab" "\<And>p. tu_first_id (f p) = a" "\<And>p. tu_last_id (f p) = b"
  shows "covered (map f ps) = {lab} \<times> set [a..b]"
proof -
  obtain p where "p \<in> set ps" using assms(1) by (cases ps) auto
  then show ?thesis by (auto simp: covered_def assms(2-) intro!: exI [of _ "f p"])
qed

lemma popup_parts_ok: "0 < m \<Longrightarrow> \<exists>ps. popup_parts al m = Inr ps \<and> ps \<noteq> []"
  using popup_urls_cover_aux [of m al] by (cases "m < al") (auto simp: popup_parts_def)

lemma tests_of_entry_ok:
  assumes "0 < max_popups" "1 \<le> max_resps" "1 \<le> num"
  shows "\<exists>urls. tests_of_entry fetch rt browser_id scheme max_popups max_resps modifier (url, lab, num, pp, pb) = Inr urls
     \<and> covered urls = (if entry_runs rt scheme max_popups (url, lab, num, pp, pb) then {lab} \<times> set (fetch lab rt) else {})
     \<and> list_all (\<lambda>u. tu_scheme u = scheme \<and> tu_browser_id u = browser_id \<and> tu_resp_type u = rt
          \<and> tu_last_id u - tu_first_id u < (if rt = Parsing then min num max_resps else 1)) urls"
proof (cases "entry_runs rt scheme max_popups (url, lab, num, pp, pb)")
  case False
  then have "tests_of_entry fetch rt browser_id scheme max_popups max_resps modifier (url, lab, num, pp, pb) = Inr []"
    using assms by (auto simp: tests_of_entry_def entry_runs_def Let_def)
  then show ?thesis using False by simp
next
  case True
  let ?n = "if rt = Parsing then min num max_resps else 1"
  let ?m = "timeout_modifiers lab * GLOBAL_TEST_TIMEOUT * modifier"
  let ?np = "if rt = Parsing then pp else pb"
  let ?url = "\<lambda>a b p. \<lparr>tu_scheme = scheme, tu_file = url, tu_timeout = ?m, tu_resp_type = rt,
      tu_browser_id = browser_id, tu_label = lab, tu_first_id = a, tu_last_id = b, tu_popups = p\<rparr>"
  obtain parts where parts: "\<And>al. popup_parts al max_popups = Inr (parts al) \<and> parts al \<noteq> []"
    using popup_parts_ok [OF assms(1)] by metis
  have "\<not> ?n < 1" using assms by (simp add: not_less)
  then obtain ranges where r: "get_resp_ids fetch lab rt ?n = Inr ranges"
    by (cases "get_resp_ids fetch lab rt ?n") (auto simp: get_resp_ids_def Let_def split: if_splits)
  let ?us = "\<lambda>(a, b). map (?url a b) (parts (?np * (b - a + 1)))"
  have "tests_of_entry fetch rt browser_id scheme max_popups max_resps modifier (url, lab, num, pp, pb)
      = rbind (rmap (\<lambda>(a, b). rbind (popup_parts (?np * (b - a + 1)) max_popups) (\<lambda>ps. Inr (map (?url a b) ps))) ranges)
          (\<lambda>urls. Inr (concat urls))"
    using True r by (auto simp: tests_of_entry_def entry_runs_def Let_def)
  also have "rmap (\<lambda>(a, b). rbind (popup_parts (?np * (b - a + 1)) max_popups) (\<lambda>ps. Inr (map (?url a b) ps))) ranges
      = Inr (map ?us ranges)"
    using parts by (intro rmap_all_Inr) auto
  finally have eq: "tests_of_entry fetch rt browser_id scheme max_popups max_resps modifier (url, lab, num, pp, pb)
      = Inr (concat (map ?us ranges))" by simp
  have "covered (?us (a, b)) = {lab} \<times> set [a..b]" for a b
    unfolding prod.case by (rule covered_map) (use parts in simp_all)
  then have "covered (concat (map ?us ranges)) = {lab} \<times> set (ids_of ranges)"
    by (induction ranges) auto
  moreover have "ids_of ranges = fetch lab rt" "list_all (\<lambda>(a, b). a \<le> b \<and> b - a + 1 \<le> ?n) ranges"
    using resp_ranges [OF r] by simp_all
  ultimately show ?thesis
    using True eq by (intro exI [of _ "concat (map ?us ranges)"]) (auto simp: list_all_iff)
qed

lemma tests_of_entries_ok:
  assumes "0 < max_popups" "1 \<le> max_resps" "list_all (\<lambda>(_, _, num, _, _). 1 \<le> num) es"
  shows "\<exists>urlss. rmap (tests_of_entry fetch rt browser_id scheme max_popups max_resps modifier) es = Inr urlss
     \<and> covered (concat urlss) = (\<Union>e \<in> set es. if entry_runs rt scheme max_popups e
           then {fst (snd e)} \<times> set (fetch (fst (snd e)) rt) else {})
     \<and> list_all (\<lambda>u. tu_scheme u = scheme \<and> tu_browser_id u = browser_id \<and> tu_resp_type u = rt
          \<and> tu_last_id u - tu_first_id u < (if rt = Parsing then max_resps else 1)) (concat urlss)"
  using assms(3)
proof (induction es)
  case (Cons e es)
  obtain url lab num pp pb where e: "e = (url, lab, num, pp, pb)" by (cases e)
  have "1 \<le> num" using Cons.prems by (simp add: e)
  from tests_of_entry_ok [OF assms(1,2) this, of fetch rt browser_id scheme modifier url lab pp pb] Cons
  show ?case by (fastforce simp: e list_all_iff)
qed simp

definition tested_labels :: "resp_type \<Rightarrow> string \<Rightarrow> string set" where
  "tested_labels rt scheme =
     (if rt = Parsing then {''CORS-ACAO'', ''CORS-ACAC'', ''CORS-ACAM'', ''CORS-ACAH'', ''CORS-ACEH''} else {''CORS''})
     \<union> {''XFO'', ''CSP-FA'', ''CSPvsXFO'', ''PP'', ''TAO'', ''RP'', ''CSP-SCRIPT'', ''COEP'', ''CORP'', ''CSP-IMG'', ''COOP'', ''XCTO''}
     \<union> (if scheme = ''https'' then {} else {''HSTS''})"

lemma entry_runs_test_info:
  assumes "0 < max_popups"
  shows "(\<Union>e \<in> set test_info. if entry_runs rt scheme max_popups e
           then {fst (snd e)} \<times> set (fetch (fst (snd e)) rt) else {})
     = {(lab, i). lab \<in> tested_labels rt scheme \<and> i \<in> set (fetch lab rt)}"
proof -
  let ?es = "filter (entry_runs rt scheme max_popups) test_info"
  have "map (\<lambda>e. fst (snd e)) ?es =
      (if rt = Parsing then [''CORS-ACAO'', ''CORS-ACAC'', ''CORS-ACAM'', ''CORS-ACAH'', ''CORS-ACEH''] else [''CORS''])
      @ [''XFO'', ''CSP-FA'', ''CSPvsXFO'', ''PP'', ''TAO'', ''RP'', ''CSP-SCRIPT'', ''COEP'', ''CORP'', ''CSP-IMG'', ''COOP'', ''XCTO'']
      @ (if scheme = ''https'' then [] else [''HSTS''])"
    using assms by (cases "rt = Parsing"; cases "scheme = ''https''")
      (simp_all add: test_info_def entry_runs_def starts_with_def)
  then have "(\<lambda>e. fst (snd e)) ` set ?es = tested_labels rt scheme"
    unfolding set_map [symmetric] by (simp add: tested_labels_def)
  then have "tested_labels rt scheme = (\<lambda>e. fst (snd e)) ` {e \<in> set test_info. entry_runs rt scheme max_popups e}"
    by simp
  then have "tested_labels rt scheme = {lab. \<exists>e \<in> set test_info. entry_runs rt scheme max_popups e \<and> lab = fst (snd e)}"
    by blast
  then show ?thesis by (simp only:) (simp split: if_splits, blast)
qed

lemma get_tests_ok:
  assumes "0 < max_popups" "1 \<le> max_resps"
  shows "\<exists>urls. get_tests fetch rt browser_id scheme max_popups max_resps modifier = Inr urls
    \<and> covered urls = {(lab, i). lab \<in> tested_labels rt scheme \<and> i \<in> set (fetch lab rt)}
    \<and> list_all (\<lambda>u. tu_scheme u = scheme \<and> tu_browser_id u = browser_id \<and> tu_resp_type u = rt
          \<and> tu_last_id u - tu_first_id u < (if rt = Parsing then max_resps else 1)) urls"
proof -
  have "list_all (\<lambda>(_, _, num, _, _). 1 \<le> num) test_info" by (simp add: test_info_def)
  from tests_of_entries_ok [OF assms this, of fetch rt browser_id scheme modifier]
  show ?thesis unfolding entry_runs_test_info [OF assms(1)] by (auto simp: get_tests_def)
qed

text \<open>
  C28: with at least one popup and one response per URL allowed, planning the tests never fails; the URLs
  test exactly the responses of the labels meant for the response type and scheme, are for the given
  browser and scheme, and outside the parsing tests contain a single response.
\<close>

theorem test_urls_cover_responses:
  assumes "0 < max_popups" and "1 \<le> max_resps"
  shows "\<exists>urls. get_tests fetch rt browser_id scheme max_popups max_resps modifier = Inr urls
    \<and> covered urls = {(lab, i). lab \<in> tested_labels rt scheme \<and> i \<in> set (fetch lab rt)}
    \<and> list_all (\<lambda>u. tu_scheme u = scheme \<and> tu_browser_id u = browser_id \<and> tu_resp_type u = rt
          \<and> tu_last_id u - tu_first_id u < (if rt = Parsing then max_resps else 1)) urls"
  by (rule get_tests_ok [OF assms])

theorem test_urls_cover_responses_witness:
  "\<exists>urls. get_tests (\<lambda>lab rt. if lab = ''COOP'' then [3, 9] else []) Basic 7 ''https'' 3 10 2 = Inr urls
    \<and> covered urls = {(''COOP'', 3), (''COOP'', 9)}"
  using test_urls_cover_responses [of 3 10 "\<lambda>lab rt. if lab = ''COOP'' then [3, 9] else []" Basic 7 "''https''" 2]
  by (force simp: tested_labels_def split: if_splits)

end
