(* ===== verification/Repeats.thy ===== *)
theory Repeats
  imports Crawler Response_Parts
begin

text \<open>
  Repeating tests (\<open>_hp/hp/tools/crawler/create_repeat.py\<close>, \<open>create_page_runner_repeats.py\<close>) and the texts of the
  analysis (\<open>_hp/hp/tools/analysis/utils.py\<close>): the regular expressions the scripts search and replace, the
  choice of the tests with too few results, and the URLs that repeat them. URLs are ASCII, as browsers report
  them. The rows of the query, and the order in which pandas groups and counts them, are arguments.
\<close>

section \<open>Regular expressions\<close>

text \<open>
  A matcher gives the rest behind a match at the start of a text. The expressions of the scripts need no
  backtracking: what follows a repetition never continues it. None matches the empty text.
\<close>

type_synonym matcher = "string \<Rightarrow> string option"

definition lit :: "string \<Rightarrow> matcher" where
  "lit p s = (if starts_with p s then Some (drop (length p) s) else None)"

definition many :: "(char \<Rightarrow> bool) \<Rightarrow> matcher" where
  "many P s = (if takeWhile P s = [] then None else Some (dropWhile P s))"

definition any_char :: matcher where
  "any_char s = (case s of [] \<Rightarrow> None | c # cs \<Rightarrow> if c = CHR 0x0A then None else Some cs)"

definition optionally :: "matcher \<Rightarrow> matcher" where
  "optionally m s = (case m s of None \<Rightarrow> Some s | Some t \<Rightarrow> Some t)"

definition followed :: "matcher \<Rightarrow> matcher \<Rightarrow> matcher" where
  "followed m n s = Option.bind (m s) n"

definition either :: "matcher \<Rightarrow> matcher \<Rightarrow> matcher" where
  "either m n s = (case m s of None \<Rightarrow> n s | Some t \<Rightarrow> Some t)"

text \<open>\<open>re.sub\<close> of all matches, \<open>re.sub\<close> of the first match, and the text of the first match of \<open>re.search\<close>.\<close>

fun sub_all :: "matcher \<Rightarrow> string \<Rightarrow> string \<Rightarrow> string" where
  "sub_all m r [] = []"
| "sub_all m r (c # cs) =
     (case m (c # cs) of
        None \<Rightarrow> c # sub_all m r cs
      | Some t \<Rightarrow> r @ sub_all m r (drop (length cs - length t) cs))"

fun sub_first :: "matcher \<Rightarrow> string \<Rightarrow> string \<Rightarrow> string" where
  "sub_first m r [] = []"
| "sub_first m r (c # cs) = (case m (c # cs) of None \<Rightarrow> c # sub_first m r cs | Some t \<Rightarrow> r @ t)"

fun re_search :: "matcher \<Rightarrow> string \<Rightarrow> string option" where
  "re_search m [] = None"
| "re_search m (c # cs) =
     (case m (c # cs) of None \<Rightarrow> re_search m cs | Some t \<Rightarrow> Some (take (Suc (length cs) - length t) (c # cs)))"

definition word_char :: "char \<Rightarrow> bool" where
  "word_char c \<longleftrightarrow> is_digit c \<or> is_lower c \<or> is_upper c \<or> c = CHR ''_''"

definition number_field :: "string \<Rightarrow> matcher" where
  "number_field name = followed (lit name) (many is_digit)"

section \<open>Clean URLs\<close>

definition popup_fields :: matcher where
  "popup_fields = followed (number_field ''&first_popup='') (followed (number_field ''&last_popup='')
     (followed (lit ''&run_no_popup='') (either (lit ''yes'') (lit ''no''))))"

definition clean_url :: "string \<Rightarrow> string" where
  "clean_url url =
     (let url = sub_all (number_field ''browser_id='') ''browser_id=1'' url;
          url = sub_all popup_fields [] url;
          url = sub_all (followed (lit ''&run_id='') (many word_char)) [] url
      in sub_all (followed (number_field ''timeout='') (lit ''&'')) [] url)"

section \<open>The tests to repeat\<close>

record result_data =
  rd_test_name :: string
  rd_relation_info :: string
  rd_org_scheme :: string
  rd_org_host :: string
  rd_resp_scheme :: string
  rd_resp_host :: string
  rd_response_id :: int
  rd_resp_type :: string
  rd_browser_id :: int
  rd_full_url :: string

definition create_test_id :: "result_data \<Rightarrow> string" where
  "create_test_id r =
     join_with ''_'' [rd_test_name r, rd_relation_info r, rd_org_scheme r, rd_org_host r, rd_resp_scheme r, rd_resp_host r,
       int_str (rd_response_id r), rd_resp_type r]"

text \<open>
  \<open>value_counts\<close> of the categorical column \<open>browser_id\<close> per test counts every browser of the data, also those
  without a result for the test.
\<close>

definition test_counts :: "result_data list \<Rightarrow> (string \<times> int \<times> nat) list" where
  "test_counts df =
     concat (map (\<lambda>t. map (\<lambda>b. (t, b, length (filter (\<lambda>r. create_test_id r = t \<and> rd_browser_id r = b) df)))
       (remdups (map rd_browser_id df))) (remdups (map create_test_id df)))"

definition tests_to_repeat :: "((string \<times> int \<times> nat) list \<Rightarrow> (string \<times> int \<times> nat) list) \<Rightarrow> result_data list \<Rightarrow> (string \<times> int \<times> nat) list" where
  "tests_to_repeat order df = filter (\<lambda>(_, _, n). n < 5) (order (test_counts df))"

text \<open>The merge with the first row of each test.\<close>

definition rows_to_repeat :: "((string \<times> int \<times> nat) list \<Rightarrow> (string \<times> int \<times> nat) list) \<Rightarrow> result_data list \<Rightarrow> (int \<times> result_data) list" where
  "rows_to_repeat order df =
     concat (map (\<lambda>(t, b, _). case find (\<lambda>r. create_test_id r = t) df of None \<Rightarrow> [] | Some r \<Rightarrow> [(b, r)])
       (tests_to_repeat order df))"

section \<open>The repeated URL\<close>

text \<open>\<open>int(m[1])\<close> of a match of a number field, which is not subscriptable if there is none.\<close>

definition field_value :: "string \<Rightarrow> string option \<Rightarrow> int res" where
  "field_value name m = (case m of
     None \<Rightarrow> Inl TypeError
   | Some t \<Rightarrow> of_option ValueError (py_int (drop (length name) t)))"

definition matched :: "string option \<Rightarrow> string res" where
  "matched m = of_option TypeError m"

text \<open>
  The ids are only looked up if there is one response per URL; otherwise the variables stay unassigned,
  the argument \<open>None\<close>.
\<close>

definition popup_suffix :: "(string option \<times> string option) option \<Rightarrow> string \<Rightarrow> string res" where
  "popup_suffix ids full_url =
     (case re_search (number_field ''first_popup='') full_url of
        None \<Rightarrow> Inr []
      | Some first_popup \<Rightarrow>
          (case ids of
             None \<Rightarrow> Inl UnboundLocalError
           | Some (f_id, l_id) \<Rightarrow>
               rbind (field_value ''last_id='' l_id) (\<lambda>l. rbind (field_value ''first_id='' f_id) (\<lambda>f.
                 if l - f \<noteq> 0
                 then Inl (GenericException (''Not possible to set correct first/last popup: '' @ full_url @ '' ''))
                 else rbind (matched (re_search (number_field ''last_popup='') full_url)) (\<lambda>last_popup.
                      rbind (matched (re_search (followed (lit ''run_no_popup='') (many word_char)) full_url)) (\<lambda>run_no_popup.
                        Inr (''&'' @ first_popup @ ''&'' @ last_popup @ ''&'' @ run_no_popup)))))))"

definition repeat_url :: "bool \<Rightarrow> int \<Rightarrow> result_data \<Rightarrow> string res" where
  "repeat_url mult_resp_ids browser_id row =
     (let full_url = rd_full_url row;
          rid = int_str (rd_response_id row);
          url = sub_all (number_field ''browser_id='') (''browser_id='' @ int_str browser_id) (clean_url full_url);
          ids = (if mult_resp_ids then None
                 else Some (re_search (number_field ''first_id='') url, re_search (number_field ''last_id='') url));
          url = (if mult_resp_ids then url
                 else sub_all (number_field ''last_id='') (''last_id='' @ rid)
                        (sub_all (number_field ''first_id='') (''first_id='' @ rid) url))
      in case re_search (number_field ''timeout='') full_url of
           None \<Rightarrow> Inl IndexError
         | Some t \<Rightarrow>
             rbind (of_option ValueError (py_int (drop (length ''timeout='') t))) (\<lambda>old_timeout.
               let url = sub_first (lit ''?'') (''?timeout='' @ int_str (2 * old_timeout) @ ''&'') url
               in rbind (popup_suffix ids full_url) (\<lambda>s. Inr (url @ s))))"

text \<open>The dictionary of sets of URLs; the order of a set in the file is not modelled.\<close>

type_synonym repeats = "(string, string set) odict"

definition add_repeat :: "bool \<Rightarrow> int \<times> result_data \<Rightarrow> repeats \<Rightarrow> repeats res" where
  "add_repeat mult_resp_ids = (\<lambda>(b, row) d.
     let k = int_str b; urls = (case od_get d k of None \<Rightarrow> {} | Some s \<Rightarrow> s)
     in rbind (repeat_url mult_resp_ids b row) (\<lambda>u. Inr (od_set k (insert u urls) d)))"

fun add_repeats :: "bool \<Rightarrow> (int \<times> result_data) list \<Rightarrow> repeats \<Rightarrow> repeats res" where
  "add_repeats every [] d = Inr d"
| "add_repeats every (x # xs) d = rbind (add_repeat every x d) (add_repeats every xs)"

definition calc_repeat ::
  "((string \<times> int \<times> nat) list \<Rightarrow> (string \<times> int \<times> nat) list) \<Rightarrow> bool \<Rightarrow> result_data list \<Rightarrow> repeats res" where
  "calc_repeat order mult_resp_ids df = add_repeats mult_resp_ids (rows_to_repeat order df) []"

section \<open>Pages that run the repeated tests\<close>

text \<open>
  \<open>create_test_page_runner\<close>: the address of the page, its file and what is written to it. The template is an
  argument, as is the random id.
\<close>

definition json_list :: "string list \<Rightarrow> string" where
  "json_list urls = ''['' @ join_with '', '' (map (\<lambda>u. map char_of (json_text (cp u))) urls) @ '']''"

definition create_test_page_runner :: "string \<Rightarrow> string \<Rightarrow> string \<Rightarrow> string \<Rightarrow> string list \<Rightarrow> string \<times> string \<times> string" where
  "create_test_page_runner host html_template browser_id identifier test_urls =
     (let page = ''test-page-runner-'' @ browser_id @ ''_'' @ identifier @ ''.html'';
          html = replace_sub ''$$$URLS$$$'' (json_list test_urls) html_template;
          html = replace_sub ''$$$TIMEOUT$$$'' (int_str (TIMEOUT * 1000)) html
      in (''https://'' @ host @ ''/_hp/tests/'' @ page, page, html))"

definition generate_short_uuid :: "string \<Rightarrow> int \<Rightarrow> string res" where
  "generate_short_uuid full_uuid n = (if n \<le> 0 then Inl ValueError else Inr (take (nat n) full_uuid))"

text \<open>\<open>create_page_runner_repeats.py\<close> for the lists of the file and a random id.\<close>

definition page_runner_repeats ::
  "string \<Rightarrow> string \<Rightarrow> string \<Rightarrow> (string, string list) odict \<Rightarrow> int \<Rightarrow> (string \<times> string \<times> string) res" where
  "page_runner_repeats host html_template full_uuid d browser_id =
     rbind (generate_short_uuid full_uuid 6) (\<lambda>rand_token.
     rbind (of_option KeyError (od_get d (int_str browser_id))) (\<lambda>urls.
       Inr (create_test_page_runner host html_template (int_str browser_id) (rand_token @ ''-0'') urls)))"

section \<open>Outcomes in the analysis\<close>

text \<open>\<open>add_columns\<close>: outcomes that mean the same get the same text. The argument is the outcome as a text.\<close>

definition unify_outcome :: "string \<Rightarrow> string" where
  "unify_outcome x =
     (let failed = ''TypeError: Failed to fetch''; aborted = ''AbortError: Fetch is aborted'';
          blocked = ''No window-reference. Probably popup blocked'';
          x = sub_all (lit ''TypeError: Load failed'') failed x;
          x = sub_all (followed (lit ''TypeError: NetworkError when attempting to fetch resource'') any_char) failed x;
          x = sub_all (followed (lit ''AbortError: The operation was aborted.'') (optionally (lit '' ''))) aborted x;
          x = sub_all (followed (lit ''AbortError: The user aborted a request'') any_char) aborted x;
          x = sub_all (lit ''TypeError: w is null'') blocked x;
          x = sub_all (lit (''TypeError: Cannot read properties of null reading '' @ [CHR 0x27] @ ''opener'' @ [CHR 0x27])) blocked x;
          x = (if contains_sub ''responses.py?feature_group'' x then ''document.referrer: full_url'' else x);
          x = (if contains_sub ''https://'' x then ''document.referrer: https://origin'' else x)
      in if contains_sub ''http://'' x then ''document.referrer: http://origin'' else x)"

definition clickable :: "string \<Rightarrow> string \<Rightarrow> string" where
  "clickable title url =
     (let t = (if title = [] then url else title)
      in ''<a href='' @ [CHR 0x22] @ url @ [CHR 0x22] @ '' target='' @ [CHR 0x22] @ ''_blank'' @ [CHR 0x22] @ ''>'' @ t @ ''</a>'')"

definition make_clickable :: "string \<Rightarrow> string" where
  "make_clickable url = (let u = clean_url url in clickable u u)"

section \<open>Searching in a URL\<close>

text \<open>
  Every expression for a parameter starts with its name up to the equals sign. A URL is a sequence of texts without
  equals sign, each followed by one and a value: a match starts at the end of such a text or not at all.
\<close>

definition starts_field :: "string \<Rightarrow> matcher \<Rightarrow> bool" where
  "starts_field name m \<longleftrightarrow> CHR ''='' \<notin> set name \<and> (\<forall>s. m s \<noteq> None \<longrightarrow> starts_with (name @ ''='') s)"

definition value_text :: "string \<Rightarrow> bool" where
  "value_text v \<longleftrightarrow> list_all (\<lambda>c. c \<notin> {CHR ''='', CHR ''&'', CHR ''?''}) v"

lemma no_match_before:
  assumes "starts_field name m" "CHR ''='' \<notin> set q" "m (q @ ''='' @ u) \<noteq> None"
  shows "q = name"
proof -
  obtain w where w: "q @ CHR ''='' # u = name @ CHR ''='' # w"
    using assms(1,3) by (auto simp: starts_field_def starts_with_iff)
  have "takeWhile (\<lambda>c. c \<noteq> CHR ''='') (q @ CHR ''='' # u) = q" using assms(2) by (auto simp: takeWhile_append)
  moreover have "takeWhile (\<lambda>c. c \<noteq> CHR ''='') (name @ CHR ''='' # w) = name"
    using assms(1) by (auto simp: takeWhile_append starts_field_def)
  ultimately show ?thesis using w by simp
qed

lemma scan_name:
  assumes "starts_field name m" "CHR ''='' \<notin> set q" "\<not> ends_with name q"
  shows "sub_all m r (q @ ''='' @ u) = q @ ''='' @ sub_all m r u" "re_search m (q @ ''='' @ u) = re_search m u"
proof -
  have "sub_all m r (q @ ''='' @ u) = q @ ''='' @ sub_all m r u \<and> re_search m (q @ ''='' @ u) = re_search m u"
    using assms(2,3)
  proof (induction q)
    case Nil
    have "m (''='' @ u) = None" using no_match_before [OF assms(1), of "[]" u] Nil
      by (cases "m (''='' @ u)") (auto simp: ends_with_iff)
    then show ?case by simp
  next
    case (Cons c q)
    have "m ((c # q) @ ''='' @ u) = None"
      using no_match_before [OF assms(1), of "c # q" u] Cons.prems
      by (cases "m ((c # q) @ ''='' @ u)") (auto simp: ends_with_iff)
    moreover have "\<not> ends_with name q" using Cons.prems(2) by (auto simp: ends_with_iff)
    ultimately show ?case using Cons by simp
  qed
  then show "sub_all m r (q @ ''='' @ u) = q @ ''='' @ sub_all m r u" "re_search m (q @ ''='' @ u) = re_search m u" by blast+
qed

lemma scan_value:
  assumes "starts_field name m" "value_text v" "q \<noteq> []" "hd q \<in> {CHR ''&'', CHR ''?''}" "CHR ''='' \<notin> set q"
    "set (tl name) \<inter> {CHR ''&'', CHR ''?''} = {}"
  shows "sub_all m r (v @ q @ ''='' @ u) = v @ sub_all m r (q @ ''='' @ u)" "re_search m (v @ q @ ''='' @ u) = re_search m (q @ ''='' @ u)"
proof -
  have "sub_all m r (v @ q @ ''='' @ u) = v @ sub_all m r (q @ ''='' @ u) \<and> re_search m (v @ q @ ''='' @ u) = re_search m (q @ ''='' @ u)"
    using assms(2)
  proof (induction v)
    case (Cons c v)
    have "(c # v) @ q \<noteq> name" using assms(3,4,6) by (cases q) auto
    moreover have "CHR ''='' \<notin> set ((c # v) @ q)" using Cons.prems assms(5) by (auto simp: value_text_def list_all_iff)
    ultimately have "m ((c # v) @ q @ ''='' @ u) = None" using no_match_before [OF assms(1)] by fastforce
    then show ?case using Cons by (simp add: value_text_def)
  qed simp
  then show "sub_all m r (v @ q @ ''='' @ u) = v @ sub_all m r (q @ ''='' @ u)" "re_search m (v @ q @ ''='' @ u) = re_search m (q @ ''='' @ u)"
    by blast+
qed

lemma scan_end:
  assumes "starts_field name m" "CHR ''='' \<notin> set v" shows "sub_all m r v = v" "re_search m v = None"
proof -
  have no: "m x = None" if "CHR ''='' \<notin> set x" for x
    using assms(1) that by (cases "m x") (auto simp: starts_field_def starts_with_iff)
  have "sub_all m r v = v \<and> re_search m v = None"
    using assms(2) by (induction v) (auto simp: no)
  then show "sub_all m r v = v" "re_search m v = None" by blast+
qed

lemma scan_hit:
  assumes "starts_field name m" "CHR ''='' \<notin> set q" "m (name @ ''='' @ x @ t) = Some t" "name \<noteq> []"
  shows "sub_all m r (q @ name @ ''='' @ x @ t) = q @ r @ sub_all m r t"
    and "re_search m (q @ name @ ''='' @ x @ t) = Some (name @ ''='' @ x)"
proof -
  let ?w = "name @ ''='' @ x"
  obtain c s where w: "?w = c # s" using assms(4) by (cases name) auto
  have hit: "m (c # s @ t) = Some t" using assms(3) w by (metis append.assoc append_Cons)
  then have at: "sub_all m r (?w @ t) = r @ sub_all m r t" "re_search m (?w @ t) = Some ?w" unfolding w by simp_all
  have "sub_all m r (q @ ?w @ t) = q @ r @ sub_all m r t \<and> re_search m (q @ ?w @ t) = Some ?w"
    using assms(2)
  proof (induction q)
    case (Cons c q)
    have "CHR ''='' \<notin> set name" using assms(1) by (simp add: starts_field_def)
    then have "m ((c # q @ name) @ ''='' @ (x @ t)) = None"
      using no_match_before [OF assms(1), of "c # q @ name" "x @ t"] Cons.prems by (cases "m ((c # q @ name) @ ''='' @ (x @ t))") auto
    then show ?case using Cons by simp
  qed (use at in simp)
  then show "sub_all m r (q @ name @ ''='' @ x @ t) = q @ r @ sub_all m r t"
    and "re_search m (q @ name @ ''='' @ x @ t) = Some (name @ ''='' @ x)" by simp_all
qed

text \<open>The expressions of the scripts.\<close>

lemma followed_Some: "followed m n s = Some t \<longleftrightarrow> (\<exists>u. m s = Some u \<and> n u = Some t)"
  by (cases "m s") (auto simp: followed_def)

lemma lit_Some: "lit p s = Some t \<longleftrightarrow> s = p @ t"
  by (auto simp: lit_def starts_with_iff)

lemma followed_field: "CHR ''='' \<notin> set n \<Longrightarrow> starts_field n (followed (lit (n @ ''='')) m)"
  by (auto simp: starts_field_def followed_Some lit_Some starts_with_iff)

lemma many_digits: "n \<ge> 0 \<Longrightarrow> t = [] \<or> \<not> is_digit (hd t) \<Longrightarrow> many is_digit (int_str n @ t) = Some t"
proof -
  assume n: "n \<ge> 0" and t: "t = [] \<or> \<not> is_digit (hd t)"
  have d: "\<forall>c \<in> set (int_str n). is_digit c" "int_str n \<noteq> []" using n nat_str_digits by (auto simp: int_str_def)
  then have "takeWhile is_digit (int_str n @ t) = int_str n" "dropWhile is_digit (int_str n @ t) = t"
    using t by (cases t; simp add: takeWhile_append dropWhile_append)+
  then show ?thesis using d(2) by (simp add: many_def)
qed

text \<open>A URL as its texts and values.\<close>

fun flat :: "(string \<times> string) list \<Rightarrow> string" where
  "flat [] = []"
| "flat ((q, v) # fs) = q @ ''='' @ v @ flat fs"

lemma flat_append [simp]: "flat (fs @ gs) = flat fs @ flat gs"
  by (induction fs rule: flat.induct) simp_all

definition next_field :: "string \<times> string \<Rightarrow> bool" where
  "next_field f \<longleftrightarrow> fst f \<noteq> [] \<and> hd (fst f) \<in> {CHR ''&'', CHR ''?''} \<and> CHR ''='' \<notin> set (fst f) \<and> value_text (snd f)"

definition url_fields :: "(string \<times> string) list \<Rightarrow> bool" where
  "url_fields fs \<longleftrightarrow> (case fs of [] \<Rightarrow> True
     | f # gs \<Rightarrow> CHR ''='' \<notin> set (fst f) \<and> value_text (snd f) \<and> list_all next_field gs)"

definition plain_name :: "string \<Rightarrow> bool" where
  "plain_name n \<longleftrightarrow> n \<noteq> [] \<and> CHR ''='' \<notin> set n \<and> set (tl n) \<inter> {CHR ''&'', CHR ''?''} = {}"

lemma skip_fields:
  assumes "starts_field n m" "plain_name n"
  shows "url_fields (fs @ gs) \<Longrightarrow> list_all (\<lambda>f. \<not> ends_with n (fst f)) fs \<Longrightarrow>
    sub_all m r (flat (fs @ gs)) = flat fs @ sub_all m r (flat gs) \<and> re_search m (flat (fs @ gs)) = re_search m (flat gs)"
proof (induction fs)
  case (Cons f fs)
  obtain q v where f: "f = (q, v)" by (cases f)
  have q: "CHR ''='' \<notin> set q" "\<not> ends_with n q" "value_text v" "list_all next_field (fs @ gs)"
    using Cons.prems by (simp_all add: f url_fields_def)
  have v: "CHR ''='' \<notin> set v" using q(3) by (auto simp: value_text_def list_all_iff)
  show ?case
  proof (cases "fs @ gs")
    case Nil
    then show ?thesis using scan_name [OF assms(1) q(1,2)] scan_end [OF assms(1) v] by (simp add: f)
  next
    case (Cons g hs)
    obtain p w where g: "g = (p, w)" by (cases g)
    have p: "p \<noteq> []" "hd p \<in> {CHR ''&'', CHR ''?''}" "CHR ''='' \<notin> set p" using q(4) Cons by (simp_all add: g next_field_def)
    have fl: "flat (fs @ gs) = p @ ''='' @ w @ flat hs" unfolding Cons g by simp
    have "url_fields (fs @ gs)" using q(4) unfolding Cons by (simp add: url_fields_def next_field_def)
    moreover have "list_all (\<lambda>f. \<not> ends_with n (fst f)) fs" using Cons.prems by simp
    ultimately have IH: "sub_all m r (flat (fs @ gs)) = flat fs @ sub_all m r (flat gs)" "re_search m (flat (fs @ gs)) = re_search m (flat gs)"
      using Cons.IH by blast+
    have "set (tl n) \<inter> {CHR ''&'', CHR ''?''} = {}" using assms(2) by (simp add: plain_name_def)
    from scan_value [OF assms(1) q(3) p this] show ?thesis
      using scan_name [OF assms(1) q(1,2)] IH fl by (simp add: f)
  qed
qed simp

lemma number_match:
  assumes "n \<ge> 0" "t = [] \<or> \<not> is_digit (hd t)" shows "number_field (p @ ''='') (p @ ''='' @ int_str n @ t) = Some t"
  using many_digits [OF assms] by (simp add: number_field_def followed_Some lit_Some)

lemma fields_end_number: "list_all next_field fs \<Longrightarrow> flat fs = [] \<or> \<not> is_digit (hd (flat fs))"
  by (cases fs; cases "hd fs") (auto simp: next_field_def is_digit_def neq_Nil_conv)

lemma number_in_fields:
  assumes "plain_name n" "url_fields (fs @ (q @ n, int_str k) # gs)" "0 \<le> k"
    and "list_all (\<lambda>f. \<not> ends_with n (fst f)) fs" "list_all (\<lambda>f. \<not> ends_with n (fst f)) gs"
  shows "sub_all (number_field (n @ ''='')) (n @ ''='' @ w) (flat (fs @ (q @ n, int_str k) # gs)) = flat (fs @ (q @ n, w) # gs)"
    and "re_search (number_field (n @ ''='')) (flat (fs @ (q @ n, int_str k) # gs)) = Some (n @ ''='' @ int_str k)"
proof -
  let ?m = "number_field (n @ ''='')"
  have m: "starts_field n ?m" using assms(1) followed_field by (simp add: number_field_def plain_name_def)
  have gs: "list_all next_field gs" "CHR ''='' \<notin> set q" using assms(2) by (cases fs; simp add: url_fields_def next_field_def)+
  have "url_fields gs" using gs(1) by (cases gs) (simp_all add: url_fields_def next_field_def)
  then have tail: "sub_all ?m w' (flat gs) = flat gs" for w'
    using skip_fields [OF m assms(1), of gs "[]"] assms(5) by simp
  note skip = skip_fields [OF m assms(1,2,4)]
  note hit = scan_hit [OF m gs(2) number_match [OF assms(3) fields_end_number [OF gs(1)]]]
  have "n \<noteq> []" using assms(1) by (simp add: plain_name_def)
  from skip hit [OF this] tail
  show "sub_all ?m (n @ ''='' @ w) (flat (fs @ (q @ n, int_str k) # gs)) = flat (fs @ (q @ n, w) # gs)"
    and "re_search ?m (flat (fs @ (q @ n, int_str k) # gs)) = Some (n @ ''='' @ int_str k)"
    by simp_all
qed

section \<open>Repeating a planned test\<close>

definition popup_part :: "(int \<times> int \<times> bool) option \<Rightarrow> (string \<times> string) list" where
  "popup_part p = (case p of None \<Rightarrow> []
     | Some (a, b, run) \<Rightarrow> [(''&first_popup'', int_str a), (''&last_popup'', int_str b), (''&run_no_popup'', if run then ''yes'' else ''no'')])"

definition id_part :: "test_url \<Rightarrow> (string \<times> string) list" where
  "id_part t = [(''&label'', tu_label t), (''&first_id'', int_str (tu_first_id t)), (''&last_id'', int_str (tu_last_id t)),
     (''&scheme'', tu_scheme t)]"

definition page_address :: "string \<Rightarrow> test_url \<Rightarrow> string" where
  "page_address host t = tu_scheme t @ ''://sub.'' @ host @ ''/_hp/tests/'' @ tu_file t"

lemma render_url_flat:
  "render_url host t = flat ([(page_address host t @ ''?timeout'', int_str (tu_timeout t)), (''&resp_type'', resp_type_str (tu_resp_type t)),
     (''&browser_id'', int_str (tu_browser_id t))] @ id_part t @ popup_part (tu_popups t))"
  by (simp add: render_url_def page_address_def id_part_def popup_part_def split: option.split prod.split)

text \<open>
  A test URL whose texts have no special characters and whose numbers are not negative; with popups it is for one
  response, as \<open>get_tests\<close> makes them for the tests with popups.
\<close>

definition simple_test :: "string \<Rightarrow> test_url \<Rightarrow> bool" where
  "simple_test host t \<longleftrightarrow> value_text (page_address host t) \<and> value_text (tu_label t) \<and> value_text (tu_scheme t)
     \<and> 0 \<le> tu_timeout t \<and> 0 \<le> tu_browser_id t \<and> 0 \<le> tu_first_id t \<and> 0 \<le> tu_last_id t
     \<and> (case tu_popups t of None \<Rightarrow> True | Some (a, b, _) \<Rightarrow> 0 \<le> a \<and> 0 \<le> b \<and> tu_first_id t = tu_last_id t)"

definition run_part :: "string \<Rightarrow> (string \<times> string) list" where
  "run_part run_id = (if run_id = [] then [] else [(''&run_id'', run_id)])"

lemma value_text_int_str [simp]: "value_text (int_str i)"
proof -
  have "c \<noteq> CHR ''='' \<and> c \<noteq> CHR ''&'' \<and> c \<noteq> CHR ''?''" if "c \<in> set (nat_str n)" for c n
    using nat_str_digits [OF that] by (auto simp: is_digit_def)
  then show ?thesis by (auto simp: value_text_def int_str_def list_all_iff)
qed

lemma ends_with_last: "a \<noteq> [] \<Longrightarrow> c \<noteq> [] \<Longrightarrow> last a \<noteq> last c \<Longrightarrow> \<not> ends_with a (b @ c)"
  by (auto simp: ends_with_iff) (metis last_appendR)

lemma expressions:
  "starts_field ''&first_popup'' popup_fields"
  "starts_field ''&run_id'' (followed (lit ''&run_id='') (many word_char))"
  "starts_field ''timeout'' (followed (number_field ''timeout='') (lit ''&''))"
  "starts_field ''run_no_popup'' (followed (lit ''run_no_popup='') (many word_char))"
  using followed_field [of "''&run_id''"] followed_field [of "''run_no_popup''"]
  by (auto simp: starts_field_def popup_fields_def number_field_def followed_Some lit_Some starts_with_iff)

lemma names: "plain_name ''browser_id''" "plain_name ''&first_popup''" "plain_name ''&run_id''" "plain_name ''timeout''" "plain_name ''first_id''"
  "plain_name ''last_id''" "plain_name ''first_popup''" "plain_name ''last_popup''" "plain_name ''run_no_popup''"
  by (simp_all add: plain_name_def)

lemma words_match: "list_all word_char v \<Longrightarrow> v \<noteq> [] \<Longrightarrow> t = [] \<or> \<not> word_char (hd t) \<Longrightarrow> many word_char (v @ t) = Some t"
proof -
  assume v: "list_all word_char v" "v \<noteq> []" and t: "t = [] \<or> \<not> word_char (hd t)"
  have "takeWhile word_char (v @ t) = v" "dropWhile word_char (v @ t) = t"
    using v t by (cases t; simp add: takeWhile_append dropWhile_append list_all_iff)+
  then show ?thesis using v(2) by (simp add: many_def)
qed

lemma sub_first_char: "c \<notin> set q \<Longrightarrow> sub_first (lit [c]) r (q @ c # t) = q @ r @ t"
  by (induction q) (auto simp: lit_def starts_with_def)

lemma page_address_chars:
  assumes "simple_test host t" shows "CHR ''='' \<notin> set (page_address host t)" "CHR ''?'' \<notin> set (page_address host t)"
  using assms by (auto simp: simple_test_def value_text_def list_all_iff)

lemma word_value: "list_all word_char v \<Longrightarrow> value_text v"
  by (auto simp: list_all_iff value_text_def word_char_def is_digit_def is_lower_def is_upper_def)

text \<open>The parts of a URL are fields.\<close>

definition other_name :: "string \<Rightarrow> (string \<times> string) list \<Rightarrow> bool" where
  "other_name n fs \<longleftrightarrow> list_all (\<lambda>f. \<not> ends_with n (fst f)) fs"

lemma other_name_simps [simp]:
  "other_name n []" "other_name n (f # fs) \<longleftrightarrow> \<not> ends_with n (fst f) \<and> other_name n fs"
  "other_name n (fs @ gs) \<longleftrightarrow> other_name n fs \<and> other_name n gs"
  by (simp_all add: other_name_def)

lemma parts_fields:
  "value_text (tu_label t) \<Longrightarrow> value_text (tu_scheme t) \<Longrightarrow> list_all next_field (id_part t)"
  "list_all next_field (popup_part p)" "list_all word_char run_id \<Longrightarrow> list_all next_field (run_part run_id)"
  "value_text (resp_type_str rt)"
proof -
  show "list_all next_field (id_part t)" if "value_text (tu_label t)" "value_text (tu_scheme t)"
    using that by (simp add: id_part_def next_field_def)
  have "value_text ''yes''" "value_text ''no''" by (simp_all add: value_text_def)
  then show "list_all next_field (popup_part p)" by (auto simp: popup_part_def next_field_def split: option.split)
  show "list_all next_field (run_part run_id)" if "list_all word_char run_id"
    using word_value [OF that] by (simp add: run_part_def next_field_def)
  show "value_text (resp_type_str rt)" by (cases rt) (simp_all add: value_text_def)
qed

lemma name_ends:
  "list_all (\<lambda>n. list_all (\<lambda>q. ends_with n q = (q = n \<or> q = CHR ''&'' # n))
       [''&resp_type'', ''&browser_id'', ''&label'', ''&first_id'', ''&last_id'', ''&scheme'', ''&first_popup'', ''&last_popup'', ''&run_no_popup'',
        ''&run_id'', ''resp_type''])
     [''browser_id'', ''&first_popup'', ''&run_id'', ''timeout'', ''first_id'', ''last_id'', ''first_popup'', ''last_popup'', ''run_no_popup'']"
  by code_simp

lemmas name_ends_simps [simp] = name_ends [simplified]

lemma other_parts:
  "n \<in> {''browser_id'', ''&first_popup'', ''&run_id'', ''timeout'', ''first_popup'', ''last_popup'', ''run_no_popup''} \<Longrightarrow> other_name n (id_part t)"
  "n \<in> {''browser_id'', ''&run_id'', ''timeout'', ''first_id'', ''last_id''} \<Longrightarrow> other_name n (popup_part p)"
  "n \<in> {''browser_id'', ''&first_popup'', ''timeout'', ''first_id'', ''last_id'', ''first_popup'', ''last_popup'', ''run_no_popup''}
     \<Longrightarrow> other_name n (run_part r)"
  by (auto simp: id_part_def popup_part_def run_part_def split: option.split)

lemma other_page:
  "n \<in> {''browser_id'', ''&first_popup'', ''&run_id'', ''first_id'', ''last_id'', ''first_popup'', ''last_popup'', ''run_no_popup''}
     \<Longrightarrow> \<not> ends_with n (p @ ''?timeout'')"
  "n \<in> {''browser_id'', ''&first_popup'', ''&run_id'', ''timeout'', ''first_id'', ''last_id'', ''first_popup'', ''last_popup'', ''run_no_popup''}
     \<Longrightarrow> \<not> ends_with n (p @ ''?resp_type'')"
  by (rule ends_with_last; auto)+

text \<open>The fields of a test's URL as it is planned for a browser, and without what differs between its visits.\<close>

definition head_fields :: "string \<Rightarrow> test_url \<Rightarrow> int \<Rightarrow> int \<Rightarrow> (string \<times> string) list" where
  "head_fields host t timeout b = [(page_address host t @ ''?timeout'', int_str timeout), (''&resp_type'', resp_type_str (tu_resp_type t)),
     (''&browser_id'', int_str b)]"

definition clean_fields :: "string \<Rightarrow> test_url \<Rightarrow> int \<Rightarrow> (string \<times> string) list" where
  "clean_fields host t b = (page_address host t @ ''?resp_type'', resp_type_str (tu_resp_type t)) # (''&browser_id'', int_str b) # id_part t"

lemma url_fields_Cons: "url_fields (f # fs) \<longleftrightarrow> CHR ''='' \<notin> set (fst f) \<and> value_text (snd f) \<and> list_all next_field fs"
  by (simp add: url_fields_def)

lemma planned_fields:
  assumes "simple_test host t" "list_all word_char run_id"
  shows "url_fields (head_fields host t a b @ id_part t @ popup_part p @ run_part run_id)" "url_fields (clean_fields host t b)"
    "url_fields (popup_part p @ run_part run_id)" "url_fields (run_part run_id)"
  using parts_fields(1) [of t] parts_fields(2) [of p] parts_fields(3) [of run_id] parts_fields(4) [of "tu_resp_type t"] assms
    page_address_chars [OF assms(1)]
  by (simp_all add: head_fields_def clean_fields_def url_fields_Cons next_field_def simple_test_def)
     (auto simp: url_fields_def popup_part_def run_part_def next_field_def split: list.split option.split)

lemma clean_planned:
  assumes t: "simple_test host t" and w: "list_all word_char run_id"
  shows "clean_url (render_url host t @ flat (run_part run_id)) = flat (clean_fields host t 1)"
proof -
  let ?H = "head_fields host t (tu_timeout t)" and ?I = "id_part t" and ?P = "popup_part (tu_popups t)" and ?U = "run_part run_id"
  let ?A = "(page_address host t @ ''?timeout'', int_str (tu_timeout t))" and ?R = "(''&resp_type'', resp_type_str (tu_resp_type t))"
  have v: "0 \<le> tu_timeout t" "0 \<le> tu_browser_id t" using t by (simp_all add: simple_test_def)
  have one: "int_str 1 = ''1''" by code_simp
  have url: "render_url host t @ flat ?U = flat ([?A, ?R] @ (''&'' @ ''browser_id'', int_str (tu_browser_id t)) # ?I @ ?P @ ?U)"
    by (simp add: render_url_flat)
  have b: "url_fields ([?A, ?R] @ (''&'' @ ''browser_id'', int_str (tu_browser_id t)) # ?I @ ?P @ ?U)"
    using planned_fields(1) [OF t w, of "tu_timeout t" "tu_browser_id t" "tu_popups t"] by (simp add: head_fields_def)
  have o: "list_all (\<lambda>f. \<not> ends_with ''browser_id'' (fst f)) [?A, ?R]" "list_all (\<lambda>f. \<not> ends_with ''browser_id'' (fst f)) (?I @ ?P @ ?U)"
    unfolding other_name_def [symmetric] using other_parts other_page by simp_all
  from number_in_fields(1) [OF names(1) b v(2) o, of "''1''"]
  have s1: "sub_all (number_field ''browser_id='') ''browser_id=1'' (render_url host t @ flat ?U) = flat (?H 1 @ ?I @ ?P @ ?U)"
    unfolding url by (simp add: head_fields_def one del: flat.simps flat_append)
  have fs: "url_fields (?H 1 @ ?I @ ?P @ ?U)" "url_fields (?H 1 @ ?I @ ?U)" "url_fields (?H 1 @ ?I)"
    using planned_fields(1) [OF t w] planned_fields(1) [OF t w, of _ _ None] planned_fields(1) [OF t, of "[]" _ _ None]
    by (simp_all add: popup_part_def run_part_def)
  have s2: "sub_all popup_fields [] (flat (?H 1 @ ?I @ ?P @ ?U)) = flat (?H 1 @ ?I @ ?U)"
  proof -
    have rest: "sub_all popup_fields [] (flat ?U) = flat ?U"
      using skip_fields [OF expressions(1) names(2), of ?U "[]" "[]"] planned_fields(4) [OF t w] other_parts(3) [of "''&first_popup''"]
      by (simp add: other_name_def)
    have "sub_all popup_fields [] (flat (?P @ ?U)) = flat ?U"
    proof (cases "tu_popups t")
      case None
      then show ?thesis using rest by (simp add: popup_part_def)
    next
      case (Some p)
      obtain a b run where p: "p = (a, b, run)" by (cases p)
      have nn: "0 \<le> a" "0 \<le> b" using t by (simp_all add: simple_test_def Some p)
      let ?yn = "if run then ''yes'' else ''no''" let ?x = "int_str a @ ''&last_popup='' @ int_str b @ ''&run_no_popup='' @ ?yn"
      have "number_field (''&first_popup'' @ ''='') (''&first_popup'' @ ''='' @ int_str a @ ''&last_popup='' @ int_str b @ ''&run_no_popup='' @ ?yn @ flat ?U)
          = Some (''&last_popup='' @ int_str b @ ''&run_no_popup='' @ ?yn @ flat ?U)"
        "number_field (''&last_popup'' @ ''='') (''&last_popup'' @ ''='' @ int_str b @ ''&run_no_popup='' @ ?yn @ flat ?U)
          = Some (''&run_no_popup='' @ ?yn @ flat ?U)"
        by (rule number_match; simp add: nn is_digit_def)+
      then have "popup_fields (''&first_popup'' @ ''='' @ ?x @ flat ?U) = Some (flat ?U)"
        by (simp add: popup_fields_def followed_def lit_def starts_with_def either_def)
      from scan_hit(1) [OF expressions(1) _ this, of "[]" "[]"] rest show ?thesis by (simp add: Some p popup_part_def)
    qed
    moreover have "other_name ''&first_popup'' (?H 1 @ ?I)" using other_parts other_page by (simp add: head_fields_def)
    ultimately show ?thesis
      using skip_fields [OF expressions(1) names(2), of "?H 1 @ ?I" "?P @ ?U" "[]"] fs by (simp add: other_name_def)
  qed
  have s3: "sub_all (followed (lit ''&run_id='') (many word_char)) [] (flat (?H 1 @ ?I @ ?U)) = flat (?H 1 @ ?I)"
  proof -
    have "sub_all (followed (lit ''&run_id='') (many word_char)) [] (flat ?U) = []"
    proof (cases "run_id = []")
      case False
      have "followed (lit ''&run_id='') (many word_char) (''&run_id'' @ ''='' @ run_id @ []) = Some []"
        using words_match [OF w False, of "[]"] by (simp add: followed_def lit_def starts_with_def)
      from scan_hit(1) [OF expressions(2) _ this, of "[]" "[]"] False show ?thesis by (simp add: run_part_def)
    qed (simp add: run_part_def)
    moreover have "other_name ''&run_id'' (?H 1 @ ?I)" using other_parts other_page by (simp add: head_fields_def)
    ultimately show ?thesis
      using skip_fields [OF expressions(2) names(3), of "?H 1 @ ?I" "?U" "[]"] fs by (simp add: other_name_def)
  qed
  have s4: "sub_all (followed (number_field ''timeout='') (lit ''&'')) [] (flat (?H 1 @ ?I)) = flat (clean_fields host t 1)"
  proof -
    let ?q = "page_address host t @ ''?''" and ?C = "(''resp_type'', resp_type_str (tu_resp_type t)) # (''&browser_id'', int_str 1) # ?I"
    have "number_field (''timeout'' @ ''='') (''timeout'' @ ''='' @ int_str (tu_timeout t) @ ''&'' @ flat ?C) = Some (''&'' @ flat ?C)"
      by (rule number_match) (simp_all add: v is_digit_def)
    then have "followed (number_field ''timeout='') (lit ''&'') (''timeout'' @ ''='' @ (int_str (tu_timeout t) @ ''&'') @ flat ?C) = Some (flat ?C)"
      by (simp add: followed_def lit_def starts_with_def)
    from scan_hit(1) [OF expressions(3) _ this, of ?q "[]"] page_address_chars [OF t]
    have "sub_all (followed (number_field ''timeout='') (lit ''&'')) [] (flat (?H 1 @ ?I))
        = ?q @ sub_all (followed (number_field ''timeout='') (lit ''&'')) [] (flat ?C)"
      by (simp add: head_fields_def)
    moreover have "url_fields ?C" "other_name ''timeout'' ?C"
      using fs(3) other_parts(1) parts_fields(4) by (simp_all add: head_fields_def url_fields_Cons next_field_def)
    then have "sub_all (followed (number_field ''timeout='') (lit ''&'')) [] (flat ?C) = flat ?C"
      using skip_fields [OF expressions(3) names(4), of ?C "[]" "[]"] by (simp add: other_name_def)
    ultimately show ?thesis by (simp add: clean_fields_def)
  qed
  show ?thesis by (simp only: clean_url_def Let_def s1 s2 s3 s4)
qed

definition repeated_test :: "int \<Rightarrow> int \<Rightarrow> test_url \<Rightarrow> test_url" where
  "repeated_test b rid t = t\<lparr>tu_timeout := 2 * tu_timeout t, tu_browser_id := b, tu_first_id := rid, tu_last_id := rid\<rparr>"

definition cleaned :: "string \<Rightarrow> test_url \<Rightarrow> int \<Rightarrow> int \<Rightarrow> int \<Rightarrow> (string \<times> string) list" where
  "cleaned host t b f l = clean_fields host (t\<lparr>tu_first_id := f, tu_last_id := l\<rparr>) b"

lemma clean_numbers:
  assumes t: "simple_test host t" "0 \<le> b" "0 \<le> f" "0 \<le> l"
  shows "sub_all (number_field ''browser_id='') (''browser_id='' @ int_str c) (flat (cleaned host t b f l)) = flat (cleaned host t c f l)"
    and "sub_all (number_field ''first_id='') (''first_id='' @ int_str c) (flat (cleaned host t b f l)) = flat (cleaned host t b c l)"
    and "sub_all (number_field ''last_id='') (''last_id='' @ int_str c) (flat (cleaned host t b f l)) = flat (cleaned host t b f c)"
    and "re_search (number_field ''first_id='') (flat (cleaned host t b f l)) = Some (''first_id='' @ int_str f)"
    and "re_search (number_field ''last_id='') (flat (cleaned host t b f l)) = Some (''last_id='' @ int_str l)"
proof -
  let ?A = "(page_address host t @ ''?resp_type'', resp_type_str (tu_resp_type t))" and ?B = "(''&browser_id'', int_str b)"
  let ?L = "(''&label'', tu_label t)" and ?S = "(''&scheme'', tu_scheme t)" and ?F = "(''&first_id'', int_str f)" and ?E = "(''&last_id'', int_str l)"
  have all: "cleaned host t b f l = [?A, (''&browser_id'', int_str b), ?L, (''&first_id'', int_str f), (''&last_id'', int_str l), ?S]" for b f l
    by (simp add: cleaned_def clean_fields_def id_part_def page_address_def)
  have u: "url_fields (cleaned host t b f l)"
    using page_address_chars [OF t(1)] parts_fields(4) t(1) by (simp add: all url_fields_Cons next_field_def simple_test_def)
  note page = other_page(2) [of _ "page_address host t"]
  have "url_fields ([?A] @ (''&'' @ ''browser_id'', int_str b) # [?L, ?F, ?E, ?S])" using u by (simp add: all)
  from number_in_fields(1) [OF names(1) this t(2), of "int_str c"] page [of "''browser_id''"]
  show "sub_all (number_field ''browser_id='') (''browser_id='' @ int_str c) (flat (cleaned host t b f l)) = flat (cleaned host t c f l)"
    by (simp add: all del: flat.simps flat_append)
  have "url_fields ([?A, ?B, ?L] @ (''&'' @ ''first_id'', int_str f) # [?E, ?S])" using u by (simp add: all)
  from number_in_fields [OF names(5) this t(3)] page [of "''first_id''"]
  show "sub_all (number_field ''first_id='') (''first_id='' @ int_str c) (flat (cleaned host t b f l)) = flat (cleaned host t b c l)"
    and "re_search (number_field ''first_id='') (flat (cleaned host t b f l)) = Some (''first_id='' @ int_str f)"
    by (simp_all add: all del: flat.simps flat_append)
  have "url_fields ([?A, ?B, ?L, ?F] @ (''&'' @ ''last_id'', int_str l) # [?S])" using u by (simp add: all)
  from number_in_fields [OF names(6) this t(4)] page [of "''last_id''"]
  show "sub_all (number_field ''last_id='') (''last_id='' @ int_str c) (flat (cleaned host t b f l)) = flat (cleaned host t b f c)"
    and "re_search (number_field ''last_id='') (flat (cleaned host t b f l)) = Some (''last_id='' @ int_str l)"
    by (simp_all add: all del: flat.simps flat_append)
qed

lemma search_page_fields:
  assumes t: "simple_test host t" and w: "list_all word_char run_id"
  shows "re_search (number_field ''timeout='') (render_url host t @ flat (run_part run_id)) = Some (''timeout='' @ int_str (tu_timeout t))"
    and "re_search (number_field ''first_popup='') (render_url host t @ flat (run_part run_id))
      = map_option (\<lambda>(a, b, run). ''first_popup='' @ int_str a) (tu_popups t)"
    and "re_search (number_field ''last_popup='') (render_url host t @ flat (run_part run_id))
      = map_option (\<lambda>(a, b, run). ''last_popup='' @ int_str b) (tu_popups t)"
    and "re_search (followed (lit ''run_no_popup='') (many word_char)) (render_url host t @ flat (run_part run_id))
      = map_option (\<lambda>(a, b, run). ''run_no_popup='' @ (if run then ''yes'' else ''no'')) (tu_popups t)"
proof -
  let ?I = "id_part t" and ?U = "run_part run_id" and ?R = "(''&resp_type'', resp_type_str (tu_resp_type t))"
  let ?H = "head_fields host t (tu_timeout t) (tu_browser_id t)" and ?P = "popup_part (tu_popups t)"
  have url: "render_url host t @ flat ?U = flat (?H @ ?I @ ?P @ ?U)" by (simp add: render_url_flat head_fields_def)
  have u: "url_fields (?H @ ?I @ ?P @ ?U)" by (rule planned_fields [OF t w])
  note page = other_page(1) [of _ "page_address host t"]
  have "0 \<le> tu_timeout t" using t by (simp add: simple_test_def)
  have "url_fields ([] @ ((page_address host t @ ''?'') @ ''timeout'', int_str (tu_timeout t)) # ?R # (''&browser_id'', int_str (tu_browser_id t)) # ?I @ ?P @ ?U)"
    using u by (simp add: head_fields_def)
  from number_in_fields(2) [OF names(4) this] t other_parts
  show "re_search (number_field ''timeout='') (render_url host t @ flat ?U) = Some (''timeout='' @ int_str (tu_timeout t))"
    unfolding url by (simp add: head_fields_def simple_test_def other_name_def [symmetric] del: flat.simps flat_append)
  have pre: "other_name n (?H @ ?I)" if "n \<in> {''first_popup'', ''last_popup'', ''run_no_popup''}" for n
    using that other_parts(1) [of n t] page [of n] by (auto simp: head_fields_def)
  have miss: "re_search m (flat (?H @ ?I @ ?P @ ?U)) = re_search m (flat (?P @ ?U))"
    if "starts_field n m" "plain_name n" "n \<in> {''first_popup'', ''last_popup'', ''run_no_popup''}" for n m
    using skip_fields [OF that(1,2), of "?H @ ?I" "?P @ ?U" "[]"] u pre [OF that(3)] by (simp add: other_name_def)
  have nums: "starts_field ''first_popup'' (number_field ''first_popup='')" "starts_field ''last_popup'' (number_field ''last_popup='')"
    using followed_field [of "''first_popup''"] followed_field [of "''last_popup''"] by (simp_all add: number_field_def)
  have none: "re_search m (flat ?U) = None" if "starts_field n m" "plain_name n" "n \<in> {''first_popup'', ''last_popup'', ''run_no_popup''}" for n m
    using skip_fields [OF that(1,2), of ?U "[]" "[]"] planned_fields(4) [OF t w] other_parts(3) [of n run_id] that(3)
    by (auto simp: other_name_def)
  note found = miss [OF nums(1) names(7)] miss [OF nums(2) names(8)] miss [OF expressions(4) names(9)]
  have "re_search (number_field ''first_popup='') (flat (?P @ ?U)) = map_option (\<lambda>(a, b, run). ''first_popup='' @ int_str a) (tu_popups t)
     \<and> re_search (number_field ''last_popup='') (flat (?P @ ?U)) = map_option (\<lambda>(a, b, run). ''last_popup='' @ int_str b) (tu_popups t)
     \<and> re_search (followed (lit ''run_no_popup='') (many word_char)) (flat (?P @ ?U))
        = map_option (\<lambda>(a, b, run). ''run_no_popup='' @ (if run then ''yes'' else ''no'')) (tu_popups t)"
  proof (cases "tu_popups t")
    case None
    then show ?thesis using none [OF nums(1) names(7)] none [OF nums(2) names(8)] none [OF expressions(4) names(9)] by (simp add: popup_part_def)
  next
    case (Some p)
    obtain a b run where p: "p = (a, b, run)" by (cases p)
    let ?yn = "if run then ''yes'' else ''no''" and ?a = "(''&first_popup'', int_str a)" and ?b = "(''&last_popup'', int_str b)"
    have nn: "0 \<le> a" "0 \<le> b" using t by (simp_all add: simple_test_def Some p)
    have P: "?P = [?a, ?b, (''&run_no_popup'', ?yn)]" by (simp add: Some p popup_part_def)
    have "url_fields (?P @ ?U)" by (rule planned_fields [OF t w])
    then have f: "url_fields ([] @ (''&'' @ ''first_popup'', int_str a) # ?b # (''&run_no_popup'', ?yn) # ?U)"
      "url_fields ([?a] @ (''&'' @ ''last_popup'', int_str b) # (''&run_no_popup'', ?yn) # ?U)"
      "url_fields ([?a, ?b] @ (''&run_no_popup'', ?yn) # ?U)" by (simp_all add: P)
    from number_in_fields(2) [OF names(7) f(1) nn(1)] number_in_fields(2) [OF names(8) f(2) nn(2)]
    have "re_search (number_field ''first_popup='') (flat (?P @ ?U)) = Some (''first_popup='' @ int_str a)"
      "re_search (number_field ''last_popup='') (flat (?P @ ?U)) = Some (''last_popup='' @ int_str b)"
      using other_parts(3) by (simp_all add: P other_name_def [symmetric] del: flat.simps flat_append)
    moreover have "re_search (followed (lit ''run_no_popup='') (many word_char)) (flat ((''&run_no_popup'', ?yn) # ?U)) = Some (''run_no_popup='' @ ?yn)"
    proof -
      have "many word_char (?yn @ flat ?U) = Some (flat ?U)"
        by (rule words_match) (auto simp: word_char_def is_lower_def run_part_def is_digit_def is_upper_def)
      then have "followed (lit ''run_no_popup='') (many word_char) (''run_no_popup'' @ ''='' @ ?yn @ flat ?U) = Some (flat ?U)"
        by (simp add: followed_def lit_def starts_with_def)
      from scan_hit(2) [OF expressions(4) _ this, of "''&''"] show ?thesis by simp
    qed
    then have "re_search (followed (lit ''run_no_popup='') (many word_char)) (flat (?P @ ?U)) = Some (''run_no_popup='' @ ?yn)"
      using skip_fields [OF expressions(4) names(9) f(3)] by (simp add: P del: flat.simps flat_append)
    ultimately show ?thesis by (simp only: Some p option.map prod.case simp_thms)
  qed
  then show "re_search (number_field ''first_popup='') (render_url host t @ flat ?U) = map_option (\<lambda>(a, b, run). ''first_popup='' @ int_str a) (tu_popups t)"
    and "re_search (number_field ''last_popup='') (render_url host t @ flat ?U) = map_option (\<lambda>(a, b, run). ''last_popup='' @ int_str b) (tu_popups t)"
    and "re_search (followed (lit ''run_no_popup='') (many word_char)) (render_url host t @ flat ?U)
      = map_option (\<lambda>(a, b, run). ''run_no_popup='' @ (if run then ''yes'' else ''no'')) (tu_popups t)"
    unfolding url by (simp_all only: found insert_iff simp_thms)
qed

lemma planned_repeat:
  assumes "simple_test host t" and "list_all word_char run_id" and "0 \<le> b" and "0 \<le> rd_response_id row"
    and "rd_full_url row = render_url host t @ flat (run_part run_id)"
  shows "repeat_url False b row = Inr (render_url host (repeated_test b (rd_response_id row) t))"
proof -
  let ?rid = "rd_response_id row" and ?f = "tu_first_id t" and ?l = "tu_last_id t"
  have nn: "0 \<le> ?f" "0 \<le> ?l" using assms(1) by (simp_all add: simple_test_def)
  have c: "clean_url (rd_full_url row) = flat (cleaned host t 1 ?f ?l)"
    using clean_planned [OF assms(1,2)] by (simp add: assms(5) cleaned_def)
  note n1 = clean_numbers [OF assms(1) _ nn, of 1] and nb = clean_numbers [OF assms(1,3) nn] and nr = clean_numbers [OF assms(1,3,4) nn(2)]
  have q: "sub_first (lit ''?'') (''?timeout='' @ int_str T @ ''&'') (flat (cleaned host t b ?rid ?rid))
      = flat (head_fields host t T b @ id_part (repeated_test b ?rid t))" for T
    using sub_first_char [OF page_address_chars(2) [OF assms(1)]]
    by (simp add: cleaned_def clean_fields_def head_fields_def id_part_def repeated_test_def page_address_def)
  have rendered: "render_url host (repeated_test b ?rid t)
      = flat (head_fields host t (2 * tu_timeout t) b @ id_part (repeated_test b ?rid t)) @ flat (popup_part (tu_popups t))"
    by (simp add: render_url_flat head_fields_def repeated_test_def page_address_def)
  have ids: "field_value ''last_id='' (Some (''last_id='' @ int_str ?l)) = Inr ?l" "field_value ''first_id='' (Some (''first_id='' @ int_str ?f)) = Inr ?f"
    by (simp_all add: field_value_def of_option_simps)
  have "popup_suffix (Some (Some (''first_id='' @ int_str ?f), Some (''last_id='' @ int_str ?l))) (rd_full_url row) = Inr (flat (popup_part (tu_popups t)))"
  proof (cases "tu_popups t")
    case None
    then show ?thesis using search_page_fields(2) [OF assms(1,2)] by (simp add: popup_suffix_def assms(5) popup_part_def)
  next
    case (Some p)
    obtain x y run where p: "p = (x, y, run)" by (cases p)
    have "?l - ?f = 0" using assms(1) by (simp add: simple_test_def Some p)
    then show ?thesis
      using search_page_fields(2-4) [OF assms(1,2)] ids
      by (simp add: popup_suffix_def assms(5) popup_part_def Some p matched_def of_option_simps)
  qed
  then show ?thesis
    using n1 nb nr search_page_fields(1) [OF assms(1,2)] q [of "2 * tu_timeout t"] unfolding rendered
    by (simp add: repeat_url_def Let_def c assms(5) [symmetric] of_option_simps del: append_assoc flat_append)
qed

text \<open>
  C23: repeating a test repeats the same page: the URL for a result that came from the page of a planned test, possibly
  with a run id, is the URL of this test planned with twice the timeout, for the browser asked and for the response of
  the result alone, with the popups of the page.
\<close>

theorem repeated_page_is_planned:
  assumes "simple_test host t" and "list_all word_char run_id" and "0 \<le> b" and "0 \<le> rd_response_id row"
    and "rd_full_url row = render_url host t @ flat (run_part run_id)"
  shows "repeat_url False b row = Inr (render_url host (repeated_test b (rd_response_id row) t))"
  using assms by (rule planned_repeat)

section \<open>Which tests are repeated\<close>

definition repeats_of :: "repeats \<Rightarrow> int \<Rightarrow> string set" where
  "repeats_of d b = (case od_get d (int_str b) of None \<Rightarrow> {} | Some s \<Rightarrow> s)"

lemma int_str_inj [simp]: "int_str a = int_str b \<longleftrightarrow> a = b"
  by (metis py_int_int_str option.inject)

lemma add_repeats_result:
  "add_repeats every xs d = Inr d' \<Longrightarrow>
   u \<in> repeats_of d' b \<longleftrightarrow> u \<in> repeats_of d b \<or> (\<exists>row. (b, row) \<in> set xs \<and> repeat_url every b row = Inr u)"
proof (induction xs arbitrary: d)
  case (Cons x xs)
  obtain c row where x: "x = (c, row)" by (cases x)
  obtain w where w: "repeat_url every c row = Inr w"
    "add_repeats every xs (od_set (int_str c) (insert w (case od_get d (int_str c) of None \<Rightarrow> {} | Some s \<Rightarrow> s)) d) = Inr d'"
    using Cons.prems by (auto simp: x add_repeat_def Let_def rbind_eq_Inr)
  have "repeats_of (od_set (int_str c) (insert w (case od_get d (int_str c) of None \<Rightarrow> {} | Some s \<Rightarrow> s)) d) b
      = (if b = c then insert w (repeats_of d b) else repeats_of d b)"
    by (simp add: repeats_of_def od_get_set)
  then show ?case using Cons.IH [OF w(2)] w(1) by (auto simp: x)
qed simp

lemma add_repeats_succeeds:
  "(\<And>b row. (b, row) \<in> set xs \<Longrightarrow> \<exists>u. repeat_url every b row = Inr u) \<Longrightarrow> \<exists>d'. add_repeats every xs d = Inr d'"
proof (induction xs arbitrary: d)
  case (Cons x xs)
  obtain c row where x: "x = (c, row)" by (cases x)
  obtain w where "repeat_url every c row = Inr w" using Cons.prems x by auto
  then show ?case using Cons by (auto simp: x add_repeat_def Let_def)
qed simp

text \<open>The results of a test in a browser, and the first row of a test.\<close>

definition results :: "result_data list \<Rightarrow> string \<Rightarrow> int \<Rightarrow> nat" where
  "results df t b = length (filter (\<lambda>r. create_test_id r = t \<and> rd_browser_id r = b) df)"

definition first_row :: "result_data list \<Rightarrow> result_data \<Rightarrow> bool" where
  "first_row df r \<longleftrightarrow> find (\<lambda>s. create_test_id s = create_test_id r) df = Some r"

lemma first_row_in: "first_row df r \<Longrightarrow> r \<in> set df"
  unfolding first_row_def by (auto simp: find_Some_iff)

lemma rows_to_repeat_iff:
  assumes "\<And>xs. set (order xs) = set xs"
  shows "(b, r) \<in> set (rows_to_repeat order df)
    \<longleftrightarrow> first_row df r \<and> b \<in> rd_browser_id ` set df \<and> results df (create_test_id r) b < 5"
proof -
  have c: "(t, b, n) \<in> set (test_counts df) \<longleftrightarrow> t \<in> create_test_id ` set df \<and> b \<in> rd_browser_id ` set df \<and> n = results df t b" for t n
    by (auto simp: test_counts_def results_def)
  have "(b, r) \<in> set (rows_to_repeat order df) \<longleftrightarrow>
      (\<exists>t. t \<in> create_test_id ` set df \<and> b \<in> rd_browser_id ` set df \<and> results df t b < 5 \<and> find (\<lambda>s. create_test_id s = t) df = Some r)"
  proof -
    have "(b, r) \<in> set (rows_to_repeat order df) \<longleftrightarrow>
        (\<exists>t n. (t, b, n) \<in> set (tests_to_repeat order df) \<and> find (\<lambda>s. create_test_id s = t) df = Some r)"
    proof -
      have "(b, r) \<in> set (case x of (t, c, n) \<Rightarrow> case find (\<lambda>s. create_test_id s = t) df of None \<Rightarrow> [] | Some r \<Rightarrow> [(c, r)])
          \<longleftrightarrow> (\<exists>t n. x = (t, b, n) \<and> find (\<lambda>s. create_test_id s = t) df = Some r)" for x :: "string \<times> int \<times> nat"
        by (cases x; cases "find (\<lambda>s. create_test_id s = fst x) df") auto
      then show ?thesis unfolding rows_to_repeat_def set_concat set_map UN_iff bex_simps by (simp only: Bex_def) blast
    qed
    moreover have "(t, b, n) \<in> set (tests_to_repeat order df) \<longleftrightarrow> (t, b, n) \<in> set (test_counts df) \<and> n < 5" for t n
      by (auto simp: tests_to_repeat_def assms)
    ultimately show ?thesis by (auto simp: c)
  qed
  moreover have f: "create_test_id r = t" "r \<in> set df" if "find (\<lambda>s. create_test_id s = t) df = Some r" for t
    using that by (auto simp: find_Some_iff)
  then have "first_row df r \<Longrightarrow> create_test_id r \<in> create_test_id ` set df" unfolding first_row_def by blast
  ultimately show ?thesis using f(1) unfolding first_row_def by metis
qed

definition page_of :: "string \<Rightarrow> result_data \<Rightarrow> test_url \<Rightarrow> bool" where
  "page_of host r t \<longleftrightarrow> simple_test host t
     \<and> (\<exists>run_id. list_all word_char run_id \<and> rd_full_url r = render_url host t @ flat (run_part run_id))"

text \<open>
  C22: the tests with too few results are repeated, and no others: when all results came from pages of planned tests,
  the script completes, and the URLs it lists for a browser are those of the planned pages, with twice the timeout
  and one response, of exactly the tests with fewer than five results in this browser, also those with none.
\<close>

theorem missing_results_are_repeated:
  assumes "\<And>xs. set (order xs) = set xs"
    and "\<And>r. r \<in> set df \<Longrightarrow> 0 \<le> rd_browser_id r \<and> 0 \<le> rd_response_id r \<and> (\<exists>t. page_of host r t)"
  shows "\<exists>d. calc_repeat order False df = Inr d \<and> (\<forall>b u. u \<in> repeats_of d b \<longleftrightarrow>
    (\<exists>r t. first_row df r \<and> b \<in> rd_browser_id ` set df \<and> results df (create_test_id r) b < 5 \<and> page_of host r t
       \<and> u = render_url host (repeated_test b (rd_response_id r) t)))"
proof -
  have page: "repeat_url False b r = Inr (render_url host (repeated_test b (rd_response_id r) t))"
    if "page_of host r t" "r \<in> set df" "b \<in> rd_browser_id ` set df" for b r t
    using that assms(2) planned_repeat unfolding page_of_def by blast
  have rows: "r \<in> set df" "b \<in> rd_browser_id ` set df" if "(b, r) \<in> set (rows_to_repeat order df)" for b r
    using that rows_to_repeat_iff [OF assms(1)] first_row_in by blast+
  obtain d where d: "add_repeats False (rows_to_repeat order df) [] = Inr d"
    using add_repeats_succeeds [of "rows_to_repeat order df" False "[]"] rows page assms(2) by metis
  have "u \<in> repeats_of d b \<longleftrightarrow> (\<exists>r t. first_row df r \<and> b \<in> rd_browser_id ` set df \<and> results df (create_test_id r) b < 5 \<and> page_of host r t
       \<and> u = render_url host (repeated_test b (rd_response_id r) t))" for b u
  proof -
    have "u \<in> repeats_of d b \<longleftrightarrow> (\<exists>r. (b, r) \<in> set (rows_to_repeat order df) \<and> repeat_url False b r = Inr u)"
      using add_repeats_result [OF d] by (simp add: repeats_of_def od_get_def)
    also have "\<dots> \<longleftrightarrow> (\<exists>r t. (b, r) \<in> set (rows_to_repeat order df) \<and> page_of host r t
       \<and> u = render_url host (repeated_test b (rd_response_id r) t))"
      using rows page assms(2) by (metis sum.inject(2))
    finally show ?thesis unfolding rows_to_repeat_iff [OF assms(1)] by blast
  qed
  then show ?thesis using d by (auto simp: calc_repeat_def)
qed

section \<open>Failures of the scripts\<close>

text \<open>
  with several responses per URL, the pages with popups cannot be repeated: the option to keep them leaves the ids
  of the page unassigned, and the first such page ends the script.
\<close>

theorem kept_ids_fail_on_popups:
  assumes "simple_test host t" and "tu_popups t = Some p" and "list_all word_char run_id"
    and "rd_full_url row = render_url host t @ flat (run_part run_id)"
  shows "repeat_url True b row = Inl UnboundLocalError"
  using search_page_fields(1,2) [OF assms(1,3)] assms(2)
  by (simp add: repeat_url_def popup_suffix_def assms(4) Let_def of_option_simps split: prod.split)

text \<open>
  The regular expression for the message of Chromium contains its parentheses as a group, so the message is not
  found, and a blocked popup has two outcomes.
\<close>

lemma blocked_popups_differ:
  "unify_outcome ''TypeError: w is null'' = ''No window-reference. Probably popup blocked''"
  "unify_outcome (''TypeError: Cannot read properties of null (reading '' @ [CHR 0x27] @ ''opener'' @ [CHR 0x27] @ '')'')
     = ''TypeError: Cannot read properties of null (reading '' @ [CHR 0x27] @ ''opener'' @ [CHR 0x27] @ '')''"
  by code_simp+

section \<open>A concrete run\<close>

definition demo_test :: test_url where
  "demo_test = \<lparr>tu_scheme = ''https'', tu_file = ''coop.sub.html'', tu_timeout = 10, tu_resp_type = Basic, tu_browser_id = 5,
     tu_label = ''COOP'', tu_first_id = 3, tu_last_id = 3, tu_popups = Some (1, 8, True)\<rparr>"

definition demo_result :: "int \<Rightarrow> result_data" where
  "demo_result b = \<lparr>rd_test_name = ''t'', rd_relation_info = ''direct'', rd_org_scheme = ''https'', rd_org_host = ''sub.h'',
     rd_resp_scheme = ''https'', rd_resp_host = ''h'', rd_response_id = 3, rd_resp_type = ''basic'', rd_browser_id = b,
     rd_full_url = render_url ''h'' demo_test @ flat (run_part ''a1'')\<rparr>"

lemma demo_test_simple: "simple_test ''h'' demo_test" "list_all word_char ''a1''"
  by (simp_all add: simple_test_def demo_test_def page_address_def value_text_def word_char_def is_digit_def is_lower_def)

theorem repeated_page_is_planned_witness:
  "repeat_url False 7 (demo_result 5) = Inr (''https://sub.h/_hp/tests/coop.sub.html?timeout=20&resp_type=basic&browser_id=7&label=COOP''
     @ ''&first_id=3&last_id=3&scheme=https&first_popup=1&last_popup=8&run_no_popup=yes'')"
proof -
  have "repeat_url False 7 (demo_result 5) = Inr (render_url ''h'' (repeated_test 7 3 demo_test))"
    using repeated_page_is_planned [OF demo_test_simple, of 7 "demo_result 5"] by (simp add: demo_result_def)
  moreover have "int_str 20 = ''20''" "int_str 7 = ''7''" "int_str 3 = ''3''" "int_str 1 = ''1''" "int_str 8 = ''8''" by code_simp+
  ultimately show ?thesis by (simp add: render_url_def repeated_test_def demo_test_def)
qed

theorem missing_results_are_repeated_witness:
  "\<exists>d. calc_repeat rev False [demo_result 5, demo_result 9] = Inr d
     \<and> render_url ''h'' (repeated_test 9 3 demo_test) \<in> repeats_of d 9 \<and> repeats_of d 8 = {}"
proof -
  let ?df = "[demo_result 5, demo_result 9]"
  have page: "page_of ''h'' (demo_result b) demo_test" for b
    using demo_test_simple unfolding page_of_def by (intro conjI exI [of _ "''a1''"]) (simp_all add: demo_result_def)
  have "\<exists>d. calc_repeat rev False ?df = Inr d \<and> (\<forall>b u. u \<in> repeats_of d b \<longleftrightarrow>
      (\<exists>r t. first_row ?df r \<and> b \<in> rd_browser_id ` set ?df \<and> results ?df (create_test_id r) b < 5 \<and> page_of ''h'' r t
       \<and> u = render_url ''h'' (repeated_test b (rd_response_id r) t)))"
    by (rule missing_results_are_repeated) (use page in \<open>auto simp: demo_result_def\<close>)
  moreover have "first_row ?df (demo_result 5)" "rd_response_id (demo_result 5) = 3" "rd_browser_id ` set ?df = {5, 9}"
    by (simp_all add: first_row_def demo_result_def)
  moreover have "results ?df t b < 5" for t b by (simp add: results_def)
  ultimately show ?thesis using page by (metis (no_types, lifting) empty_iff ex_in_conv insert_iff numeral_eq_iff semiring_norm(83-90))
qed

theorem kept_ids_fail_on_popups_witness:
  "repeat_url True 7 (demo_result 5) = Inl UnboundLocalError"
  by (rule kept_ids_fail_on_popups [OF demo_test_simple(1) _ demo_test_simple(2)]) (simp_all add: demo_test_def demo_result_def)

end
