(* ===== verification/Timeouts.thy ===== *)
theory Timeouts
  imports Py_Prelude
begin

text \<open>
  Time limits by alarms (\<open>SignalTimeout\<close> of \<open>_hp/hp/tools/crawler/Timeout.py\<close>, \<open>CustomErrorTimeout\<close> of
  \<open>desktop_selenium.py\<close>) and what they do to the time a worker takes. Time is counted in ticks; the calls of the
  driver take the time they are given and may raise.
\<close>

section \<open>Alarms\<close>

text \<open>The handler of \<open>SIGALRM\<close>, \<open>None\<close> for the default, and the time left, 0 if no alarm is set.\<close>

datatype raised = TimeoutError | CustomTimeout | OtherException

record alarm =
  al_handler :: "raised option"
  al_left :: nat

record limiter =
  li_timeout :: nat
  li_exception :: raised
  li_old :: alarm

definition enter_limit :: "nat \<Rightarrow> raised \<Rightarrow> alarm \<Rightarrow> limiter \<times> alarm" where
  "enter_limit t e a =
     (\<lparr>li_timeout = t, li_exception = e, li_old = a\<rparr>, \<lparr>al_handler = Some e, al_left = t\<rparr>)"

definition cancel_limit :: "limiter \<Rightarrow> alarm" where
  "cancel_limit l = \<lparr>al_handler = al_handler (li_old l), al_left = al_left (li_old l)\<rparr>"

section \<open>Programs with limits\<close>

text \<open>
  The statements the worker consists of: a call that takes some time and then may raise, sequences, \<open>try\<close> with
  handlers for some exceptions, \<open>try\<close> with \<open>finally\<close>, \<open>finally\<close> with a \<open>return\<close>, and a block under a limit.
\<close>

datatype prog =
    Skip
  | Call nat bool
  | Seq prog prog
  | Catch "raised list" prog prog
  | Finally prog prog
  | Finally_Return prog prog
  | Limit nat raised prog

datatype ending = Done | Raised raised | Killed

definition busy :: "nat \<Rightarrow> bool \<Rightarrow> alarm \<Rightarrow> ending \<times> alarm \<times> nat" where
  "busy n ok a =
     (if al_left a = 0 \<or> n < al_left a
      then (if ok then Done else Raised OtherException, a\<lparr>al_left := al_left a - n\<rparr>, n)
      else (case al_handler a of None \<Rightarrow> Killed | Some e \<Rightarrow> Raised e, a\<lparr>al_left := 0\<rparr>, al_left a))"

fun run :: "prog \<Rightarrow> alarm \<Rightarrow> ending \<times> alarm \<times> nat" where
  "run Skip a = (Done, a, 0)"
| "run (Call n ok) a = busy n ok a"
| "run (Seq p q) a =
     (case run p a of
        (Done, a1, n) \<Rightarrow> (case run q a1 of (r, a2, m) \<Rightarrow> (r, a2, n + m))
      | (r, a1, n) \<Rightarrow> (r, a1, n))"
| "run (Catch es p q) a =
     (case run p a of
        (Raised e, a1, n) \<Rightarrow>
          if e \<in> set es then (case run q a1 of (r, a2, m) \<Rightarrow> (r, a2, n + m)) else (Raised e, a1, n)
      | (r, a1, n) \<Rightarrow> (r, a1, n))"
| "run (Finally p q) a =
     (case run p a of
        (Killed, a1, n) \<Rightarrow> (Killed, a1, n)
      | (r1, a1, n) \<Rightarrow> (case run q a1 of (r2, a2, m) \<Rightarrow> (if r2 = Done then r1 else r2, a2, n + m)))"
| "run (Finally_Return p q) a =
     (case run p a of
        (Killed, a1, n) \<Rightarrow> (Killed, a1, n)
      | (r1, a1, n) \<Rightarrow> (case run q a1 of (r2, a2, m) \<Rightarrow> (if r2 = Killed then Killed else Done, a2, n + m)))"
| "run (Limit t e p) a =
     (case enter_limit t e a of (l, a1) \<Rightarrow>
        (case run p a1 of
           (Killed, a2, n) \<Rightarrow> (Killed, a2, n)
         | (r, a2, n) \<Rightarrow> (r, cancel_limit l, n)))"

section \<open>The worker\<close>

text \<open>
  The calls of a worker: starting the browser, per page opening it with the wait for its results, and closing its
  window, and closing the browser. \<open>run_task\<close> logs and returns whatever happens.
\<close>

record page_calls =
  pc_open :: "nat \<times> bool"
  pc_close :: "nat \<times> bool"

definition call :: "nat \<times> bool \<Rightarrow> prog" where
  "call c = Call (fst c) (snd c)"

definition visit_page :: "page_calls \<Rightarrow> prog" where
  "visit_page c = Finally (Catch [OtherException, TimeoutError] (call (pc_open c)) Skip) (call (pc_close c))"

fun visit_pages :: "page_calls list \<Rightarrow> prog" where
  "visit_pages [] = Skip"
| "visit_pages (c # cs) = Seq (visit_page c) (visit_pages cs)"

definition task :: "nat \<times> bool \<Rightarrow> page_calls list \<Rightarrow> nat \<times> bool \<Rightarrow> prog" where
  "task start pages quit =
     Finally_Return
       (Catch [OtherException, TimeoutError, CustomTimeout] (Seq (call start) (visit_pages pages)) Skip)
       (Limit 30 CustomTimeout (Catch [OtherException, TimeoutError, CustomTimeout] (call quit) Skip))"

definition worker :: "nat \<Rightarrow> nat \<times> bool \<Rightarrow> page_calls list \<Rightarrow> nat \<times> bool \<Rightarrow> prog" where
  "worker timeout start pages quit =
     Limit timeout CustomTimeout (Catch [CustomTimeout, OtherException, TimeoutError] (task start pages quit) Skip)"

section \<open>Limits are undone\<close>

lemma busy_cases:
  obtains "al_left a = 0 \<or> n < al_left a" "busy n ok a = (if ok then Done else Raised OtherException, a\<lparr>al_left := al_left a - n\<rparr>, n)"
  | "0 < al_left a" "al_left a \<le> n" "busy n ok a = (case al_handler a of None \<Rightarrow> Killed | Some e \<Rightarrow> Raised e, a\<lparr>al_left := 0\<rparr>, al_left a)"
  by (cases "al_left a = 0 \<or> n < al_left a") (auto simp: busy_def)

lemma call_under_limit:
  assumes "al_handler a = Some e" "0 < al_left a"
  obtains r a' n where "run (call c) a = (r, a', n)" "r \<noteq> Killed" "al_handler a' = Some e"
    "0 < al_left a' \<and> n + al_left a' = al_left a \<or> al_left a' = 0 \<and> r = Raised e \<and> n = al_left a"
proof (cases rule: busy_cases [of a "fst c" "snd c"])
  case 1
  then show ?thesis using assms that [of "if snd c then Done else Raised OtherException" "a\<lparr>al_left := al_left a - fst c\<rparr>" "fst c"]
    by (simp add: call_def)
next
  case 2
  then show ?thesis using assms that [of "Raised e" "a\<lparr>al_left := 0\<rparr>" "al_left a"] by (simp add: call_def)
qed

lemma call_without_limit:
  "al_left a = 0 \<Longrightarrow> run (call c) a = (if snd c then Done else Raised OtherException, a, fst c)"
  by (simp add: call_def busy_def)

text \<open>What is left of the limit after the pages, or how long they took when it is used up.\<close>

definition within :: "nat \<Rightarrow> alarm \<Rightarrow> ending \<Rightarrow> alarm \<Rightarrow> nat \<Rightarrow> bool" where
  "within c a r a' n \<longleftrightarrow> r \<noteq> Killed \<and> al_handler a' = al_handler a
     \<and> (0 < al_left a' \<and> n + al_left a' = al_left a \<or> al_left a' = 0 \<and> r \<noteq> Done \<and> n \<le> al_left a + c)"

lemma visit_within:
  assumes "al_handler a = Some CustomTimeout" "0 < al_left a" "fst (pc_close p) \<le> c" "run (visit_page p) a = (r, a', n)"
  shows "within c a r a' n"
proof -
  obtain r1 a1 n1 where o: "run (call (pc_open p)) a = (r1, a1, n1)" "r1 \<noteq> Killed" "al_handler a1 = Some CustomTimeout"
    "0 < al_left a1 \<and> n1 + al_left a1 = al_left a \<or> al_left a1 = 0 \<and> r1 = Raised CustomTimeout \<and> n1 = al_left a"
    using call_under_limit [OF assms(1,2)] by metis
  define r2 where "r2 = (if r1 = Raised CustomTimeout then r1 else Done)"
  have r2: "run (Catch [OtherException, TimeoutError] (call (pc_open p)) Skip) a = (r2, a1, n1)"
    using o(1,2) by (cases r1) (auto simp: r2_def split: raised.splits intro: raised.exhaust)
  show ?thesis
  proof (cases "al_left a1 = 0")
    case True
    then have "r2 = Raised CustomTimeout" "n1 = al_left a" using o(4) by (auto simp: r2_def)
    then show ?thesis using assms(3,4) o(3) True assms(1) r2
      by (auto simp: visit_page_def call_without_limit within_def split: if_splits)
  next
    case False
    then obtain r3 a3 n3 where c3: "run (call (pc_close p)) a1 = (r3, a3, n3)" "r3 \<noteq> Killed" "al_handler a3 = Some CustomTimeout"
      "0 < al_left a3 \<and> n3 + al_left a3 = al_left a1 \<or> al_left a3 = 0 \<and> r3 = Raised CustomTimeout \<and> n3 = al_left a1"
      using call_under_limit [OF o(3)] by (metis gr0I)
    have "r2 \<noteq> Killed" using o(2) by (simp add: r2_def)
    then show ?thesis using assms(1,4) r2 c3 o(4) False
      by (cases r2) (auto simp: visit_page_def within_def split: if_splits)
  qed
qed

lemma visits_within:
  "al_handler a = Some CustomTimeout \<Longrightarrow> 0 < al_left a \<Longrightarrow> list_all (\<lambda>p. fst (pc_close p) \<le> c) ps
   \<Longrightarrow> run (visit_pages ps) a = (r, a', n) \<Longrightarrow> within c a r a' n"
proof (induction ps arbitrary: a r a' n)
  case (Cons p ps)
  obtain r1 a1 n1 where v: "run (visit_page p) a = (r1, a1, n1)" by (cases "run (visit_page p) a")
  from visit_within [OF Cons.prems(1,2) _ v] have w: "within c a r1 a1 n1" using Cons.prems(3) by simp
  show ?case
  proof (cases "r1 = Done")
    case True
    then have a1: "al_handler a1 = Some CustomTimeout" "0 < al_left a1" "n1 + al_left a1 = al_left a"
      using w Cons.prems(1) by (auto simp: within_def)
    obtain r2 a2 n2 where t: "run (visit_pages ps) a1 = (r2, a2, n2)" by (cases "run (visit_pages ps) a1")
    have "within c a1 r2 a2 n2" using Cons.IH [OF a1(1,2) _ t] Cons.prems(3) by simp
    then show ?thesis using Cons.prems(1,4) v True t a1 by (auto simp: within_def)
  next
    case False
    then show ?thesis using Cons.prems(4) v w by (auto simp: within_def split: ending.splits)
  qed
qed (simp add: within_def)

lemma quit_within:
  assumes "run (Limit 30 CustomTimeout (Catch [OtherException, TimeoutError, CustomTimeout] (call c) Skip)) a = (r, a', n)"
  shows "r = Done \<and> a' = a \<and> n \<le> 30"
proof -
  let ?a = "\<lparr>al_handler = Some CustomTimeout, al_left = 30\<rparr>"
  obtain r1 a1 n1 where q: "run (call c) ?a = (r1, a1, n1)" "r1 \<noteq> Killed"
    "0 < al_left a1 \<and> n1 + al_left a1 = al_left ?a \<or> al_left a1 = 0 \<and> r1 = Raised CustomTimeout \<and> n1 = al_left ?a"
    by (rule call_under_limit [of ?a CustomTimeout c]) simp_all
  have "run (Catch [OtherException, TimeoutError, CustomTimeout] (call c) Skip) ?a = (Done, a1, n1)"
    using q(1,2) by (cases r1) (auto intro: raised.exhaust)
  then show ?thesis using assms q(3) by (auto simp: enter_limit_def cancel_limit_def)
qed

lemma worker_ends:
  assumes "0 < timeout" "list_all (\<lambda>p. fst (pc_close p) \<le> c) pages"
  shows "\<exists>n. run (worker timeout start pages quit) a = (Done, a, n) \<and> n \<le> timeout + c + 30"
proof -
  let ?a = "\<lparr>al_handler = Some CustomTimeout, al_left = timeout\<rparr>" and ?p = "Seq (call start) (visit_pages pages)"
  obtain r1 a1 n1 where st: "run (call start) ?a = (r1, a1, n1)" "r1 \<noteq> Killed" "al_handler a1 = Some CustomTimeout"
    "0 < al_left a1 \<and> n1 + al_left a1 = timeout \<or> al_left a1 = 0 \<and> r1 = Raised CustomTimeout \<and> n1 = timeout"
    by (rule call_under_limit [of ?a CustomTimeout start]) (simp_all add: assms(1))
  obtain r2 a2 n2 where body: "run ?p ?a = (r2, a2, n2)" "r2 \<noteq> Killed" "n2 \<le> timeout + c"
  proof (cases "r1 = Done")
    case True
    then have a1: "0 < al_left a1" "n1 + al_left a1 = timeout" using st(4) by auto
    obtain r a' n where v: "run (visit_pages pages) a1 = (r, a', n)" by (cases "run (visit_pages pages) a1")
    have "within c a1 r a' n" by (rule visits_within [OF st(3) a1(1) assms(2) v])
    then have "r \<noteq> Killed" "n1 + n \<le> timeout + c" using a1(2) by (auto simp: within_def)
    then show ?thesis using that [of r a' "n1 + n"] st(1) True v by simp
  next
    case False
    then show ?thesis using that [of r1 a1 n1] st by (cases r1) auto
  qed
  have caught: "run (Catch [OtherException, TimeoutError, CustomTimeout] ?p Skip) ?a = (Done, a2, n2)"
    using body(1,2) by (cases r2) (auto intro: raised.exhaust)
  obtain r3 a3 n3 where q: "run (Limit 30 CustomTimeout (Catch [OtherException, TimeoutError, CustomTimeout] (call quit) Skip)) a2 = (r3, a3, n3)"
    by (metis prod_cases3)
  have "r3 = Done" "n3 \<le> 30" using quit_within [OF q] by simp_all
  then have "run (task start pages quit) ?a = (Done, a3, n2 + n3)" using caught q by (simp add: task_def del: run.simps(7))
  then have "run (worker timeout start pages quit) a = (Done, a, n2 + n3)"
    by (simp add: worker_def enter_limit_def cancel_limit_def)
  then show ?thesis using body(3) \<open>n3 \<le> 30\<close> by auto
qed



text \<open>
  The closing of a window after the alarm is not limited: a page that is still open when the limit is over keeps the
  worker as long as its window takes to close.
\<close>

theorem closing_is_not_limited:
  assumes "0 < timeout" and "timeout \<le> t"
  shows "run (worker timeout (0, True) [\<lparr>pc_open = (t, ok), pc_close = (c, ok')\<rparr>] (0, True)) a = (Done, a, timeout + c)"
  using assms
  by (simp add: worker_def task_def visit_page_def call_def enter_limit_def cancel_limit_def busy_def)

text \<open>A limit inside another one stops the clock of the outer one: the outer limit starts again with what was left.\<close>

theorem inner_limit_stops_clock:
  assumes "n < t1" and "m < t2" and "k < t1 - n"
  shows "run (Limit t1 e1 (Seq (Call n True) (Seq (Limit t2 e2 (Call m True)) (Call k True)))) a = (Done, a, n + (m + k))"
  using assms by (simp add: enter_limit_def cancel_limit_def busy_def)

theorem inner_limit_stops_clock_witness:
  "run (Limit 10 TimeoutError (Seq (Call 9 True) (Seq (Limit 100 TimeoutError (Call 99 True)) (Call 0 True)))) a = (Done, a, 108)"
  using inner_limit_stops_clock [of 9 10 99 100 0 TimeoutError TimeoutError a] by simp

theorem closing_is_not_limited_witness:
  "run (worker 50 (0, True) [\<lparr>pc_open = (60, True), pc_close = (1000, True)\<rparr>] (0, True)) \<lparr>al_handler = None, al_left = 0\<rparr>
     = (Done, \<lparr>al_handler = None, al_left = 0\<rparr>, 1050)"
  using closing_is_not_limited [of 50 60] by simp

end
