(* ===== verification/Config_Facts.thy ===== *)
theory Config_Facts
  imports Config
begin

text \<open>
  What the configuration of the servers promises: overrides keep its shape, the check of the hosts separates
  them, the computed domains are complete, and a configuration is entered once.
\<close>

section \<open>Overrides keep the shape\<close>

lemma same_shape_trans: "same_shape u v \<Longrightarrow> same_shape v w \<Longrightarrow> same_shape u w"
proof (induction u v arbitrary: w rule: same_shape.induct)
  case (dict d e)
  obtain f where f: "w = CDict f" "map fst e = map fst f" "list_all2 same_shape (map snd e) (map snd f)"
    using dict.prems by (rule same_shape_dictE) auto
  have "list_all2 same_shape xs zs"
    if "list_all2 (\<lambda>u v. same_shape u v \<and> (\<forall>w. same_shape v w \<longrightarrow> same_shape u w)) xs ys" "list_all2 same_shape ys zs" for xs ys zs
    using that by (induction xs ys arbitrary: zs rule: list_all2_induct) (auto simp: list_all2_Cons1)
  from this [OF dict(2) f(3)] show ?case using dict(1) f by (simp add: same_shape.dict)
qed (auto intro: same_shape.leaf)

lemma same_shapes_trans: "same_shapes d e \<Longrightarrow> same_shapes e f \<Longrightarrow> same_shapes d f"
  unfolding same_shapes_def by (auto intro: list_all2_trans [rotated] same_shape_trans)

lemma same_shapes_refl: "same_shapes d d"
  unfolding same_shapes_def by (auto intro: list_all2_refl same_shape_refl)

lemma same_shapes_set: "od_get d k = Some old \<Longrightarrow> same_shape old new \<Longrightarrow> same_shapes d (od_set k new d)"
  by (induction d) (auto simp: same_shape_refl same_shapes_refl split: if_splits)

definition keeps_shape :: "builder \<Rightarrow> builder \<Rightarrow> bool" where
  "keeps_shape b b' \<longleftrightarrow> bd_default b' = bd_default b \<and> bd_ssl b' = bd_ssl b \<and> same_shapes (bd_data b) (bd_data b')"

interpretation shape: state_order keeps_shape
  by unfold_locales (auto simp: keeps_shape_def same_shapes_refl intro: same_shapes_trans)

lemma set_override_steps: "steps keeps_shape (set_override k v)"
  unfolding steps_def
proof
  fix b
  show "keeps_shape b (snd (set_override k v b))"
  proof (cases "\<exists>old new. od_get (bd_data b) k = Some old \<and> merge_value old v = Inr new")
    case True
    then obtain old new where o: "od_get (bd_data b) k = Some old" "merge_value old v = Inr new" by blast
    then have "set_override k v b = (Inr (), b\<lparr>bd_data := od_set k new (bd_data b)\<rparr>)"
      by (simp add: set_override_def and_then_get_state change_def)
    then show ?thesis using same_shapes_set [OF o(1) merge_shape(1) [OF o(2)]] by (simp add: keeps_shape_def)
  next
    case False
    then have "snd (set_override k v b) = b"
      by (cases "od_get (bd_data b) k"; cases "merge_value (the (od_get (bd_data b) k)) v")
         (auto simp: set_override_def and_then_get_state raise_def)
    then show ?thesis by (simp add: shape.le_refl)
  qed
qed

lemma take_overrides_steps: "steps keeps_shape (take_overrides ks override)"
  by (induction ks override rule: take_overrides.induct)
     (auto intro: shape.steps_pure shape.steps_and_then set_override_steps split: option.split)

text \<open>
  C37: overrides never change the shape of the configuration: whatever an override file holds, and whether
  the update succeeds or fails halfway, the builder keeps its keys in order, a dictionary stays a dictionary
  with the same keys at every level, and defaults and SSL environment stay as they are.
\<close>

theorem update_keeps_shape: "keeps_shape b (snd (update_config override b))"
proof -
  have "steps keeps_shape (update_config override)"
    unfolding update_config_def
    by (intro shape.steps_and_then take_overrides_steps shape.steps_if shape.steps_pure)
  then show ?thesis by (simp add: steps_def)
qed

section \<open>Distinct hosts\<close>

text \<open>The labels of a host end with those of another if and only if it is the other or a subdomain of it.\<close>

lemma labels_suffix: "(\<exists>xs. split_on c b = xs @ split_on c a) \<longleftrightarrow> b = a \<or> (\<exists>s. b = s @ c # a)"
proof
  assume "\<exists>xs. split_on c b = xs @ split_on c a"
  then obtain xs where x: "split_on c b = xs @ split_on c a" by blast
  show "b = a \<or> (\<exists>s. b = s @ c # a)"
  proof (cases "xs = []")
    case True
    then show ?thesis using x by (metis append_Nil join_split_on)
  next
    case False
    then have "b = join_with [c] xs @ c # a"
      using x join_with_append [OF False split_on_not_Nil, of "[c]" c a] by (metis append_Cons append_Nil join_split_on)
    then show ?thesis by blast
  qed
qed (auto simp: split_on_append)

lemma drop_suffix_iff: "length xs \<le> length ys \<Longrightarrow> drop (length ys - length xs) ys = xs \<longleftrightarrow> (\<exists>zs. ys = zs @ xs)"
  by (auto intro: exI [of _ "take (length ys - length xs) ys"]) (metis append_take_drop_id)

lemma domains_are_distinct_iff:
  "domains_are_distinct a b \<longleftrightarrow> a \<noteq> b \<and> (\<nexists>s. a = s @ 46 # b) \<and> (\<nexists>s. b = s @ 46 # a)"
proof (cases "length (split_on 46 a) \<le> length (split_on 46 b)")
  case True
  then have "domains_are_distinct a b \<longleftrightarrow> \<not> (\<exists>xs. split_on 46 b = xs @ split_on 46 a)"
    using drop_suffix_iff [OF True] by (auto simp: domains_are_distinct_def Let_def min_absorb1)
  moreover have "\<nexists>s. a = s @ 46 # b" using True by (auto simp: split_on_append)
  ultimately show ?thesis unfolding labels_suffix by auto
next
  case False
  then have "length (split_on 46 b) \<le> length (split_on 46 a)" by simp
  then have "domains_are_distinct a b \<longleftrightarrow> \<not> (\<exists>xs. split_on 46 a = xs @ split_on 46 b)"
    using drop_suffix_iff by (fastforce simp: domains_are_distinct_def Let_def min_absorb2)
  moreover have "\<nexists>s. b = s @ 46 # a" using False by (auto simp: split_on_append)
  ultimately show ?thesis unfolding labels_suffix by auto
qed

text \<open>Being a host or below it.\<close>

definition under :: "ustr \<Rightarrow> ustr \<Rightarrow> bool" where
  "under host d \<longleftrightarrow> d = host \<or> (\<exists>s. d = s @ 46 # host)"

text \<open>
  the check of the two hosts is the right one: it accepts them if and only if no host name is both one of
  the first, itself or under any subdomain, and one of the second, so the origins the tests use as cross-site
  are never the same.
\<close>

theorem domains_are_distinct_correct: "domains_are_distinct a b \<longleftrightarrow> (\<nexists>d. under a d \<and> under b d)"
proof
  assume d: "domains_are_distinct a b"
  show "\<nexists>d. under a d \<and> under b d"
  proof
    assume "\<exists>d. under a d \<and> under b d"
    then obtain d where "\<exists>xs. split_on 46 d = xs @ split_on 46 a" "\<exists>xs. split_on 46 d = xs @ split_on 46 b"
      unfolding labels_suffix under_def by blast
    then have "(\<exists>xs. split_on 46 a = xs @ split_on 46 b) \<or> (\<exists>xs. split_on 46 b = xs @ split_on 46 a)"
      by (auto simp: append_eq_append_conv2) metis
    then show False using d unfolding labels_suffix domains_are_distinct_iff by blast
  qed
next
  assume "\<nexists>d. under a d \<and> under b d"
  then show "domains_are_distinct a b" unfolding domains_are_distinct_iff under_def by blast
qed

section \<open>The computed configuration\<close>

lemma compute_all_keeps:
  "compute_all env cls ks data b = (Inr data', b') \<Longrightarrow> j \<notin> cp ` set ks \<Longrightarrow> od_get data' j = od_get data j"
proof (induction env cls ks data arbitrary: b rule: compute_all.induct)
  case (2 env cls k ks data)
  obtain v b1 where "compute env cls k data b = (Inr v, b1)"
    using 2(2) by (auto simp: and_then_def split: prod.splits sum.splits)
  then show ?case using 2 by (simp add: od_get_set)
qed (simp add: give_def)

text \<open>Every computed value is computed from the final values of the keys that are not computed later.\<close>

lemma compute_all_at:
  assumes "compute_all env cls (pre @ k # post) data b = (Inr data', b')" and "cp k \<notin> cp ` set post"
  shows "\<exists>data1 b1 v b2. compute env cls k data1 b1 = (Inr v, b2) \<and> od_get data' (cp k) = Some v
    \<and> (\<forall>j. j \<notin> cp ` set (k # post) \<longrightarrow> od_get data1 j = od_get data' j)"
  using assms(1)
proof (induction pre arbitrary: data b)
  case Nil
  then obtain v b1 where v: "compute env cls k data b = (Inr v, b1)" "compute_all env cls post (od_set (cp k) v data) b1 = (Inr data', b')"
    by (auto simp: and_then_def split: prod.splits sum.splits)
  have "od_get data' (cp k) = Some v" using compute_all_keeps [OF v(2) assms(2)] by (simp add: od_get_set)
  moreover have "\<forall>j. j \<notin> cp ` set (k # post) \<longrightarrow> od_get data j = od_get data' j"
    using compute_all_keeps [OF v(2)] by (auto simp: od_get_set)
  ultimately show ?case using v(1) by blast
next
  case (Cons p pre)
  then show ?case by (auto simp: and_then_def split: prod.splits sum.splits)
qed

lemma enter_config_computes:
  assumes "enter_config env cls b = (Inr c, b')"
  shows "compute_all env cls (computed_properties cls) (bd_data b) b = (Inr c, b')" "bd_ssl b = None"
proof -
  have e: "bd_ssl b = None \<and> and_then (compute_all env cls (computed_properties cls) (bd_data b)) (\<lambda>data. of_res (new_config data)) b = (Inr c, b')"
    using assms by (auto simp: enter_config_def and_then_get_state raise_def split: if_splits)
  then show "bd_ssl b = None" by blast
  obtain r b2 where r: "compute_all env cls (computed_properties cls) (bd_data b) b = (r, b2)" by (cases "compute_all env cls (computed_properties cls) (bd_data b) b")
  then show "compute_all env cls (computed_properties cls) (bd_data b) b = (Inr c, b')"
    using e by (cases r) (auto simp: of_res_def new_config_def split: if_splits)
qed

lemma od_get_dict_update: "od_get (dict_update [] kvs) j = map_of (rev kvs) j"
  unfolding dict_update_def by (rule od_get_put_all)

text \<open>An entry of a nested dictionary of domains.\<close>

definition domain_entry :: "cdata \<Rightarrow> ustr \<Rightarrow> ustr \<Rightarrow> cv option" where
  "domain_entry ds name sub = (case od_get ds name of Some (CDict d) \<Rightarrow> od_get d sub | _ \<Rightarrow> None)"

lemma rmap_lookup:
  assumes "rmap (\<lambda>(k, v). rbind (f v) (\<lambda>w. Inr (k, w))) kvs = Inr rv"
  shows "map fst rv = map fst kvs" "map_of kvs k = Some v \<Longrightarrow> \<exists>w. f v = Inr w \<and> map_of rv k = Some w"
proof -
  have "list_all2 (\<lambda>(k, v) r. rbind (f v) (\<lambda>w. Inr (k, w)) = Inr r) kvs rv" using assms by (simp add: rmap_Inr_iff split_def)
  then have "map fst rv = map fst kvs \<and> (\<forall>v. map_of kvs k = Some v \<longrightarrow> (\<exists>w. f v = Inr w \<and> map_of rv k = Some w))"
    by (induction kvs rv rule: list_all2_induct) (auto simp: rbind_eq_Inr)
  then show "map fst rv = map fst kvs" "map_of kvs k = Some v \<Longrightarrow> \<exists>w. f v = Inr w \<and> map_of rv k = Some w" by auto
qed

lemma host_domains_get:
  assumes "host_domains env k data (CText h) = Inr d" and "data_item k data = Inr (CSet (map CText subs))"
    and "t \<in> set subs"
  shows "\<exists>a. ce_idna env t = Some a \<and> od_get d t = Some (CText (a @ 46 # h))"
proof -
  have dot: "cp ''.'' = [46]" by code_simp
  obtain es where es: "rmap (subdomain_entry env (CText h)) (map CText subs) = Inr es" "d = dict_update [] es"
    using assms(1,2) by (auto simp: host_domains_def elements_def rbind_eq_Inr)
  have all: "list_all2 (\<lambda>s e. \<exists>a. ce_idna env s = Some a \<and> e = (s, CText (a @ 46 # h))) subs es"
    using es(1) by (auto simp: rmap_Inr_iff list_all2_map1 subdomain_entry_def text_of_value_def rbind_eq_Inr dot elim!: list_all2_mono)
  then obtain a where a: "ce_idna env t = Some a" "(t, CText (a @ 46 # h)) \<in> set es"
    using assms(3) by (auto simp: list_all2_conv_all_nth in_set_conv_nth) metis
  have "v = CText (a @ 46 # h)" if "(t, v) \<in> set es" for v
    using all that a(1) by (auto simp: list_all2_conv_all_nth in_set_conv_nth)
  then have "map_of (rev es) t = Some (CText (a @ 46 # h))"
    using a(2) by (metis map_of_SomeD map_of_eq_None_iff fst_conv imageI not_None_eq set_rev)
  then show ?thesis using a(1) es(2) by (simp add: od_get_dict_update)
qed

lemma od_inv_dict_update: "od_inv d \<Longrightarrow> od_inv (dict_update d kvs)"
  unfolding dict_update_def by (rule od.inv_put_all)

lemma in_dict_iff: "od_inv d \<Longrightarrow> (k, v) \<in> set d \<longleftrightarrow> od_get d k = Some v"
  by (simp add: od_get_def od_inv_def od_keys_def map_of_eq_Some_iff)

lemma get_domains_entries:
  assumes "get_domains env data = Inr v" and "config_hosts data = Inr hosts" and "od_inv hosts"
  obtains ds where "v = CDict ds" "od_inv ds"
    "\<And>name host. od_get hosts name = Some host \<Longrightarrow> \<exists>d. host_domains env ''subdomains'' data host = Inr d
       \<and> od_get ds name = Some (CDict (od_set [] host d))"
    "\<And>name x. od_get ds name = Some x \<Longrightarrow> \<exists>d. x = CDict d \<and> od_inv d"
proof -
  let ?f = "\<lambda>host. rbind (host_domains env ''subdomains'' data host) (\<lambda>d. Inr (CDict (od_set [] host d)))"
  have assoc: "rbind (host_domains env ''subdomains'' data host) (\<lambda>d. Inr (name, CDict (od_set [] host d)))
      = rbind (?f host) (\<lambda>w. Inr (name, w))" for name host
    by (cases "host_domains env ''subdomains'' data host") auto
  obtain rv where rv: "rmap (\<lambda>(name, host). rbind (?f host) (\<lambda>w. Inr (name, w))) hosts = Inr rv" "v = CDict (dict_update [] rv)"
    using assms(1,2) by (auto simp: get_domains_def rbind_eq_Inr assoc)
  have keys: "map fst rv = map fst hosts" using rmap_lookup(1) [OF rv(1)] .
  then have "distinct (map fst rv)" using assms(3) by (simp add: od_inv_def od_keys_def)
  then have "map_of (rev rv) = map_of rv" by (subst map_of_inject_set) (auto simp: rev_map [symmetric])
  then have ds: "od_get (dict_update [] rv) j = map_of rv j" for j by (simp add: od_get_dict_update)
  show ?thesis
  proof (rule that [OF rv(2)])
    show "od_inv (dict_update [] rv)" by (simp add: od_inv_dict_update)
  next
    fix name host assume "od_get hosts name = Some host"
    then obtain w where "?f host = Inr w" "map_of rv name = Some w" using rmap_lookup(2) [OF rv(1)] by (auto simp: od_get_def)
    then show "\<exists>d. host_domains env ''subdomains'' data host = Inr d \<and> od_get (dict_update [] rv) name = Some (CDict (od_set [] host d))"
      by (auto simp: ds rbind_eq_Inr)
  next
    fix name x assume "od_get (dict_update [] rv) name = Some x"
    then have x: "map_of rv name = Some x" by (simp add: ds)
    then have "name \<in> set (map fst hosts)" unfolding keys [symmetric] by (force dest: map_of_SomeD)
    then obtain host where h: "map_of hosts name = Some host" by (metis list.set_map map_of_eq_None_iff not_None_eq)
    obtain w where "?f host = Inr w" "map_of rv name = Some w" using rmap_lookup(2) [OF rv(1) h] by blast
    then show "\<exists>d. x = CDict d \<and> od_inv d"
      using x by (auto simp: rbind_eq_Inr host_domains_def od_inv_dict_update od.inv_put)
  qed
qed

lemma domain_values_set:
  assumes "domain_values k data = Inr vs" "od_get data (cp k) = Some (CDict ds)" "od_inv ds"
    and "\<And>name x. od_get ds name = Some x \<Longrightarrow> \<exists>d. x = CDict d \<and> od_inv d"
  shows "v \<in> set vs \<longleftrightarrow> (\<exists>name sub. domain_entry ds name sub = Some v)"
proof -
  obtain vss where vss: "rmap (\<lambda>(_, d). rbind (dict_of d) (\<lambda>d. Inr (map snd d))) ds = Inr vss" "vs = remdups (concat vss)"
    using assms(1,2) by (auto simp: domain_values_def data_item_def dict_of_def rbind_eq_Inr)
  have "list_all2 (\<lambda>(_, x) vs. \<exists>d. x = CDict d \<and> vs = map snd d) ds vss"
    using vss(1) by (auto simp: rmap_Inr_iff rbind_eq_Inr dict_of_def split: cv.splits elim!: list_all2_mono)
  then have "set (concat vss) = (\<Union>(_, x) \<in> set ds. case x of CDict d \<Rightarrow> snd ` set d | _ \<Rightarrow> {})"
    by (induction ds vss rule: list_all2_induct) auto
  then have "v \<in> set vs \<longleftrightarrow> (\<exists>name x. od_get ds name = Some x \<and> v \<in> (case x of CDict d \<Rightarrow> snd ` set d | _ \<Rightarrow> {}))"
    by (auto simp: vss(2) in_dict_iff [OF assms(3), symmetric])
  also have "\<dots> \<longleftrightarrow> (\<exists>name sub. domain_entry ds name sub = Some v)"
  proof -
    have "v \<in> snd ` set d \<longleftrightarrow> (\<exists>sub. od_get d sub = Some v)" if "od_inv d" for d
      by (force simp: in_dict_iff [OF that, symmetric])
    note eq = this
    have "(\<exists>x. od_get ds name = Some x \<and> v \<in> (case x of CDict d \<Rightarrow> snd ` set d | _ \<Rightarrow> {}))
        \<longleftrightarrow> (\<exists>sub. domain_entry ds name sub = Some v)" for name
    proof (cases "od_get ds name")
      case (Some x)
      then obtain d where "x = CDict d" "od_inv d" using assms(4) by blast
      then show ?thesis using Some eq [of d] by (simp add: domain_entry_def)
    qed (simp add: domain_entry_def)
    then show ?thesis by simp
  qed
  finally show ?thesis .
qed

lemma computed_split:
  "computed_properties cls = (case cls of Wptserve \<Rightarrow> [] | Serve \<Rightarrow> [''ws_doc_root'']) @ [''logging'', ''paths'', ''server_host'', ''ports'']
     @ ''domains'' # [''not_domains'', ''all_domains'', ''domains_set'', ''not_domains_set'', ''all_domains_set'', ''ssl_config'']"
  "computed_properties cls = (case cls of Wptserve \<Rightarrow> [] | Serve \<Rightarrow> [''ws_doc_root'']) @ [''logging'', ''paths'', ''server_host'', ''ports'',
     ''domains'', ''not_domains'', ''all_domains''] @ ''domains_set'' # [''not_domains_set'', ''all_domains_set'', ''ssl_config'']"
  by (simp_all add: computed_properties_def)

text \<open>
  the configuration lists every domain of the tests: for each host, the browser host and the alternate
  ones, the host itself and the IDNA form of every subdomain under it; and the set of domains is exactly the
  set of these entries.
\<close>

theorem config_domains_complete:
  assumes "enter_config env cls b = (Inr c, b')"
    and "od_get (bd_data b) (cp ''alternate_hosts'') = Some (CDict alts)" and "od_inv alts"
    and "od_get (bd_data b) (cp ''browser_host'') = Some browser"
    and "od_get (bd_data b) (cp ''subdomains'') = Some (CSet (map CText subs))" and "[] \<notin> set subs"
  shows "\<exists>ds xs. od_get c (cp ''domains'') = Some (CDict ds) \<and> od_get c (cp ''domains_set'') = Some (CSet xs)
    \<and> (\<forall>name h. od_get (od_set [] browser alts) name = Some (CText h) \<longrightarrow>
         domain_entry ds name [] = Some (CText h)
         \<and> (\<forall>t \<in> set subs. \<exists>a. ce_idna env t = Some a \<and> domain_entry ds name t = Some (CText (a @ 46 # h))))
    \<and> (\<forall>v. v \<in> set xs \<longleftrightarrow> (\<exists>name sub. domain_entry ds name sub = Some v))"
proof -
  note all = enter_config_computes(1) [OF assms(1)]
  have init: "od_get c (cp k) = od_get (bd_data b) (cp k)" if "k \<in> {''alternate_hosts'', ''browser_host'', ''subdomains''}" for k
    by (rule compute_all_keeps [OF all]) (use that in \<open>auto simp: computed_properties_def split: builder_class.splits\<close>)
  obtain data v where d: "get_domains env data = Inr v" "od_get c (cp ''domains'') = Some v"
    and agree: "\<forall>j. j \<notin> cp ` set (''domains'' # [''not_domains'', ''all_domains'', ''domains_set'', ''not_domains_set'',
      ''all_domains_set'', ''ssl_config'']) \<longrightarrow> od_get data j = od_get c j"
    using compute_all_at [OF all [unfolded computed_split(1) append_assoc [symmetric]]]
    by (auto simp: compute_def of_res_def)
  have same: "od_get data (cp k) = od_get (bd_data b) (cp k)" if "k \<in> {''alternate_hosts'', ''browser_host'', ''subdomains''}" for k
    using agree that init [OF that] by auto
  have hosts: "config_hosts data = Inr (od_set [] browser alts)" "od_get alts [] = None"
    using d(1) same assms(2,4)
    by (auto simp: get_domains_def config_hosts_def data_item_def rbind_eq_Inr split: if_splits)
  have inv: "od_inv (od_set [] browser alts)" using assms(3) by (rule od.inv_put)
  obtain ds where ds: "v = CDict ds" "od_inv ds"
    "\<And>name host. od_get (od_set [] browser alts) name = Some host \<Longrightarrow> \<exists>d. host_domains env ''subdomains'' data host = Inr d
       \<and> od_get ds name = Some (CDict (od_set [] host d))"
    "\<And>name x. od_get ds name = Some x \<Longrightarrow> \<exists>d. x = CDict d \<and> od_inv d"
    by (rule get_domains_entries [OF d(1) hosts(1) inv]) blast
  obtain data2 w where w: "get_domains_set data2 = Inr w" "od_get c (cp ''domains_set'') = Some w"
    and agree2: "od_get data2 (cp ''domains'') = od_get c (cp ''domains'')"
    using compute_all_at [OF all [unfolded computed_split(2) append_assoc [symmetric]]]
    by (auto simp: compute_def of_res_def)
  obtain xs where xs: "domain_values ''domains'' data2 = Inr xs" "w = CSet xs"
    using w(1) by (auto simp: get_domains_set_def rbind_eq_Inr)
  have "domain_entry ds name [] = Some (CText h)
      \<and> (\<forall>t \<in> set subs. \<exists>a. ce_idna env t = Some a \<and> domain_entry ds name t = Some (CText (a @ 46 # h)))"
    if h: "od_get (od_set [] browser alts) name = Some (CText h)" for name h
  proof -
    obtain d' where d': "host_domains env ''subdomains'' data (CText h) = Inr d'" "od_get ds name = Some (CDict (od_set [] (CText h) d'))"
      using ds(3) [OF h] by blast
    have "data_item ''subdomains'' data = Inr (CSet (map CText subs))" using same assms(5) by (simp add: data_item_def)
    from host_domains_get [OF d'(1) this] show ?thesis
      using d'(2) assms(6) by (auto simp: domain_entry_def od_get_set)
  qed
  then show ?thesis
    using domain_values_set [OF xs(1) _ ds(2,4)] agree2 d(2) ds(1) w(2) xs(2) by auto
qed

definition demo_cfg_env :: cfg_env where
  "demo_cfg_env = \<lparr>ce_idna = Some, ce_port = (\<lambda>n. 50000 + int n), ce_openssl_new = (\<lambda>_. Some OSError),
     ce_openssl_paths = (\<lambda>_ _. Inl OSError)\<rparr>"

definition demo_builder :: builder where
  "demo_builder = \<lparr>bd_default = wptserve_default,
     bd_data = od_set (cp ''not_subdomains'') (CSet [CText (cp ''no'')])
       (od_set (cp ''subdomains'') (CSet [CText (cp ''sub''), CText (cp ''sub.sub'')]) wptserve_default), bd_ssl = None\<rparr>"

lemma demo_builder_new:
  "new_builder wptserve_default (CSet [CText (cp ''sub''), CText (cp ''sub.sub'')]) (CSet [CText (cp ''no'')]) [] = Inr demo_builder"
  by code_simp

lemma demo_enters: "isl (fst (enter_config demo_cfg_env Wptserve demo_builder)) = False"
  by code_simp

theorem config_domains_complete_witness:
  "\<exists>c b' ds xs. enter_config demo_cfg_env Wptserve demo_builder = (Inr c, b')
     \<and> od_get c (cp ''domains'') = Some (CDict ds) \<and> od_get c (cp ''domains_set'') = Some (CSet xs)
     \<and> domain_entry ds [] (cp ''sub'') = Some (CText (cp ''sub.localhost'')) \<and> CText (cp ''sub.localhost'') \<in> set xs"
proof -
  obtain c b' where e: "enter_config demo_cfg_env Wptserve demo_builder = (Inr c, b')"
    using demo_enters by (metis isl_def prod.collapse sum.exhaust)
  have "od_get (bd_data demo_builder) (cp ''alternate_hosts'') = Some (CDict [])"
    "od_get (bd_data demo_builder) (cp ''browser_host'') = Some (CText (cp ''localhost''))"
    "od_get (bd_data demo_builder) (cp ''subdomains'') = Some (CSet (map CText [cp ''sub'', cp ''sub.sub'']))"
    by code_simp+
  from config_domains_complete [OF e this(1) od_inv_Nil this(2,3)]
  obtain ds xs where "od_get c (cp ''domains'') = Some (CDict ds)" "od_get c (cp ''domains_set'') = Some (CSet xs)"
    and h: "\<forall>name h. od_get (od_set [] (CText (cp ''localhost'')) []) name = Some (CText h) \<longrightarrow>
         domain_entry ds name [] = Some (CText h)
         \<and> (\<forall>t \<in> set [cp ''sub'', cp ''sub.sub'']. \<exists>a. ce_idna demo_cfg_env t = Some a \<and> domain_entry ds name t = Some (CText (a @ 46 # h)))"
    and x: "\<forall>v. v \<in> set xs \<longleftrightarrow> (\<exists>name sub. domain_entry ds name sub = Some v)"
    by (auto simp: cp_def)
  moreover have "cp ''sub'' @ 46 # cp ''localhost'' = cp ''sub.localhost''" by code_simp
  then have "domain_entry ds [] (cp ''sub'') = Some (CText (cp ''sub.localhost''))"
    using h [rule_format, of "[]" "cp ''localhost''"] by (auto simp: demo_cfg_env_def)
  ultimately show ?thesis using e by blast
qed

section \<open>Entering once\<close>

lemma get_ssl_config_sets: "get_ssl_config env data b = (Inr v, b') \<Longrightarrow> bd_ssl b' \<noteq> None"
  by (auto simp: get_ssl_config_def and_then_def set_ssl_def act_simps split: prod.splits sum.splits ssl_type.splits option.splits)

lemma compute_all_last:
  "compute_all env cls (pre @ [k]) data b = (Inr data', b') \<Longrightarrow> \<exists>data1 b1 v. compute env cls k data1 b1 = (Inr v, b')"
  by (induction pre arbitrary: data b) (auto simp: and_then_def give_def split: prod.splits sum.splits)

text \<open>
  the configuration is valid in one context at a time: a builder that was entered is refused until it is
  left, leaving one that was not entered is an error, and after leaving it can be entered again.
\<close>

theorem entered_once:
  assumes "enter_config env cls b = (Inr c, b')"
  shows "enter_config env cls b' = (Inl ValueError, b') \<and> exit_config b = (Inl AttributeError, b)
    \<and> exit_config b' = (Inr (), b'\<lparr>bd_ssl := None\<rparr>)"
proof -
  have "computed_properties cls = butlast (computed_properties cls) @ [''ssl_config'']" by (cases cls) (simp_all add: computed_properties_def)
  then obtain data1 b1 v where "compute env cls ''ssl_config'' data1 b1 = (Inr v, b')"
    using compute_all_last enter_config_computes(1) [OF assms] by metis
  then have "bd_ssl b' \<noteq> None" using get_ssl_config_sets by (simp add: compute_def)
  then show ?thesis
    using enter_config_computes(2) [OF assms]
    by (simp add: enter_config_def exit_config_def and_then_get_state act_simps set_ssl_def)
qed

theorem entered_once_witness:
  "\<exists>c b'. enter_config demo_cfg_env Wptserve demo_builder = (Inr c, b')
     \<and> enter_config demo_cfg_env Wptserve b' = (Inl ValueError, b')"
proof -
  obtain c b' where e: "enter_config demo_cfg_env Wptserve demo_builder = (Inr c, b')"
    using demo_enters by (metis isl_def prod.collapse sum.exhaust)
  then show ?thesis using entered_once [OF e] by blast
qed

text \<open>\<open>get\<close> of a name the configuration does not have raises instead of giving the default.\<close>

lemma config_get_missing: "od_get c k = None \<Longrightarrow> config_get c k dflt = Inl ValueError"
  by (simp add: config_get_def config_getitem_def)

end
