(* ===== verification/Wrapper_Facts.thy ===== *)
theory Wrapper_Facts
  imports Wrappers
begin

text \<open>
  What the test pages promise: the page and the worker it starts belong to the same file, and metadata cannot
  leave the attribute or element it is put into.
\<close>

section \<open>Paths\<close>

lemma replace_suffixes_step:
  "src \<noteq> [] \<Longrightarrow> replace_suffixes b ((src, disk, res) # items) (p @ cp src)
     = replace_suffixes b items (p @ cp (if b then res else disk))"
  by (simp add: replace_end_def ends_with_iff cp_def)

text \<open>Texts that end differently.\<close>

lemma not_ends_with: "last s \<noteq> last t \<Longrightarrow> s \<noteq> [] \<Longrightarrow> t \<noteq> [] \<Longrightarrow> \<not> ends_with (cp s) (p @ cp t)"
  by (auto simp: ends_with_iff cp_def) (metis last_appendR last_map map_is_Nil_conv of_char_eq_iff)


lemma replace_suffixes_skip:
  "\<not> ends_with (cp src) path \<Longrightarrow> replace_suffixes b ((src, disk, res) # items) path = replace_suffixes b items path"
  by simp

lemma ends_withE: "ends_with (cp s) path \<Longrightarrow> (\<And>p. path = p @ cp s \<Longrightarrow> P) \<Longrightarrow> P"
  by (auto simp: ends_with_iff)

lemma one_suffix:
  assumes "src \<noteq> []"
  shows "(\<exists>p. replace_suffixes False [(src, disk, res)] path = Inr (p @ cp disk)
      \<and> replace_suffixes True [(src, disk, res)] path = Inr (p @ cp res))
    \<or> (replace_suffixes False [(src, disk, res)] path = Inr path \<and> replace_suffixes True [(src, disk, res)] path = Inr path)"
proof (cases "ends_with (cp src) path")
  case True
  then obtain p where "path = p @ cp src" by (rule ends_withE)
  then show ?thesis using replace_suffixes_step [OF assms, of _ disk res "[]" p] by auto
qed simp

lemma two_suffixes:
  assumes "src \<noteq> []" "src2 \<noteq> []" "last src2 \<noteq> last disk" "last src2 \<noteq> last res" "disk \<noteq> []" "res \<noteq> []"
  shows "(\<exists>p. replace_suffixes False [(src, disk, res), (src2, d2, d2)] path = Inr (p @ cp disk)
      \<and> replace_suffixes True [(src, disk, res), (src2, d2, d2)] path = Inr (p @ cp res))
    \<or> (\<exists>q. replace_suffixes False [(src, disk, res), (src2, d2, d2)] path = Inr q
      \<and> replace_suffixes True [(src, disk, res), (src2, d2, d2)] path = Inr q)"
proof (cases "ends_with (cp src) path")
  case True
  then obtain p where "path = p @ cp src" by (rule ends_withE)
  moreover have "\<not> ends_with (cp src2) (p @ cp disk)" "\<not> ends_with (cp src2) (p @ cp res)"
    using assms(2-6) not_ends_with by blast+
  ultimately show ?thesis using replace_suffixes_step [OF assms(1), of _ disk res "[(src2, d2, d2)]" p] by auto
next
  case False
  then show ?thesis using one_suffix [OF assms(2), of d2 d2 path] by auto
qed

lemma classic_file: "wrapped_path Classic_Worker_Handler False (p @ cp ''.any.worker.js'') = Inr (p @ cp ''.any.js'')"
  and module_file: "wrapped_path Module_Worker_Handler False (p @ cp ''.any.worker-module.js'') = Inr (p @ cp ''.any.js'')"
  by (simp_all only: wrapped_path_def path_replace_def handler_class.case replace_suffixes_step list.distinct
      not_Cons_self2 simp_thms if_False replace_suffixes.simps(1))

definition shares_file :: "handler_class \<Rightarrow> ustr \<Rightarrow> bool" where
  "shares_file c path \<longleftrightarrow> (\<exists>f r. wrapped_path c False path = Inr f \<and> wrapped_path c True path = Inr r
     \<and> (r = f \<or> wrapped_path Classic_Worker_Handler False r = Inr f \<or> wrapped_path Module_Worker_Handler False r = Inr f))"

definition worker_of :: "string \<Rightarrow> string \<Rightarrow> bool" where
  "worker_of disk res \<longleftrightarrow> disk = res \<or> disk = ''.any.js'' \<and> res \<in> {''.any.worker.js'', ''.any.worker-module.js''}"

lemma shares_one:
  assumes "path_replace c = [(src, disk, res)]" "src \<noteq> []" "worker_of disk res"
  shows "shares_file c path"
  using one_suffix [OF assms(2), of disk res path] assms(3)
  unfolding shares_file_def wrapped_path_def [of c] assms(1) worker_of_def
  by (elim disjE exE conjE) (use classic_file module_file in auto)

lemma shares_two:
  assumes "path_replace c = [(src, disk, res), (src2, d2, d2)]" "src \<noteq> []" "src2 \<noteq> []" "worker_of disk res"
    "last src2 \<noteq> CHR ''s''" "last disk = CHR ''s''" "last res = CHR ''s''" "disk \<noteq> []" "res \<noteq> []"
  shows "shares_file c path"
proof -
  have "last src2 \<noteq> last disk" "last src2 \<noteq> last res" using assms(5-7) by auto
  from two_suffixes [OF assms(2,3) this assms(8,9), of d2 path] assms(4) show ?thesis
    unfolding shares_file_def wrapped_path_def [of c] assms(1) worker_of_def
    by (elim disjE exE conjE) (use classic_file module_file in auto)
qed

lemma every_class_shares: "shares_file c path"
proof -
  have none: "path_replace c = [] \<Longrightarrow> shares_file c path" by (simp add: shares_file_def wrapped_path_def)
  show ?thesis
    by (cases c; (rule none, simp add: path_replace_def; fail
        | rule shares_one, simp add: path_replace_def, simp, simp add: worker_of_def; fail
        | rule shares_two, simp add: path_replace_def, simp_all add: worker_of_def; fail))
qed

text \<open>
  the page and the script it starts belong together: for every path, the resource a page loads is the file
  it is made of, or the URL of a worker script that the worker handlers make of the same file.
\<close>

theorem page_and_worker_share_file:
  "\<exists>f r. wrapped_path c False path = Inr f \<and> wrapped_path c True path = Inr r
     \<and> (r = f \<or> wrapped_path Classic_Worker_Handler False r = Inr f \<or> wrapped_path Module_Worker_Handler False r = Inr f)"
  using every_class_shares by (simp add: shares_file_def)

section \<open>Metadata stays in its place\<close>

lemma replace_sub_avoids:
  "c \<notin> set new \<Longrightarrow> c \<notin> set (replace_sub [c] new s)"
  by (simp add: replace_sub_single)

lemma replace_sub_chars: "set (replace_sub [c] new s) \<subseteq> set s \<union> set new"
  by (auto simp: replace_sub_single split: if_splits)

text \<open>
  what a test file says in its metadata stays where the page puts it: a title contains no angle bracket that
  could open a tag, and the address of a script no quote that could end the attribute.
\<close>

theorem metadata_stays_in_place:
  assumes "\<not> worker_class c" and "c \<noteq> Shadow_Realm_Handler"
  shows "(\<exists>t. meta_replacement c (cp ''title'') v = Some (cp ''<title>'' @ t @ cp ''</title>'') \<and> 60 \<notin> set t)
    \<and> (\<exists>a. script_replacement c (cp ''script'') v = Some (cp ''<script src='' @ quote @ a @ quote @ cp ''></script>'') \<and> 34 \<notin> set a)"
proof
  show "\<exists>t. meta_replacement c (cp ''title'') v = Some (cp ''<title>'' @ t @ cp ''</title>'') \<and> 60 \<notin> set t"
    using assms(1) replace_sub_avoids [of 60 "cp ''&lt;''"]
    by (intro exI [of _ "replace_sub [60] (cp ''&lt;'') (replace_sub [38] (cp ''&amp;'') v)"])
      (simp add: meta_replacement_def cp_def)
  show "\<exists>a. script_replacement c (cp ''script'') v = Some (cp ''<script src='' @ quote @ a @ quote @ cp ''></script>'') \<and> 34 \<notin> set a"
    using assms replace_sub_avoids [of 34 "cp ''&quot;''"]
    by (intro exI [of _ "replace_sub [34] (cp ''&quot;'') (replace_sub [38] (cp ''&amp;'') v)"])
      (simp add: script_replacement_def cp_def)
qed

theorem metadata_stays_in_place_witness:
  "\<exists>a. script_replacement Window_Handler (cp ''script'') (page [''a^ onload=^x'']) = Some (cp ''<script src='' @ quote @ a @ quote @ cp ''></script>'')
     \<and> 34 \<notin> set a"
  using metadata_stays_in_place [of Window_Handler "page [''a^ onload=^x'']", THEN conjunct2] by (simp add: worker_class_def)

text \<open>The page for a shadow realm puts the address into a script without escaping it.\<close>

lemma shadow_realm_is_not_escaped:
  "script_replacement Shadow_Realm_Handler (cp ''script'') (page [''a^); f(^'']) = Some (page [''await import(^a^); f(^^);''])"
  by code_simp

end
