(* ===== verification/Template_Facts.thy ===== *)
theory Template_Facts
  imports Templates
begin

text \<open>
  What the template language promises: only expressions are replaced, escaped values carry no markup, paths
  stay inside the document root, and variables keep their values.
\<close>

section \<open>Text and substitutions\<close>

lemma match_braces_plain: "c \<noteq> CHR ''{'' \<Longrightarrow> match_braces (c # s) = None"
  by (simp add: match_braces_def starts_with_def)

lemma match_braces_at:
  assumes "CHR ''}'' \<notin> set e" shows "match_braces (''{{'' @ e @ ''}}'' @ post) = Some (e, post)"
proof -
  have "takeWhile (\<lambda>c. c \<noteq> CHR ''}'') (e @ ''}}'' @ post) = e" using assms by (subst takeWhile_append2) auto
  then show ?thesis by (simp add: match_braces_def starts_with_def eval_nat_numeral)
qed

lemma and_then_prefix:
  "and_then (and_then m (\<lambda>r. give (a @ r))) (\<lambda>r. give (c # r)) = and_then m (\<lambda>r. give (c # a @ r))"
  by (simp add: and_then_assoc)


section \<open>Escaping\<close>

lemma utf8_point_bytes:
  assumes "utf8_point c = Some bs" "b \<in> set bs" shows "b < 256 \<and> (b < 128 \<longrightarrow> c = b)"
proof -
  have m: "n mod 64 < 64" for n :: nat by simp
  have d: "c < 2048 \<Longrightarrow> c div 64 < 32" "c < 65536 \<Longrightarrow> c div 4096 < 16" "c < 1114112 \<Longrightarrow> c div 262144 < 5"
    by (rule less_mult_imp_div_less, simp)+
  consider "c < 128" "bs = [c]" | "c < 2048" "bs = [192 + c div 64, 128 + c mod 64]" | "56448 \<le> c" "c \<le> 56575" "bs = [c - 56320]"
    | "c < 65536" "bs = [224 + c div 4096, 128 + c div 64 mod 64, 128 + c mod 64]"
    | "c < 1114112" "bs = [240 + c div 262144, 128 + c div 4096 mod 64, 128 + c div 64 mod 64, 128 + c mod 64]"
    using assms(1) unfolding utf8_point_def by (metis option.distinct(1) option.inject)
  then show ?thesis
  proof cases
    case 2
    then show ?thesis using assms(2) d(1) m [of c] by auto
  next
    case 4
    then show ?thesis using assms(2) d(2) m [of c] m [of "c div 64"] by auto
  next
    case 5
    then show ?thesis using assms(2) d(3) m [of c] m [of "c div 64"] m [of "c div 4096"] by auto
  qed (use assms(2) in auto)
qed

lemma entities:
  "cp ''&amp;'' = [38, 97, 109, 112, 59]" "cp ''&lt;'' = [38, 108, 116, 59]" "cp ''&gt;'' = [38, 103, 116, 59]"
  "cp ''&quot;'' = [38, 113, 117, 111, 116, 59]" "cp ''&#x27;'' = [38, 35, 120, 50, 55, 59]"
  by code_simp+

lemma escape_html_safe: "{60, 62, 34, 39} \<inter> set (escape_html t) = {}"
proof (induction t)
  case (Cons x t)
  have "escape_html (x # t) = (if x = 38 then [38, 97, 109, 112, 59] else if x = 60 then [38, 108, 116, 59]
      else if x = 62 then [38, 103, 116, 59] else if x = 34 then [38, 113, 117, 111, 116, 59]
      else if x = 39 then [38, 35, 120, 50, 55, 59] else [x]) @ escape_html t"
    by (simp add: escape_html_def entities)
  then show ?case using Cons by simp
qed (simp add: escape_html_def)

lemma encode_keeps_ascii:
  assumes "encode (DText t) = Inr out" "c \<in> set out" "(of_char c :: nat) < 128"
  shows "of_char c \<in> set t"
proof -
  obtain bss where bss: "rmap (\<lambda>c. of_option UnicodeError (utf8_point c)) t = Inr bss" "out = map char_of (concat bss)"
    using assms(1) by (auto simp: encode_def utf8_encode_def rbind_eq_Inr split: if_splits)
  obtain b bs where b: "b \<in> set bs" "bs \<in> set bss" "c = char_of b" using assms(2) bss(2) by auto
  obtain x where x: "x \<in> set t" "utf8_point x = Some bs" using rmap_in [OF bss(1) b(2)] by auto
  have "b < 256" "b < 128 \<longrightarrow> x = b" using utf8_point_bytes [OF x(2) b(1)] by auto
  moreover have "of_char c = b" using b(3) \<open>b < 256\<close> by simp
  ultimately show ?thesis using assms(3) x(1) by simp
qed

definition markup_char :: "char \<Rightarrow> bool" where
  "markup_char c \<longleftrightarrow> c = CHR ''<'' \<or> c = CHR ''>'' \<or> c = CHR 0x22 \<or> c = CHR 0x27"

text \<open>
  C33: with HTML escaping no substitution can open a tag or leave an attribute: whatever the expression and
  the request, the bytes that replace it contain neither angle brackets nor quotes.
\<close>

theorem html_substitution_is_safe:
  assumes "config_replacement env (Some ''html'') e st = (Inr out, st')"
  shows "\<not> list_ex markup_char out"
proof -
  obtain t where t: "encode (DText (escape_html t)) = Inr out"
    using assms unfolding config_replacement_def
    by (auto simp: and_then_def escape_value_def act_simps split: prod.splits sum.splits)
  have "\<not> markup_char c" if "c \<in> set out" for c
  proof
    assume "markup_char c"
    then have "(of_char c :: nat) \<in> {60, 62, 34, 39}" by (auto simp: markup_char_def)
    moreover from this have "(of_char c :: nat) < 128" by auto
    then have "of_char c \<in> set (escape_html t)" by (rule encode_keeps_ascii [OF t that])
    ultimately show False using escape_html_safe [of t] by (metis IntI emptyE)
  qed
  then show ?thesis by (auto simp: list_ex_iff)
qed

section \<open>Paths stay inside the document root\<close>

lemma common_length_take: "take (common_length xs ys) xs = take (common_length xs ys) ys"
  by (induction xs ys rule: common_length.induct) auto

lemma common_length_le: "common_length xs ys \<le> length xs"
  by (induction xs ys rule: common_length.induct) auto

text \<open>
  \<open>fs_path\<close> never leaves the document root: if it gives a path, the components of the root are its first
  components, whatever dots and slashes the argument and the requested path have.
\<close>

theorem fs_path_inside_root:
  assumes "fs_path env path = Inr p"
  shows "\<exists>rest. norm_components p = norm_components (te_doc_root env) @ rest"
proof -
  let ?ss = "norm_components (te_doc_root env)" and ?ps = "norm_components p"
  let ?i = "common_length ?ss ?ps"
  have rel: "\<not> contains_sub (cp ''..'') (rel_path p (te_doc_root env))"
    using assms by (auto simp: fs_path_def Let_def split: if_splits)
  have "length ?ss - ?i = 0"
  proof (rule ccontr)
    assume "length ?ss - ?i \<noteq> 0"
    then obtain k where k: "length ?ss - ?i = Suc k" by (cases "length ?ss - ?i") auto
    have "rel_path p (te_doc_root env) = join_with [47] (cp ''..'' # replicate k (cp ''..'') @ drop ?i ?ps)"
      unfolding rel_path_def Let_def k by simp
    then have "\<exists>b. rel_path p (te_doc_root env) = cp ''..'' @ b"
      by (cases "replicate k (cp ''..'') @ drop ?i ?ps") auto
    then show False using rel unfolding contains_sub_iff by (metis append_Nil)
  qed
  then have "?i = length ?ss" using common_length_le [of ?ss ?ps] by simp
  then have "?ss = take ?i ?ps" using common_length_take [of ?ss ?ps] by simp
  then show ?thesis by (metis append_take_drop_id)
qed

section \<open>Variables\<close>

lemma utf8_decode_ascii: "list_all (\<lambda>c. (of_char c :: nat) < 128) s \<Longrightarrow> utf8_decode s = Inr (cp s)"
  by (induction s) (auto simp: utf8_decode_def cp_def)

lemma word_byte_ascii: "word_byte c \<Longrightarrow> (of_char c :: nat) < 128 \<and> c \<noteq> CHR '':'' \<and> c \<noteq> CHR ''$''"
  by (auto simp: word_byte_def is_upper_def is_lower_def is_digit_def)

lemma variable_tokens:
  assumes "list_all word_byte x" "x \<noteq> []"
  shows "template_tokens (''$'' @ x @ '':'' @ e) = rbind (template_tokens e) (\<lambda>ts. Inr (TVar (cp (''$'' @ x)) # ts))"
    and "template_tokens (''$'' @ x) = Inr [TIdent (cp (''$'' @ x))]"
proof -
  have w: "takeWhile word_byte (x @ CHR '':'' # e) = x" "takeWhile word_byte x = x"
    using assms(1) by (auto simp: list_all_iff takeWhile_append2 word_byte_def is_upper_def is_lower_def is_digit_def)
  have "list_all (\<lambda>c. (of_char c :: nat) < 128) (''$'' @ x)" using assms(1) word_byte_ascii by (auto simp: list_all_iff)
  then have d: "utf8_decode (CHR ''$'' # x) = Inr (cp (CHR ''$'' # x))" using utf8_decode_ascii by simp
  have n: "next_ttoken [] = None" by (simp add: next_ttoken_def starts_with_def)
  have "next_ttoken (CHR ''$'' # x @ CHR '':'' # e) = Some (Inr (TVar (cp (CHR ''$'' # x))), 2 + length x)"
    using assms(2) d by (simp add: next_ttoken_def starts_with_def Let_def w)
  then show "template_tokens (''$'' @ x @ '':'' @ e) = rbind (template_tokens e) (\<lambda>ts. Inr (TVar (cp (''$'' @ x)) # ts))"
    by (simp add: template_tokens.simps [of "CHR ''$'' # x @ CHR '':'' # e"])
  have "next_ttoken (CHR ''$'' # x) = Some (Inr (TIdent (cp (CHR ''$'' # x))), 1 + length x)"
    using assms(2) d by (simp add: next_ttoken_def starts_with_def Let_def w)
  then show "template_tokens (''$'' @ x) = Inr [TIdent (cp (''$'' @ x))]"
    by (simp add: template_tokens.simps [of "CHR ''$'' # x"] template_tokens.simps [of "[]"] n)
qed

lemma and_then_InrE:
  assumes "and_then m f s = (Inr y, s')" obtains x s1 where "m s = (Inr x, s1)" "f x s1 = (Inr y, s')"
  using assms by (auto simp: and_then_def split: prod.splits sum.splits)

text \<open>The end of a substitution: the value as text, the assignment, escaping.\<close>

definition finish_value :: "string option \<Rightarrow> ustr option \<Rightarrow> tvalue \<Rightarrow> string templating" where
  "finish_value esc variable v =
     and_then (case value_text v of None \<Rightarrow> raise AssertionError | Some t \<Rightarrow> give t) (\<lambda>text.
     and_then (case variable of None \<Rightarrow> give () | Some n \<Rightarrow> change (\<lambda>st. st\<lparr>ts_vars := od_set n v (ts_vars st)\<rparr>)) (\<lambda>_.
     and_then (of_res (rbind (escape_value esc []) (\<lambda>_. text))) (\<lambda>t.
       of_res (rbind (escape_value esc t) (\<lambda>t. encode (DText t))))))"

lemma finish_value_assign:
  assumes "finish_value esc (Some n) v st = (Inr b, st')"
  shows "od_get (ts_vars st') n = Some v \<and> finish_value esc None v st' = (Inr b, st')"
  using assms unfolding finish_value_def
  by (auto simp: act_simps od_get_set elim!: and_then_InrE split: option.splits)

lemma config_replacement_finish:
  "config_replacement env esc content =
     and_then (of_res (rbind (template_tokens content) pop_field)) (\<lambda>(t, ts).
     and_then (case t of
         TVar variable \<Rightarrow> of_res (rbind (pop_field ts) (\<lambda>(t, ts). Inr (Some variable, t, ts)))
       | _ \<Rightarrow> give (None, t, ts)) (\<lambda>(variable, t, ts).
     and_then (case t of TIdent f \<Rightarrow> give f | _ \<Rightarrow> raise (GenericException ''unexpected token type'')) (\<lambda>field.
     and_then (field_value env field) (\<lambda>v. and_then (apply_tokens env ts v) (finish_value esc variable)))))"
  unfolding config_replacement_def finish_value_def ..

text \<open>
  a variable keeps its value: after a substitution that assigns one, a substitution of its name is
  replaced by the same bytes and changes nothing, also if the value was random.
\<close>

theorem variable_keeps_value:
  assumes "config_replacement env esc (''$'' @ x @ '':'' @ e) st = (Inr v, st')" and "list_all word_byte x" and "x \<noteq> []"
  shows "config_replacement env esc (''$'' @ x) st' = (Inr v, st')"
proof -
  let ?n = "cp (''$'' @ x)"
  obtain ts where ts: "template_tokens e = Inr ts"
    using assms(1) unfolding config_replacement_finish variable_tokens(1) [OF assms(2,3)]
    by (auto simp: act_simps elim!: and_then_InrE split: sum.splits) (cases "template_tokens e"; auto)
  then obtain w s1 where "finish_value esc (Some ?n) w s1 = (Inr v, st')"
    using assms(1) unfolding config_replacement_finish variable_tokens(1) [OF assms(2,3)]
    by (auto simp: act_simps pop_field_def rbind_eq_Inr elim!: and_then_InrE split: prod.splits)
  then have "od_get (ts_vars st') ?n = Some w" "finish_value esc None w st' = (Inr v, st')"
    using finish_value_assign by blast+
  then show ?thesis
    unfolding config_replacement_finish variable_tokens(2) [OF assms(2,3)]
    by (simp add: pop_field_def field_value_def and_then_get_state and_then_def act_simps)
qed

section \<open>Examples\<close>

definition demo_template_env :: template_env where
  "demo_template_env = \<lparr>te_config = [(cp ''browser_host'', CText (cp ''a.test''))], te_headers = [(''x'', [''<b>''])],
     te_params = [(cp ''x'', [cp ''1'', cp ''3''])], te_parts = demo_parts, te_request_path = ''/d/t.sub.html'', te_url_base = ''/'',
     te_doc_root = cp ''/srv'', te_uuid = (\<lambda>_. cp ''a.test''), te_read = (\<lambda>_. None), te_hash = (\<lambda>_ _. [])\<rparr>"

definition no_vars :: template_state where
  "no_vars = \<lparr>ts_vars = [], ts_uuids = 0\<rparr>"

lemma demo_tokens:
  "template_tokens ''host'' = Inr [TIdent (cp ''host'')]"
  "template_tokens ''headers[X]'' = Inr [TIdent (cp ''headers''), TIndex (IxText (cp ''X''))]"
  "template_tokens ''GET[x]'' = Inr [TIdent (cp ''GET''), TIndex (IxText (cp ''x''))]"
  "template_tokens ''$id:uuid()'' = Inr [TVar (cp ''$id''), TIdent (cp ''uuid''), TArgs []]"
  by code_simp+

lemma demo_attributes:
  "sub_attribute (cp ''host'') = None" "sub_attribute (cp ''headers'') = None" "sub_attribute (cp ''GET'') = None"
  "sub_attribute (cp ''uuid'') = Some (Func Sub_uuid)"
  by (simp_all add: sub_attribute_def)

lemma demo_finish:
  "finish_value (Some ''none'') None (Conf (CText (cp ''a.test''))) st = (Inr ''a.test'', st)"
  "finish_value (Some ''html'') None (Raw ''<b>'') st = (Inr ''&lt;b&gt;'', st)"
  "finish_value (Some ''none'') None (Conf (CText [])) st = (Inr [], st)"
proof -
  have c: "cp ''<b>'' = [60, 98, 62]" "cp ''&lt;b&gt;'' = [38, 108, 116, 59, 98, 38, 103, 116, 59]" by code_simp+
  have "escape_html (cp ''<b>'') = cp ''&lt;b&gt;''" unfolding c by (simp add: escape_html_def entities)
  moreover have "encode (DText (cp s)) = Inr s" if "is_ascii s" for s
    using encode_val_ascii [OF that] by (simp add: encode_val_def cp_def text_of_def)
  then have "encode (DText (cp ''a.test'')) = Inr ''a.test''" "encode (DText (cp ''&lt;b&gt;'')) = Inr ''&lt;b&gt;''"
    "encode (DText (cp [])) = Inr []"
    by (simp_all add: is_ascii_def)
  moreover have "utf8_decode ''<b>'' = Inr (cp ''<b>'')" by (rule utf8_decode_ascii) simp
  ultimately show "finish_value (Some ''none'') None (Conf (CText (cp ''a.test''))) st = (Inr ''a.test'', st)"
    "finish_value (Some ''html'') None (Raw ''<b>'') st = (Inr ''&lt;b&gt;'', st)"
    "finish_value (Some ''none'') None (Conf (CText [])) st = (Inr [], st)"
    by (simp_all add: finish_value_def value_text_def escape_value_def act_simps cp_def [of "[]"])
qed

lemmas demo_eval = and_then_assoc config_replacement_finish demo_tokens pop_field_def field_value_def and_then_get_state demo_attributes
  demo_template_env_def no_vars_def

lemma demo_host: "config_replacement demo_template_env (Some ''none'') ''host'' no_vars = (Inr ''a.test'', no_vars)"
  by (simp add: demo_eval config_getitem_def demo_finish)

lemma demo_header: "config_replacement demo_template_env (Some ''html'') ''headers[X]'' no_vars = (Inr ''&lt;b&gt;'', no_vars)"
proof -
  have "isomorphic_encode (cp ''X'') = Inr ''X''" "rq_getitem [(''x'', [''<b>''])] ''X'' = Inr ''<b>''" by code_simp+
  then show ?thesis by (simp add: demo_eval value_index_def demo_finish)
qed

text \<open>The query parameters are never substituted: their keys are texts and are looked up as bytes.\<close>

lemma get_parameter_is_empty:
  "config_replacement demo_template_env (Some ''none'') ''GET[x]'' no_vars = (Inr [], no_vars)
   \<and> md_get_list (te_params demo_template_env) (cp ''x'') = [cp ''1'', cp ''3'']"
proof -
  have "first_param [(cp ''x'', [cp ''1'', cp ''3''])] (IxText (cp ''x'')) = Inr []" by code_simp
  then show ?thesis by (simp add: demo_eval value_index_def demo_finish md_get_list_def)
qed


theorem html_substitution_is_safe_witness:
  "config_replacement demo_template_env (Some ''html'') ''headers[X]'' no_vars = (Inr ''&lt;b&gt;'', no_vars)
   \<and> \<not> list_ex markup_char ''&lt;b&gt;''"
  using html_substitution_is_safe [OF demo_header] demo_header by blast

theorem fs_path_inside_root_witness:
  "\<exists>rest. norm_components (cp ''/srv/x/y.html'') = norm_components (te_doc_root demo_template_env) @ rest"
proof -
  have "fs_path demo_template_env (cp ''../x/./y.html'') = Inr (cp ''/srv/x/y.html'')" by code_simp
  from fs_path_inside_root [OF this] show ?thesis .
qed

theorem variable_keeps_value_witness:
  "\<exists>v st. config_replacement demo_template_env (Some ''none'') ''$id'' st = (Inr v, st) \<and> ts_uuids st = 1"
proof -
  let ?st = "\<lparr>ts_vars = [(cp ''$id'', Conf (CText (cp ''a.test'')))], ts_uuids = 1\<rparr>"
  have f: "finish_value (Some ''none'') (Some n) (Conf (CText (cp ''a.test''))) st
      = (Inr ''a.test'', st\<lparr>ts_vars := od_set n (Conf (CText (cp ''a.test''))) (ts_vars st)\<rparr>)" for n st
    using demo_finish(1) by (simp add: finish_value_def act_simps value_text_def and_then_change)
  have "config_replacement demo_template_env (Some ''none'') ''$id:uuid()'' no_vars = (Inr ''a.test'', ?st)"
    by (simp add: demo_eval value_call_def and_then_change f)
  moreover have "list_all word_byte ''id''" by (simp add: word_byte_def is_lower_def)
  ultimately show ?thesis
    using variable_keeps_value [of demo_template_env "Some ''none''" "''id''" "''uuid()''" no_vars "''a.test''" ?st]
    by (intro exI [of _ "''a.test''"] exI [of _ ?st]) simp
qed

end
