(* ===== verification/Stash.thy ===== *)
theory Stash
  imports Http_Headers "HOL-Library.Multiset"
begin

text \<open>
  The stash (\<open>tools/wptserve/wptserve/stash.py\<close>): the keys, \<open>put\<close> and \<open>take\<close>, first as they run when no one
  else uses the store, then as the separate accesses to the shared dictionary that clients in several
  threads interleave. The manager process and its proxies are not modelled.
\<close>

section \<open>Keys\<close>

definition hex_val :: "char \<Rightarrow> int option" where
  "hex_val c =
     (let n = of_char c :: int
      in if is_digit c then Some (n - 48)
         else if 97 \<le> n \<and> n \<le> 102 then Some (n - 87)
         else if 65 \<le> n \<and> n \<le> 70 then Some (n - 55) else None)"

text \<open>Digits with single underscores between them; the flag says that an underscore may come.\<close>

fun hex_digits :: "bool \<Rightarrow> int \<Rightarrow> string \<Rightarrow> int option" where
  "hex_digits after acc [] = (if after then Some acc else None)"
| "hex_digits after acc (c # cs) =
     (if c = CHR ''_'' then (if after then hex_digits False acc cs else None)
      else (case hex_val c of None \<Rightarrow> None | Some d \<Rightarrow> hex_digits True (16 * acc + d) cs))"

text \<open>\<open>int(s, 16)\<close>.\<close>

definition py_int16 :: "string \<Rightarrow> int option" where
  "py_int16 s =
     (let t = strip_by is_str_space s;
          neg = starts_with ''-'' t;
          u = (if neg \<or> starts_with ''+'' t then drop 1 t else t);
          v = (if starts_with ''0x'' u \<or> starts_with ''0X'' u
               then (if starts_with ''_'' (drop 2 u) then drop 3 u else drop 2 u) else u)
      in map_option (\<lambda>n. if neg then - n else n) (hex_digits False 0 v))"

text \<open>\<open>uuid.UUID(key)\<close>; its 16 bytes are given by the number they encode.\<close>

definition parse_uuid :: "string \<Rightarrow> int option" where
  "parse_uuid key =
     (let hex = replace_sub ''-'' [] (strip_by (\<lambda>c. c \<in> set ''{}'') (replace_sub ''uuid:'' [] (replace_sub ''urn:'' [] key)))
      in if length hex \<noteq> 32 then None
         else (case py_int16 hex of
                 Some n \<Rightarrow> if 0 \<le> n \<and> n < 2 ^ 128 then Some n else None
               | None \<Rightarrow> None))"

type_synonym stash_key = "string \<times> int"
type_synonym 'v store = "(stash_key, 'v) odict"

definition wrap_key :: "string \<Rightarrow> pyval \<Rightarrow> string option \<Rightarrow> stash_key res" where
  "wrap_key default_path key path =
     (let p = (case path of None \<Rightarrow> default_path | Some p \<Rightarrow> p);
          text = (case key of
              PBytes b \<Rightarrow> if is_ascii b then Inr b else Inl UnicodeError
            | PStr s \<Rightarrow> Inr s
            | PInt _ \<Rightarrow> Inl AttributeError)
      in rbind text (\<lambda>k. rbind (of_option ValueError (parse_uuid k)) (\<lambda>u. Inr (p, u))))"

section \<open>Put and take\<close>

definition stash_put ::
  "string \<Rightarrow> pyval \<Rightarrow> 'v option \<Rightarrow> string option \<Rightarrow> 'v store \<Rightarrow> unit res \<times> 'v store" where
  "stash_put default_path key val path d =
     (case val of
        None \<Rightarrow> (Inl ValueError, d)
      | Some v \<Rightarrow>
          (case wrap_key default_path key path of
             Inl e \<Rightarrow> (Inl e, d)
           | Inr k \<Rightarrow> if od_get d k \<noteq> None then (Inl StashError, d) else (Inr (), od_set k v d)))"

definition stash_take ::
  "string \<Rightarrow> pyval \<Rightarrow> string option \<Rightarrow> 'v store \<Rightarrow> 'v option res \<times> 'v store" where
  "stash_take default_path key path d =
     (case wrap_key default_path key path of
        Inl e \<Rightarrow> (Inl e, d)
      | Inr k \<Rightarrow>
          (case od_get d k of
             None \<Rightarrow> (Inr None, d)
           | Some v \<Rightarrow> (Inr (Some v), od_del k d)))"

section \<open>Clients in several threads\<close>

text \<open>
  \<open>put\<close> looks the key up and then stores; \<open>take\<close> gets the value and then pops the key, ignoring a
  \<open>KeyError\<close>. Each access is atomic, and a client is ready or between its two accesses. The world also
  records what was stored and what was returned.
\<close>

datatype 'v client = Ready | Checked stash_key 'v | Got stash_key 'v

record 'v world =
  w_store :: "'v store"
  w_client :: "nat \<Rightarrow> 'v client"
  w_put :: "(stash_key \<times> 'v) list"
  w_taken :: "(stash_key \<times> 'v) list"

definition empty_world :: "'v world" where
  "empty_world = \<lparr>w_store = [], w_client = (\<lambda>_. Ready), w_put = [], w_taken = []\<rparr>"

inductive client_step :: "nat \<Rightarrow> 'v world \<Rightarrow> 'v world \<Rightarrow> bool" for i where
  put_check: "w_client w i = Ready \<Longrightarrow> od_get (w_store w) k = None \<Longrightarrow>
    client_step i w (w\<lparr>w_client := (w_client w)(i := Checked k v)\<rparr>)"
| put_error: "w_client w i = Ready \<Longrightarrow> od_get (w_store w) k \<noteq> None \<Longrightarrow> client_step i w w"
| put_store: "w_client w i = Checked k v \<Longrightarrow>
    client_step i w (w\<lparr>w_store := od_set k v (w_store w), w_client := (w_client w)(i := Ready), w_put := (k, v) # w_put w\<rparr>)"
| take_none: "w_client w i = Ready \<Longrightarrow> od_get (w_store w) k = None \<Longrightarrow> client_step i w w"
| take_get: "w_client w i = Ready \<Longrightarrow> od_get (w_store w) k = Some v \<Longrightarrow>
    client_step i w (w\<lparr>w_client := (w_client w)(i := Got k v)\<rparr>)"
| take_pop: "w_client w i = Got k v \<Longrightarrow>
    client_step i w (w\<lparr>w_store := od_del k (w_store w), w_client := (w_client w)(i := Ready), w_taken := (k, v) # w_taken w\<rparr>)"

inductive_cases client_stepE: "client_step i w w'"

text \<open>Any interleaving, and those in which every operation holds \<open>stash.lock\<close>.\<close>

inductive reachable :: "'v world \<Rightarrow> bool" where
  start: "reachable empty_world"
| step: "reachable w \<Longrightarrow> client_step i w w' \<Longrightarrow> reachable w'"

inductive locked_reachable :: "'v world \<Rightarrow> bool" where
  start: "locked_reachable empty_world"
| step: "locked_reachable w \<Longrightarrow> (\<forall>j. j \<noteq> i \<longrightarrow> w_client w j = Ready) \<Longrightarrow> client_step i w w' \<Longrightarrow> locked_reachable w'"

definition delivered_once :: "'v world \<Rightarrow> bool" where
  "delivered_once w \<longleftrightarrow> od_inv (w_store w) \<and> mset (w_put w) = mset (w_taken w) + mset (w_store w)
     \<and> (\<forall>i. case w_client w i of
            Ready \<Rightarrow> True
          | Checked k v \<Rightarrow> od_get (w_store w) k = None
          | Got k v \<Rightarrow> od_get (w_store w) k = Some v)"

lemma mset_od_set_new: "od_get d k = None \<Longrightarrow> mset (od_set k v d) = add_mset (k, v) (mset d)"
  by (simp add: od_set_new od_get_None_iff)

lemma mset_od_del: "od_inv d \<Longrightarrow> od_get d k = Some v \<Longrightarrow> mset d = add_mset (k, v) (mset (od_del k d))"
proof (induction d)
  case (Cons p d)
  obtain j u where p: "p = (j, u)" by (cases p)
  show ?case
  proof (cases "j = k")
    case True
    then have "k \<notin> set (od_keys d)" using Cons.prems(1) by (simp add: p od_inv_def od_keys_def)
    then have "od_del k d = d" by (auto simp: od_del_def od_keys_def filter_id_conv image_iff split_beta)
    then show ?thesis using True Cons.prems by (simp add: p od_del_def)
  next
    case False
    then show ?thesis using Cons by (auto simp: p od_inv_def od_keys_def od_del_def)
  qed
qed simp

lemma delivered_once_client:
  "delivered_once w \<Longrightarrow> w_client w i = Checked k v \<Longrightarrow> od_get (w_store w) k = None"
  "delivered_once w \<Longrightarrow> w_client w i = Got k v \<Longrightarrow> od_get (w_store w) k = Some v"
  unfolding delivered_once_def by (elim conjE allE [of _ i], simp)+

lemma delivered_once_step:
  assumes "delivered_once w" and "\<forall>j. j \<noteq> i \<longrightarrow> w_client w j = Ready" and "client_step i w w'"
  shows "delivered_once w'"
  using assms(3)
proof cases
  case (put_store k v)
  have free: "od_get (w_store w) k = None" by (rule delivered_once_client(1) [OF assms(1) put_store(2)])
  then show ?thesis using assms(1,2) put_store
    by (simp add: delivered_once_def od.inv_put mset_od_set_new)
next
  case (take_pop k v)
  have got: "od_get (w_store w) k = Some v" by (rule delivered_once_client(2) [OF assms(1) take_pop(2)])
  then show ?thesis using assms(1,2) take_pop mset_od_del [of "w_store w" k v]
    by (simp add: delivered_once_def od.inv_del)
qed (use assms in \<open>auto simp: delivered_once_def split: client.splits\<close>)

text \<open>
  C35: while every operation holds the stash's lock, each value that was put is delivered at most once and is
  not lost: the values put are those taken and those still stored, and no key is stored twice.
\<close>

theorem locked_stash_delivers_once:
  assumes "locked_reachable w"
  shows "mset (w_put w) = mset (w_taken w) + mset (w_store w) \<and> od_inv (w_store w)"
proof -
  have "delivered_once w" using assms
  proof induction
    case start
    show ?case by (simp add: delivered_once_def empty_world_def)
  qed (rule delivered_once_step)
  then show ?thesis by (simp add: delivered_once_def)
qed

text \<open>
  without the lock the reads are not destructive enough: two clients whose accesses interleave both get
  the one value that was put.
\<close>

theorem unlocked_take_delivers_twice:
  "\<exists>w. reachable w \<and> w_put w = [(k, v)] \<and> w_taken w = [(k, v), (k, v)]"
proof -
  let ?c = "\<lambda>a b i. if i = (0::nat) then a else if i = 1 then b else Ready"
  let ?w = "\<lambda>d a b p t. \<lparr>w_store = d, w_client = ?c a b, w_put = p, w_taken = t\<rparr>"
  have upd: "(?c a b)(0 := x) = ?c x b" "(?c a b)(Suc 0 := x) = ?c a x" for a b x by auto
  have "empty_world = ?w [] Ready Ready [] []" by (auto simp: empty_world_def)
  then have "reachable (?w [] Ready Ready [] [])" using reachable.start by metis
  then have "reachable (?w [] (Checked k v) Ready [] [])"
    by (rule reachable.step [of _ 0]) (use client_step.put_check [of "?w [] Ready Ready [] []" 0 k v] in \<open>simp add: upd\<close>)
  then have "reachable (?w [(k, v)] Ready Ready [(k, v)] [])"
    by (rule reachable.step [of _ 0]) (use client_step.put_store [of "?w [] (Checked k v) Ready [] []" 0 k v] in \<open>simp add: upd\<close>)
  then have "reachable (?w [(k, v)] (Got k v) Ready [(k, v)] [])"
    by (rule reachable.step [of _ 0])
      (use client_step.take_get [of "?w [(k, v)] Ready Ready [(k, v)] []" 0 k v] in \<open>simp add: upd\<close>)
  then have "reachable (?w [(k, v)] (Got k v) (Got k v) [(k, v)] [])"
    by (rule reachable.step [of _ 1])
      (use client_step.take_get [of "?w [(k, v)] (Got k v) Ready [(k, v)] []" 1 k v] in \<open>simp add: upd\<close>)
  then have "reachable (?w [] Ready (Got k v) [(k, v)] [(k, v)])"
    by (rule reachable.step [of _ 0])
      (use client_step.take_pop [of "?w [(k, v)] (Got k v) (Got k v) [(k, v)] []" 0 k v] in \<open>simp add: upd od_del_def\<close>)
  then have "reachable (?w [] Ready Ready [(k, v)] [(k, v), (k, v)])"
    by (rule reachable.step [of _ 1])
      (use client_step.take_pop [of "?w [] Ready (Got k v) [(k, v)] [(k, v)]" 1 k v] in \<open>simp add: upd od_del_def\<close>)
  then show ?thesis by (intro exI) auto
qed

text \<open>
  The operations as a client with the lock runs them: one after the other, each being its accesses.
\<close>

datatype 'v stash_op = Put pyval "'v option" "string option" | Take pyval "string option"

definition run_op :: "string \<Rightarrow> 'v stash_op \<Rightarrow> 'v store \<Rightarrow> 'v option res \<times> 'v store" where
  "run_op dp op d = (case op of
     Put key val path \<Rightarrow> (case stash_put dp key val path d of (Inl e, d') \<Rightarrow> (Inl e, d') | (Inr _, d') \<Rightarrow> (Inr None, d'))
   | Take key path \<Rightarrow> stash_take dp key path d)"

definition op_key :: "string \<Rightarrow> 'v stash_op \<Rightarrow> stash_key res" where
  "op_key dp op = (case op of Put key _ path \<Rightarrow> wrap_key dp key path | Take key path \<Rightarrow> wrap_key dp key path)"

text \<open>What an operation with this result has put and taken.\<close>

definition op_put :: "string \<Rightarrow> 'v stash_op \<Rightarrow> 'v option res \<Rightarrow> (stash_key \<times> 'v) list" where
  "op_put dp op r = (case (op, r, op_key dp op) of (Put _ (Some v) _, Inr _, Inr k) \<Rightarrow> [(k, v)] | _ \<Rightarrow> [])"

definition op_taken :: "string \<Rightarrow> 'v stash_op \<Rightarrow> 'v option res \<Rightarrow> (stash_key \<times> 'v) list" where
  "op_taken dp op r = (case (op, r, op_key dp op) of (Take _ _, Inr (Some v), Inr k) \<Rightarrow> [(k, v)] | _ \<Rightarrow> [])"

definition all_ready :: "'v world \<Rightarrow> bool" where
  "all_ready w \<longleftrightarrow> w_client w = (\<lambda>_. Ready)"

lemma locked_put:
  assumes "locked_reachable w" "all_ready w" "od_get (w_store w) k = None"
  shows "locked_reachable (w\<lparr>w_store := od_set k v (w_store w), w_put := (k, v) # w_put w\<rparr>)"
proof -
  let ?w = "w\<lparr>w_client := (w_client w)(0 := Checked k v)\<rparr>"
  have "client_step 0 w ?w" using assms(2,3) by (intro client_step.put_check) (simp add: all_ready_def)
  then have w: "locked_reachable ?w" using assms(1,2) by (auto intro: locked_reachable.step simp: all_ready_def)
  have "client_step 0 ?w (?w\<lparr>w_store := od_set k v (w_store ?w), w_client := (w_client ?w)(0 := Ready), w_put := (k, v) # w_put ?w\<rparr>)"
    by (rule client_step.put_store) simp
  from locked_reachable.step [OF w _ this] show ?thesis using assms(2) by (cases w) (simp add: all_ready_def fun_upd_idem)
qed

lemma locked_take:
  assumes "locked_reachable w" "all_ready w" "od_get (w_store w) k = Some v"
  shows "locked_reachable (w\<lparr>w_store := od_del k (w_store w), w_taken := (k, v) # w_taken w\<rparr>)"
proof -
  let ?w = "w\<lparr>w_client := (w_client w)(0 := Got k v)\<rparr>"
  have "client_step 0 w ?w" using assms(2,3) by (intro client_step.take_get) (simp add: all_ready_def)
  then have w: "locked_reachable ?w" using assms(1,2) by (auto intro: locked_reachable.step simp: all_ready_def)
  have "client_step 0 ?w (?w\<lparr>w_store := od_del k (w_store ?w), w_client := (w_client ?w)(0 := Ready), w_taken := (k, v) # w_taken ?w\<rparr>)"
    by (rule client_step.take_pop) simp
  from locked_reachable.step [OF w _ this] show ?thesis using assms(2) by (cases w) (simp add: all_ready_def fun_upd_idem)
qed


definition demo_uuid :: string where
  "demo_uuid = ''00000000-0000-0000-0000-00000000002a''"

lemma demo_uuid: "parse_uuid demo_uuid = Some 42"
  by code_simp


theorem locked_stash_delivers_once_witness:
  "\<exists>w :: bool world. locked_reachable w \<and> mset (w_put w) = mset (w_taken w) + mset (w_store w) \<and> w_taken w = [((''/a'', 42), True)]"
proof -
  let ?w = "empty_world\<lparr>w_store := [((''/a'', 42), True)], w_put := [((''/a'', 42), True)]\<rparr>"
  have r: "locked_reachable ?w" using locked_put [OF locked_reachable.start, of "(''/a'', 42)" True]
    by (simp add: all_ready_def empty_world_def od_get_def)
  let ?w' = "?w\<lparr>w_store := [], w_taken := [((''/a'', 42), True)]\<rparr>"
  have r': "locked_reachable ?w'"
    using locked_take [OF r, of "(''/a'', 42)" True]
    by (simp add: all_ready_def empty_world_def od_get_def od_del_def)
  have "w_taken ?w' = [((''/a'', 42), True)]" by simp
  then show ?thesis using r' locked_stash_delivers_once [OF r'] by blast
qed

end
