(* ===== verification/Scheduling.thy ===== *)
theory Scheduling
  imports Crawler
begin

text \<open>
  Distributing the test URLs: the task list of \<open>desktop_selenium.py\<close> with the test-page-runner pages it
  can generate, and the app list and device parameters of \<open>android_intent.py\<close>. Parameters: the planned
  URLs (\<open>plan\<close>, the rendered result of \<open>get_tests\<close> for a browser and scheme), the content of \<open>repeat.json\<close>,
  the page template, and numpy's \<open>array_split\<close>.
\<close>

section \<open>Test-page-runner pages\<close>

definition hex_digit :: "nat \<Rightarrow> char" where
  "hex_digit d = (if d < 10 then char_of (48 + d) else char_of (87 + d))"

text \<open>\<open>json.dumps\<close> of a text (code points below 256) and of a list of texts.\<close>

definition json_char :: "char \<Rightarrow> string" where
  "json_char c =
    (let n = of_char c :: nat
     in if n = 34 then [char_of (92 :: nat), char_of (34 :: nat)]
        else if n = 92 then [char_of (92 :: nat), char_of (92 :: nat)]
        else if n = 10 then char_of (92 :: nat) # ''n''
        else if n = 13 then char_of (92 :: nat) # ''r''
        else if n = 9 then char_of (92 :: nat) # ''t''
        else if n = 12 then char_of (92 :: nat) # ''f''
        else if n = 8 then char_of (92 :: nat) # ''b''
        else if n < 32 \<or> 126 < n then char_of (92 :: nat) # ''u00'' @ [hex_digit (n div 16), hex_digit (n mod 16)]
        else [c])"

definition json_string :: "string \<Rightarrow> string" where
  "json_string s = [char_of (34 :: nat)] @ concat (map json_char s) @ [char_of (34 :: nat)]"

definition json_list :: "string list \<Rightarrow> string" where
  "json_list xs = ''['' @ join_with '', '' (map json_string xs) @ '']''"

text \<open>\<open>generate_short_uuid(length)\<close> for the text of a fresh UUID.\<close>

definition generate_short_uuid :: "string \<Rightarrow> int \<Rightarrow> string res" where
  "generate_short_uuid full_uuid len =
     (if len \<le> 0 then Inl ValueError else Inr (take (nat len) full_uuid))"

text \<open>\<open>create_test_page_runner\<close>: the URL of the page, and the path and content of the file it writes.\<close>

definition create_test_page_runner ::
  "string \<Rightarrow> string \<Rightarrow> int \<Rightarrow> string \<Rightarrow> string list \<Rightarrow> string \<times> (string \<times> string)" where
  "create_test_page_runner host html_template browser_id identifier test_urls =
    (let test_runner_page = ''test-page-runner-'' @ int_str browser_id @ ''_'' @ identifier @ ''.html'';
         test_runner_url = ''https://sub.'' @ host @ ''/_hp/tests/'' @ test_runner_page;
         html1 = replace_sub ''$$$URLS$$$'' (json_list test_urls) html_template;
         html2 = replace_sub ''$$$TIMEOUT$$$'' (int_str (TIMEOUT * 1000)) html1
     in (test_runner_url, (''../../../tests/'' @ test_runner_page, html2)))"

section \<open>Desktop tasks\<close>

record browser_conf =
  bc_name :: string
  bc_version :: string
  bc_binary :: "string option"
  bc_arguments :: "string list option"
  bc_id :: int

record options =
  op_ignore_certs :: bool
  op_debug_input :: bool
  op_run_mode :: string
  op_max_urls :: int
  op_timeout_task :: int
  op_gen_page_runner :: bool
  op_gen_multiplier :: int

record task =
  tk_browser :: string
  tk_version :: string
  tk_binary :: "string option"
  tk_arguments :: "string list option"
  tk_debug_input :: bool
  tk_urls :: "string list"
  tk_timeout :: int
  tk_page_timeout :: int

text \<open>The lists the planning loop grows, and the number of the next page.\<close>

record planning =
  all_args :: "task list"
  url_list :: "string list"
  chunk_id :: nat
  page_files :: "(string \<times> string) list"

definition with_ignore_certs :: "options \<Rightarrow> string list option \<Rightarrow> string list option res" where
  "with_ignore_certs opts args =
     (if op_ignore_certs opts
      then (case args of None \<Rightarrow> Inl TypeError | Some xs \<Rightarrow> Inr (Some (xs @ [''--ignore-certificate-errors''])))
      else Inr args)"

text \<open>\<open>[test_urls[i:i + n] for i in range(0, len(test_urls), n)]\<close>\<close>

definition url_chunks :: "int \<Rightarrow> 'a list \<Rightarrow> 'a list list res" where
  "url_chunks n test_urls =
     rbind (py_range 0 (int (length test_urls)) n)
       (\<lambda>starts. Inr (map (\<lambda>i. slice_of (nat i) (nat (i + n)) test_urls) starts))"

definition test_urls_of ::
  "options \<Rightarrow> (int \<Rightarrow> string \<Rightarrow> string list res) \<Rightarrow> (string \<Rightarrow> string list option) \<Rightarrow> string \<Rightarrow> int
     \<Rightarrow> (string list \<times> int) res" where
  "test_urls_of opts plan repeats scheme browser_id =
     (if op_run_mode opts = ''run_all''
      then rbind (plan browser_id scheme) (\<lambda>urls. Inr (urls, TIMEOUT))
      else if op_run_mode opts = ''repeat''
      then Inr (filter (starts_with (scheme @ ''://''))
                  (case repeats (int_str browser_id) of None \<Rightarrow> [] | Some urls \<Rightarrow> urls), 3 * TIMEOUT)
      else Inl (GenericException (''Unknown run mode: '' @ op_run_mode opts)))"

text \<open>One chunk: a task, and a runner page in the generation mode (\<open>url_chunk * gen_multiplier\<close>).\<close>

definition plan_chunk ::
  "options \<Rightarrow> string \<Rightarrow> string \<Rightarrow> string \<Rightarrow> browser_conf \<Rightarrow> string list option \<Rightarrow> int \<Rightarrow> string list
     \<Rightarrow> planning \<Rightarrow> planning" where
  "plan_chunk opts host template token conf arguments page_timeout chunk st =
    (let st1 = st\<lparr>all_args := all_args st @ [\<lparr>tk_browser = bc_name conf, tk_version = bc_version conf,
           tk_binary = bc_binary conf, tk_arguments = arguments, tk_debug_input = op_debug_input opts,
           tk_urls = chunk, tk_timeout = op_timeout_task opts, tk_page_timeout = page_timeout\<rparr>]\<rparr>
     in if op_gen_page_runner opts
        then let (url, file) = create_test_page_runner host template (bc_id conf)
                   (token @ ''-'' @ nat_str (chunk_id st))
                   (concat (replicate (nat (op_gen_multiplier opts)) chunk))
             in st1\<lparr>url_list := url_list st @ [url], chunk_id := chunk_id st + 1, page_files := page_files st @ [file]\<rparr>
        else st1)"

definition plan_browser ::
  "options \<Rightarrow> string \<Rightarrow> string \<Rightarrow> string \<Rightarrow> (int \<Rightarrow> string \<Rightarrow> string list res) \<Rightarrow> (string \<Rightarrow> string list option)
     \<Rightarrow> string \<Rightarrow> browser_conf \<Rightarrow> planning \<Rightarrow> planning res" where
  "plan_browser opts host template token plan repeats scheme conf st =
     rbind (with_ignore_certs opts (bc_arguments conf)) (\<lambda>arguments.
       rbind (test_urls_of opts plan repeats scheme (bc_id conf)) (\<lambda>(test_urls, page_timeout).
         if op_run_mode opts = ''repeat'' \<and> test_urls = [] then Inr st
         else rbind (url_chunks (op_max_urls opts) test_urls) (\<lambda>chunks.
           Inr (fold (plan_chunk opts host template token conf arguments page_timeout) chunks st))))"

fun rfold :: "('a \<Rightarrow> 's \<Rightarrow> 's res) \<Rightarrow> 'a list \<Rightarrow> 's \<Rightarrow> 's res" where
  "rfold f [] s = Inr s"
| "rfold f (x # xs) s = rbind (f x s) (rfold f xs)"

definition desktop_plan ::
  "options \<Rightarrow> string \<Rightarrow> string \<Rightarrow> string \<Rightarrow> (int \<Rightarrow> string \<Rightarrow> string list res) \<Rightarrow> (string \<Rightarrow> string list option)
     \<Rightarrow> browser_conf list \<Rightarrow> planning res" where
  "desktop_plan opts host template token plan repeats config =
     rfold (\<lambda>scheme. rfold (plan_browser opts host template token plan repeats scheme) config) [''http'', ''https'']
       \<lparr>all_args = [], url_list = [], chunk_id = 0, page_files = []\<rparr>"

text \<open>
  The mode that visits generated runner pages: \<open>re.findall("runner-(\d+)", url)[0]\<close> must be 1, the id of
  the unknown browser, and the real browser id is added to the URL.
\<close>

fun runner_id :: "string \<Rightarrow> int res" where
  "runner_id [] = Inl IndexError"
| "runner_id (c # cs) =
     (let ds = takeWhile is_digit (drop 7 (c # cs))
      in if starts_with ''runner-'' (c # cs) \<and> ds \<noteq> [] then of_option ValueError (int_digits False 0 ds)
         else runner_id cs)"

definition page_runner_tasks :: "options \<Rightarrow> browser_conf list \<Rightarrow> string list \<Rightarrow> task list res" where
  "page_runner_tasks opts config urls =
     (case config of
        [conf] \<Rightarrow>
          rbind (with_ignore_certs opts (bc_arguments conf)) (\<lambda>arguments.
            rmap (\<lambda>url. rbind (runner_id url) (\<lambda>i.
              if i \<noteq> 1 then Inl AssertionError
              else Inr \<lparr>tk_browser = bc_name conf, tk_version = bc_version conf, tk_binary = bc_binary conf,
                     tk_arguments = arguments, tk_debug_input = op_debug_input opts,
                     tk_urls = [url @ ''?browser_id='' @ int_str (bc_id conf)], tk_timeout = op_timeout_task opts,
                     tk_page_timeout = op_timeout_task opts - 60\<rparr>)) urls)
      | _ \<Rightarrow> Inl AssertionError)"

section \<open>The tasks visit the planned URLs\<close>

lemma slices_concat:
  "concat (map (\<lambda>k. slice_of (k * n) (k * n + n) xs) [0..<j]) = take (j * n) xs" for n :: nat
proof (induction j)
  case (Suc j)
  have "take (j * n) xs = take (j * n) (take (j * n + n) xs)" by (simp add: min_absorb1)
  then have "take (j * n) xs @ slice_of (j * n) (j * n + n) xs = take (j * n + n) xs"
    unfolding slice_of_def by (simp only: append_take_drop_id)
  then show ?case using Suc by (simp add: add.commute)
qed simp

lemma url_chunks_ok:
  assumes "0 < n"
  shows "\<exists>chunks. url_chunks n xs = Inr chunks \<and> concat chunks = xs
    \<and> list_all (\<lambda>c. c \<noteq> [] \<and> int (length c) \<le> n) chunks"
proof -
  let ?l = "int (length xs)" and ?m = "nat n"
  let ?q = "(?l + n - 1) div n"
  have d: "?q * n + (?l + n - 1) mod n = ?l + n - 1" "0 \<le> (?l + n - 1) mod n" "(?l + n - 1) mod n < n"
    using assms by (simp_all only: div_mult_mod_eq pos_mod_sign pos_mod_bound)
  then have q: "?q * n \<le> ?l + n - 1" "?l \<le> ?q * n" by linarith+
  have n: "n = int ?m" using assms by simp
  let ?chunks = "map (\<lambda>k. slice_of (k * ?m) (k * ?m + ?m) xs) [0..<nat ?q]"
  have "nat (int k * n) = k * ?m" "nat (int k * n + n) = k * ?m + ?m" for k
    by (subst (1) n, simp add: nat_mult_distrib nat_add_distrib)+
  then have eq: "url_chunks n xs = Inr ?chunks"
    using assms by (simp add: url_chunks_def py_range_def comp_def)
  have "0 \<le> ?q" using assms by (simp add: pos_imp_zdiv_nonneg_iff)
  then have "int (nat ?q * ?m) = ?q * n" using assms by simp
  then have "length xs \<le> nat ?q * ?m" using q(2) by linarith
  then have "concat ?chunks = xs" by (simp add: slices_concat)
  moreover have "c \<noteq> [] \<and> int (length c) \<le> n" if "c \<in> set ?chunks" for c
  proof -
    from that obtain k where k: "k < nat ?q" "c = slice_of (k * ?m) (k * ?m + ?m) xs" by auto
    then have "(int k + 1) * n \<le> ?q * n" using assms by simp
    then have "int k * n < ?l" using q(1) by (simp add: algebra_simps)
    moreover have "int (k * ?m) = int k * n" using assms by simp
    ultimately have "k * ?m < length xs" by (simp only: of_nat_less_iff flip: of_nat_mult)
    moreover have "0 < ?m" using assms by simp
    moreover have len: "length c = min (k * ?m + ?m) (length xs) - k * ?m" by (simp add: k(2))
    ultimately have "0 < length c" "length c \<le> ?m" by linarith+
    then show ?thesis using n by (metis length_greater_0_conv of_nat_le_iff)
  qed
  ultimately show ?thesis unfolding eq by (auto simp: list_all_iff)
qed

definition task_urls :: "planning \<Rightarrow> string list" where
  "task_urls st = concat (map tk_urls (all_args st))"

text \<open>What every step of the planning keeps: chunk sizes, one page per task, numbered in order.\<close>

definition planning_ok :: "options \<Rightarrow> planning \<Rightarrow> bool" where
  "planning_ok opts st \<longleftrightarrow>
     list_all (\<lambda>t. tk_urls t \<noteq> [] \<and> int (length (tk_urls t)) \<le> op_max_urls opts) (all_args st)
     \<and> chunk_id st = (if op_gen_page_runner opts then length (all_args st) else 0)
     \<and> length (url_list st) = chunk_id st \<and> length (page_files st) = chunk_id st"

lemma plan_chunk_ok:
  assumes "planning_ok opts st" and "c \<noteq> [] \<and> int (length c) \<le> op_max_urls opts"
  shows "planning_ok opts (plan_chunk opts host template token conf args pt c st)
    \<and> task_urls (plan_chunk opts host template token conf args pt c st) = task_urls st @ c"
  using assms by (auto simp: planning_ok_def plan_chunk_def Let_def task_urls_def split: prod.splits)

lemma plan_chunks_ok:
  "planning_ok opts st \<Longrightarrow> list_all (\<lambda>c. c \<noteq> [] \<and> int (length c) \<le> op_max_urls opts) cs \<Longrightarrow>
   planning_ok opts (fold (plan_chunk opts host template token conf args pt) cs st)
   \<and> task_urls (fold (plan_chunk opts host template token conf args pt) cs st) = task_urls st @ concat cs"
proof (induction cs arbitrary: st)
  case (Cons c cs)
  have "c \<noteq> [] \<and> int (length c) \<le> op_max_urls opts" using Cons.prems(2) by simp
  with Cons plan_chunk_ok [OF Cons.prems(1) this, of host template token conf args pt] show ?case by simp
qed simp

lemma plan_browser_ok:
  assumes "planning_ok opts st" "0 < op_max_urls opts"
    and "test_urls_of opts plan repeats scheme (bc_id conf) = Inr (urls, pt)"
    and "\<not> op_ignore_certs opts \<or> bc_arguments conf \<noteq> None"
  shows "\<exists>st'. plan_browser opts host template token plan repeats scheme conf st = Inr st'
    \<and> planning_ok opts st' \<and> task_urls st' = task_urls st @ urls"
proof -
  obtain args where "with_ignore_certs opts (bc_arguments conf) = Inr args"
    using assms(4) by (cases "bc_arguments conf"; cases "op_ignore_certs opts") (auto simp: with_ignore_certs_def)
  moreover obtain chunks where "url_chunks (op_max_urls opts) urls = Inr chunks" "concat chunks = urls"
      "list_all (\<lambda>c. c \<noteq> [] \<and> int (length c) \<le> op_max_urls opts) chunks"
    using url_chunks_ok [OF assms(2)] by blast
  ultimately show ?thesis
    using plan_chunks_ok [OF assms(1)] assms(1,3) by (auto simp: plan_browser_def)
qed

lemma rfold_ok:
  assumes "\<And>x s. x \<in> set xs \<Longrightarrow> P s \<Longrightarrow> \<exists>s'. f x s = Inr s' \<and> P s' \<and> out s' = out s @ g x"
  shows "P s \<Longrightarrow> \<exists>s'. rfold f xs s = Inr s' \<and> P s' \<and> out s' = out s @ concat (map g xs)"
  using assms
proof (induction xs arbitrary: s)
  case (Cons x xs)
  then obtain s1 where s1: "f x s = Inr s1" "P s1" "out s1 = out s @ g x" by fastforce
  then obtain s2 where "rfold f xs s1 = Inr s2 \<and> P s2 \<and> out s2 = out s1 @ concat (map g xs)"
    using Cons.IH [OF s1(2)] Cons.prems(2) by fastforce
  with s1 show ?case by simp
qed simp

text \<open>
  the desktop planning succeeds whenever the test URLs could be planned (and, where certificate errors
  are to be ignored, every browser has an argument list); its tasks visit exactly the test URLs of every
  scheme and browser, in order and each once, in chunks of one to \<open>max_urls_until_restart\<close>; in the generation
  mode there is one runner page per task.
\<close>

theorem desktop_plan_visits_all:
  assumes "0 < op_max_urls opts"
    and "\<And>scheme conf. conf \<in> set config \<Longrightarrow>
           \<exists>pt. test_urls_of opts plan repeats scheme (bc_id conf) = Inr (urls scheme conf, pt)"
    and "\<not> op_ignore_certs opts \<or> list_all (\<lambda>conf. bc_arguments conf \<noteq> None) config"
  shows "\<exists>st. desktop_plan opts host template token plan repeats config = Inr st \<and> planning_ok opts st
    \<and> task_urls st = concat (map (urls ''http'') config) @ concat (map (urls ''https'') config)"
proof -
  let ?P = "planning_ok opts" and ?st0 = "\<lparr>all_args = [], url_list = [], chunk_id = 0, page_files = []\<rparr>"
  have "\<exists>s'. plan_browser opts host template token plan repeats scheme conf s = Inr s' \<and> ?P s'
      \<and> task_urls s' = task_urls s @ urls scheme conf" if "conf \<in> set config" "?P s" for scheme conf s
    using assms(2) [OF that(1), of scheme] assms(3) that plan_browser_ok [OF that(2) assms(1)]
    by (auto simp: list_all_iff)
  then have scheme: "\<exists>s'. rfold (plan_browser opts host template token plan repeats scheme) config s = Inr s' \<and> ?P s'
      \<and> task_urls s' = task_urls s @ concat (map (urls scheme) config)" if "?P s" for scheme s
    using that by (intro rfold_ok)
  have "?P ?st0" by (simp add: planning_ok_def)
  then have "\<exists>s'. rfold (\<lambda>scheme. rfold (plan_browser opts host template token plan repeats scheme) config)
       [''http'', ''https''] ?st0 = Inr s' \<and> ?P s'
     \<and> task_urls s' = task_urls ?st0 @ concat (map (\<lambda>scheme. concat (map (urls scheme) config)) [''http'', ''https''])"
    by (intro rfold_ok scheme)
  then show ?thesis by (simp add: desktop_plan_def task_urls_def)
qed

definition demo_options :: options where
  "demo_options = \<lparr>op_ignore_certs = True, op_debug_input = False, op_run_mode = ''run_all'', op_max_urls = 2,
     op_timeout_task = 1500, op_gen_page_runner = False, op_gen_multiplier = 1\<rparr>"

definition demo_browser :: browser_conf where
  "demo_browser = \<lparr>bc_name = ''chrome'', bc_version = ''121'', bc_binary = None, bc_arguments = Some [], bc_id = 3\<rparr>"

theorem desktop_plan_visits_all_witness:
  "\<exists>st. desktop_plan demo_options [] [] [] (\<lambda>i scheme. Inr [scheme, ''b'', ''c'']) (\<lambda>_. None) [demo_browser] = Inr st
    \<and> planning_ok demo_options st \<and> task_urls st = [''http'', ''b'', ''c'', ''https'', ''b'', ''c'']"
  using desktop_plan_visits_all [of demo_options "[demo_browser]" "\<lambda>i scheme. Inr [scheme, ''b'', ''c'']" "\<lambda>_. None"
      "\<lambda>scheme _. [scheme, ''b'', ''c'']" "[]" "[]" "[]"]
  by (simp add: demo_options_def demo_browser_def test_urls_of_def)

end
