(* ===== verification/Browser_Run.thy ===== *)
theory Browser_Run
  imports Scheduling Py_Effects "HOL-Library.Sublist"
begin

text \<open>
  Visiting the URLs of one task: \<open>get_browser\<close> and \<open>run_task\<close> of \<open>desktop_selenium.py\<close>. Selenium and the
  processes are outside the sources: a run is the list of the calls made to them, and an oracle says for
  each call how it ends, with a value, with an exception, or interrupted by the task's alarm
  (\<open>CustomTimeout\<close>, which is not an \<open>Exception\<close>). Log output is left out.
\<close>

datatype outcome = Completes | FailsDriver | FailsOther | TimesOut

datatype call =
    StartBrowser string
  | ChildProcesses
  | PageLoadTimeout int
  | OriginalWindow
  | MoveOffscreen
  | NewWindow
  | CurrentWindow
  | DeactivateHsts
  | LoadTest string
  | SwitchToTest
  | WaitFinished int
  | CurrentUrl
  | DebugInput
  | CloseWindow
  | SwitchToOriginal
  | QuitDriver

text \<open>\<open>FailsDriver\<close> is a \<open>WebDriverException\<close> or an \<open>OSError\<close>; both failures are \<open>Exception\<close>s.\<close>

datatype signal = DriverExc | OtherExc | TaskTimeout

type_synonym endings = "nat \<Rightarrow> call \<Rightarrow> outcome"
type_synonym 'a run = "(signal, call list, 'a) act"

definition make_call :: "endings \<Rightarrow> call \<Rightarrow> unit run" where
  "make_call ends c tr =
     (case ends (length tr) c of
        Completes \<Rightarrow> (Inr (), tr @ [c])
      | FailsDriver \<Rightarrow> (Inl DriverExc, tr @ [c])
      | FailsOther \<Rightarrow> (Inl OtherExc, tr @ [c])
      | TimesOut \<Rightarrow> (Inl TaskTimeout, tr @ [c]))"

fun all_calls_of :: "endings \<Rightarrow> call list \<Rightarrow> unit run" where
  "all_calls_of ends [] = give ()"
| "all_calls_of ends (c # cs) = and_then (make_call ends c) (\<lambda>_. all_calls_of ends cs)"

definition is_exception :: "signal \<Rightarrow> bool" where
  "is_exception e \<longleftrightarrow> e \<noteq> TaskTimeout"

section \<open>The driver\<close>

text \<open>What \<open>get_browser\<close> returns: a driver, or, for an unsupported browser, an exception object.\<close>

datatype driver = Driver | NotADriver

definition supported :: "string \<Rightarrow> bool" where
  "supported browser \<longleftrightarrow> browser \<in> {''chrome'', ''brave'', ''firefox'', ''safari'', ''edge''}"

definition get_browser :: "endings \<Rightarrow> string \<Rightarrow> driver run" where
  "get_browser ends browser =
     (if supported browser then and_then (make_call ends (StartBrowser browser)) (\<lambda>_. give Driver)
      else give NotADriver)"

section \<open>One page\<close>

text \<open>\<open>int(re.search("timeout=(\d+)", url)[1])\<close>; \<open>None\<close> where the pattern does not occur.\<close>

fun url_timeout :: "string \<Rightarrow> int option" where
  "url_timeout [] = None"
| "url_timeout (c # cs) =
     (let ds = takeWhile is_digit (drop 8 (c # cs))
      in if starts_with ''timeout='' (c # cs) \<and> ds \<noteq> [] then int_digits False 0 ds else url_timeout cs)"

definition open_page :: "endings \<Rightarrow> string \<Rightarrow> int \<Rightarrow> string \<Rightarrow> unit run" where
  "open_page ends browser page_timeout url =
     and_then (all_calls_of ends
         ([MoveOffscreen, NewWindow, MoveOffscreen, CurrentWindow]
          @ (if contains_sub ''upgrade'' url then [DeactivateHsts] else []) @ [LoadTest url]))
       (\<lambda>_. and_then (if browser = ''firefox''
                      then try_except (make_call ends SwitchToTest) is_exception (give ()) else give ())
       (\<lambda>_. case (if contains_sub ''test-page-runner'' url then Some 0 else url_timeout url) of
               None \<Rightarrow> raise OtherExc
             | Some t \<Rightarrow> make_call ends (WaitFinished (max page_timeout (t + 2)))))"

text \<open>An exception is logged with the current URL of the driver; the window is closed in any case.\<close>

definition visit :: "endings \<Rightarrow> string \<Rightarrow> int \<Rightarrow> bool \<Rightarrow> string \<Rightarrow> unit run" where
  "visit ends browser page_timeout debug_input url =
     try_finally
       (try_except (open_page ends browser page_timeout url) is_exception (make_call ends CurrentUrl))
       (all_calls_of ends ((if debug_input then [DebugInput] else []) @ [CloseWindow, SwitchToOriginal]))"

fun visit_all :: "endings \<Rightarrow> string \<Rightarrow> int \<Rightarrow> bool \<Rightarrow> string list \<Rightarrow> unit run" where
  "visit_all ends browser page_timeout debug_input [] = give ()"
| "visit_all ends browser page_timeout debug_input (url # urls) =
     and_then (visit ends browser page_timeout debug_input url)
       (\<lambda>_. visit_all ends browser page_timeout debug_input urls)"

section \<open>The task\<close>

text \<open>
  The result is the list of processes: the children of the driver once they are known, else none. The
  driver is unbound (\<open>None\<close>) in the clean-up when no browser could be started.
\<close>

definition run_body ::
  "endings \<Rightarrow> 'p list \<Rightarrow> string \<Rightarrow> int \<Rightarrow> bool \<Rightarrow> string list \<Rightarrow> call list
     \<Rightarrow> (driver option \<times> 'p list) \<times> call list" where
  "run_body ends children browser page_timeout debug_input urls tr =
     (case try_except (get_browser ends browser) ((=) DriverExc) (get_browser ends browser) tr of
        (Inl e, tr1) \<Rightarrow> ((None, []), tr1)
      | (Inr NotADriver, tr1) \<Rightarrow> ((Some NotADriver, []), tr1)
      | (Inr Driver, tr1) \<Rightarrow>
          (case make_call ends ChildProcesses tr1 of
             (Inl e, tr2) \<Rightarrow> ((Some Driver, []), tr2)
           | (Inr _, tr2) \<Rightarrow>
               (case and_then (all_calls_of ends [PageLoadTimeout (2 * page_timeout), OriginalWindow])
                       (\<lambda>_. visit_all ends browser page_timeout debug_input urls) tr2 of
                  (_, tr3) \<Rightarrow> ((Some Driver, children), tr3))))"

definition close_driver :: "endings \<Rightarrow> string \<Rightarrow> driver option \<Rightarrow> call list \<Rightarrow> call list" where
  "close_driver ends browser d tr =
     (if d = Some Driver
      then snd (all_calls_of ends ((if browser \<in> {''safari'', ''firefox''} then [] else [CloseWindow]) @ [QuitDriver]) tr)
      else tr)"

definition run_task ::
  "endings \<Rightarrow> 'p list \<Rightarrow> string \<Rightarrow> int \<Rightarrow> bool \<Rightarrow> string list \<Rightarrow> 'p list \<times> call list" where
  "run_task ends children browser page_timeout debug_input urls =
     (case run_body ends children browser page_timeout debug_input urls [] of
        ((d, processes), tr) \<Rightarrow> (processes, close_driver ends browser d tr))"

section \<open>The pages a task loads\<close>

definition loaded :: "call list \<Rightarrow> string list" where
  "loaded tr = concat (map (\<lambda>c. case c of LoadTest url \<Rightarrow> [url] | _ \<Rightarrow> []) tr)"

lemma loaded_simps [simp]: "loaded [] = []" "loaded (xs @ ys) = loaded xs @ loaded ys"
  "loaded (c # cs) = (case c of LoadTest url \<Rightarrow> [url] | _ \<Rightarrow> []) @ loaded cs"
  by (simp_all add: loaded_def)

text \<open>Whatever happens, the action only adds calls, and the pages it loads are among \<open>L\<close>, in order.\<close>

definition adds :: "'a run \<Rightarrow> string list \<Rightarrow> bool" where
  "adds m L \<longleftrightarrow> (\<forall>tr. \<exists>es. snd (m tr) = tr @ es \<and> subseq (loaded es) L)"

lemma addsI: "(\<And>tr. \<exists>es. snd (m tr) = tr @ es \<and> subseq (loaded es) L) \<Longrightarrow> adds m L"
  by (simp add: adds_def)

lemma adds_give [intro]: "adds (give x) L"
  by (simp add: adds_def give_def)

lemma adds_raise [intro]: "adds (raise e) L"
  by (simp add: adds_def raise_def)

lemma adds_call [intro]: "adds (make_call ends c) (loaded [c])"
  by (auto simp: adds_def make_call_def split: outcome.split)

lemma adds_and_then [intro]:
  assumes "adds m L1" "\<And>x. adds (f x) L2"
  shows "adds (and_then m f) (L1 @ L2)"
proof (rule addsI)
  fix tr
  obtain r tr' where m: "m tr = (r, tr')" by (cases "m tr")
  obtain es where es: "tr' = tr @ es" "subseq (loaded es) L1" using assms(1) m by (metis adds_def snd_conv)
  show "\<exists>es. snd (and_then m f tr) = tr @ es \<and> subseq (loaded es) (L1 @ L2)"
  proof (cases r)
    case (Inl e)
    then show ?thesis using m es by (auto simp: and_then_def intro: subseq_rev_drop_many)
  next
    case (Inr x)
    obtain es2 where "snd (f x tr') = tr' @ es2" "subseq (loaded es2) L2" using assms(2) [of x] by (auto simp: adds_def)
    then show ?thesis using m es Inr by (auto simp: and_then_def intro!: exI [of _ "es @ es2"] list_emb_append_mono)
  qed
qed

lemma adds_try_except [intro]:
  assumes "adds m L1" "adds h L2"
  shows "adds (try_except m p h) (L1 @ L2)"
proof (rule addsI)
  fix tr
  obtain r tr' where m: "m tr = (r, tr')" by (cases "m tr")
  obtain es where es: "tr' = tr @ es" "subseq (loaded es) L1" using assms(1) m by (metis adds_def snd_conv)
  obtain es2 where "snd (h tr') = tr' @ es2" "subseq (loaded es2) L2" using assms(2) by (auto simp: adds_def)
  moreover have "subseq (loaded es) (L1 @ L2)" using es(2) by (rule subseq_rev_drop_many)
  ultimately show "\<exists>es. snd (try_except m p h tr) = tr @ es \<and> subseq (loaded es) (L1 @ L2)"
    using m es by (auto simp: try_except_def split: sum.split intro!: exI [of _ "es @ es2"] list_emb_append_mono)
qed

lemma adds_try_finally [intro]:
  assumes "adds m L1" "adds h L2"
  shows "adds (try_finally m h) (L1 @ L2)"
proof (rule addsI)
  fix tr
  obtain r tr' where m: "m tr = (r, tr')" by (cases "m tr")
  obtain es where es: "tr' = tr @ es" "subseq (loaded es) L1" using assms(1) m by (metis adds_def snd_conv)
  obtain q tr2 where h: "h tr' = (q, tr2)" by (cases "h tr'")
  then obtain es2 where "tr2 = tr' @ es2" "subseq (loaded es2) L2" using assms(2) by (metis adds_def snd_conv)
  then show "\<exists>es. snd (try_finally m h tr) = tr @ es \<and> subseq (loaded es) (L1 @ L2)"
    using m es h by (auto simp: try_finally_def split: sum.split intro!: exI [of _ "es @ es2"] list_emb_append_mono)
qed

lemma adds_calls: "adds (all_calls_of ends cs) (loaded cs)"
proof (induction cs)
  case (Cons c cs)
  have "adds (and_then (make_call ends c) (\<lambda>_. all_calls_of ends cs)) (loaded [c] @ loaded cs)"
    using Cons by (intro adds_and_then adds_call)
  then show ?case by simp
qed auto

lemma adds_silent: "loaded [c] = [] \<Longrightarrow> adds (make_call ends c) []"
  using adds_call [of ends c] by simp

lemma adds_calls_to: "loaded cs = L \<Longrightarrow> adds (all_calls_of ends cs) L"
  using adds_calls by blast

lemma adds_open_page: "adds (open_page ends browser page_timeout url) [url]"
proof -
  let ?cs = "[MoveOffscreen, NewWindow, MoveOffscreen, CurrentWindow]
    @ (if contains_sub ''upgrade'' url then [DeactivateHsts] else []) @ [LoadTest url]"
  have cs: "adds (all_calls_of ends ?cs) [url]" by (rule adds_calls_to) simp
  have sw: "adds (if browser = ''firefox'' then try_except (make_call ends SwitchToTest) is_exception (give ())
      else give ()) []"
    using adds_try_except [OF adds_silent [of SwitchToTest ends] adds_give [of "()" "[]"], of is_exception] by auto
  have w: "adds (case t of None \<Rightarrow> raise OtherExc | Some t \<Rightarrow> make_call ends (WaitFinished (max page_timeout (t + 2)))) []" for t
    using adds_silent by (auto split: option.split)
  have "adds (open_page ends browser page_timeout url) ([url] @ [] @ [])"
    unfolding open_page_def by (intro adds_and_then cs sw w)
  then show ?thesis by simp
qed

lemma adds_visit: "adds (visit ends browser page_timeout debug_input url) [url]"
proof -
  have "adds (all_calls_of ends ((if debug_input then [DebugInput] else []) @ [CloseWindow, SwitchToOriginal])) []"
    by (rule adds_calls_to) simp
  moreover have "adds (try_except (open_page ends browser page_timeout url) is_exception (make_call ends CurrentUrl)) [url]"
    using adds_try_except [OF adds_open_page adds_silent [of CurrentUrl]] by simp
  ultimately show ?thesis
    using adds_try_finally unfolding visit_def by fastforce
qed

lemma adds_visit_all: "adds (visit_all ends browser page_timeout debug_input urls) urls"
proof (induction urls)
  case (Cons url urls)
  then have "adds (and_then (visit ends browser page_timeout debug_input url)
      (\<lambda>_. visit_all ends browser page_timeout debug_input urls)) ([url] @ urls)"
    by (intro adds_and_then adds_visit)
  then show ?case by simp
qed auto

lemma adds_get_browser: "adds (get_browser ends browser) []"
  using adds_and_then [OF adds_silent adds_give, of "StartBrowser browser" ends "\<lambda>_. Driver" "[]"]
  by (auto simp: get_browser_def)

lemma addsE: "adds m L \<Longrightarrow> m tr = (r, tr') \<Longrightarrow> \<exists>es. tr' = tr @ es \<and> subseq (loaded es) L"
  by (metis adds_def snd_conv)

lemma run_body_loads: "subseq (loaded (snd (run_body ends children browser page_timeout debug_input urls []))) urls"
proof -
  let ?get = "try_except (get_browser ends browser) ((=) DriverExc) (get_browser ends browser)"
  obtain r tr1 where g: "?get [] = (r, tr1)" by (cases "?get []")
  have "adds ?get []" using adds_try_except [OF adds_get_browser adds_get_browser] by simp
  then have l1: "loaded tr1 = []" using addsE [of ?get "[]" "[]" r tr1] g by auto
  obtain q tr2 where c: "make_call ends ChildProcesses tr1 = (q, tr2)" by (cases "make_call ends ChildProcesses tr1")
  have l2: "loaded tr2 = []" using addsE [OF adds_silent [of ChildProcesses] c] l1 by auto
  let ?rest = "and_then (all_calls_of ends [PageLoadTimeout (2 * page_timeout), OriginalWindow])
      (\<lambda>_. visit_all ends browser page_timeout debug_input urls)"
  obtain p tr3 where v: "?rest tr2 = (p, tr3)" by (cases "?rest tr2")
  have "adds ?rest ([] @ urls)" by (intro adds_and_then adds_visit_all) (simp_all add: adds_calls_to del: all_calls_of.simps)
  then have l3: "subseq (loaded tr3) urls" using addsE [of ?rest "[] @ urls" tr2 p tr3] v l2 by auto
  show ?thesis
    using l1 l2 l3 g c v by (auto simp: run_body_def split: sum.splits driver.splits)
qed

text \<open>
  whatever fails or times out in a task, the pages it loads are test URLs of the task, in their order
  and none twice.
\<close>

theorem run_task_loads_in_order:
  "subseq (loaded (snd (run_task ends children browser page_timeout debug_input urls))) urls"
proof -
  obtain d ps tr where b: "run_body ends children browser page_timeout debug_input urls [] = ((d, ps), tr)"
    by (metis surj_pair)
  let ?cs = "(if browser \<in> {''safari'', ''firefox''} then [] else [CloseWindow]) @ [QuitDriver]"
  have "adds (all_calls_of ends ?cs) []" by (rule adds_calls_to) simp
  then have "\<exists>es. snd (all_calls_of ends ?cs tr) = tr @ es \<and> loaded es = []"
    unfolding adds_def by (metis list_emb_Nil2)
  then have "\<exists>es. close_driver ends browser d tr = tr @ es \<and> loaded es = []"
    by (simp add: close_driver_def del: all_calls_of.simps)
  then show ?thesis using run_body_loads [of ends children browser page_timeout debug_input urls] b
    by (auto simp: run_task_def)
qed

section \<open>Failing pages do not stop the task\<close>

text \<open>The calls a page can make fail: loading it, switching to its window, and waiting for its end.\<close>

definition page_call :: "call \<Rightarrow> bool" where
  "page_call c = (case c of LoadTest _ \<Rightarrow> True | SwitchToTest \<Rightarrow> True | WaitFinished _ \<Rightarrow> True | _ \<Rightarrow> False)"

definition only_pages_fail :: "endings \<Rightarrow> bool" where
  "only_pages_fail ends \<longleftrightarrow> (\<forall>i c. ends i c \<noteq> TimesOut \<and> (page_call c \<or> ends i c = Completes))"

lemma sure_call: "only_pages_fail ends \<Longrightarrow> \<not> page_call c \<Longrightarrow> make_call ends c tr = (Inr (), tr @ [c])"
proof -
  assume "only_pages_fail ends" "\<not> page_call c"
  then have "ends (length tr) c = Completes" unfolding only_pages_fail_def by blast
  then show ?thesis by (simp add: make_call_def)
qed

lemma sure_calls:
  "only_pages_fail ends \<Longrightarrow> list_all (\<lambda>c. \<not> page_call c) cs \<Longrightarrow> all_calls_of ends cs tr = (Inr (), tr @ cs)"
  by (induction cs arbitrary: tr) (simp_all add: sure_call and_then_def give_def)

lemma page_call_result:
  "only_pages_fail ends \<Longrightarrow> \<exists>r. make_call ends c tr = (r, tr @ [c]) \<and> (\<forall>e. r = Inl e \<longrightarrow> is_exception e)"
  by (auto simp: only_pages_fail_def make_call_def is_exception_def split: outcome.split)

lemma all_calls_append:
  "all_calls_of ends (xs @ ys) tr = and_then (all_calls_of ends xs) (\<lambda>_. all_calls_of ends ys) tr"
  by (induction xs arbitrary: tr) (auto simp: and_then_def give_def split: prod.splits sum.splits)

text \<open>Such an action ends with a value or an exception and loads exactly the pages \<open>L\<close>.\<close>

definition safe :: "'a run \<Rightarrow> string list \<Rightarrow> bool" where
  "safe m L \<longleftrightarrow> (\<forall>tr. \<exists>r es. m tr = (r, tr @ es) \<and> loaded es = L \<and> r \<noteq> Inl TaskTimeout)"

lemma safe_call: "only_pages_fail ends \<Longrightarrow> L = loaded [c] \<Longrightarrow> safe (make_call ends c) L"
  unfolding safe_def using page_call_result [of ends c] by (fastforce simp: is_exception_def)

lemma safe_give: "safe (give x) []"
  by (simp add: safe_def give_def)

lemma safe_raise: "safe (raise OtherExc) []"
  by (simp add: safe_def raise_def)

lemma safe_and_then: "safe m L \<Longrightarrow> (\<And>x. safe (f x) []) \<Longrightarrow> safe (and_then m f) L"
  unfolding safe_def
proof (intro allI)
  fix tr
  assume m: "\<forall>tr. \<exists>r es. m tr = (r, tr @ es) \<and> loaded es = L \<and> r \<noteq> Inl TaskTimeout"
    and f: "\<And>x. \<forall>tr. \<exists>r es. f x tr = (r, tr @ es) \<and> loaded es = [] \<and> r \<noteq> Inl TaskTimeout"
  obtain r es where r: "m tr = (r, tr @ es)" "loaded es = L" "r \<noteq> Inl TaskTimeout" using m by blast
  show "\<exists>r es. and_then m f tr = (r, tr @ es) \<and> loaded es = L \<and> r \<noteq> Inl TaskTimeout"
  proof (cases r)
    case (Inr x)
    obtain q es2 where "f x (tr @ es) = (q, (tr @ es) @ es2)" "loaded es2 = []" "q \<noteq> Inl TaskTimeout"
      using f by blast
    then show ?thesis using r Inr by (intro exI [of _ q] exI [of _ "es @ es2"]) (simp add: and_then_def)
  qed (use r in \<open>auto simp: and_then_def\<close>)
qed

text \<open>A handler of all exceptions that itself cannot fail.\<close>

lemma safe_try:
  assumes "safe m L" "\<And>tr. h tr = (Inr x, tr @ hs)" "loaded hs = []"
  shows "\<exists>y es. try_except m is_exception h tr = (Inr y, tr @ es) \<and> loaded es = L"
proof -
  obtain r es where "m tr = (r, tr @ es)" "loaded es = L" "r \<noteq> Inl TaskTimeout"
    using assms(1) unfolding safe_def by blast
  then show ?thesis using assms(2,3)
    by (cases r) (auto simp: try_except_def is_exception_def intro!: exI [of _ "es @ hs"])
qed

lemma safe_prefix:
  assumes "\<And>tr. all_calls_of ends pre tr = (Inr (), tr @ pre)" "loaded pre = []" "safe (all_calls_of ends cs) L"
  shows "safe (all_calls_of ends (pre @ cs)) L"
  unfolding safe_def
proof
  fix tr
  obtain r es where "all_calls_of ends cs (tr @ pre) = (r, (tr @ pre) @ es)" "loaded es = L" "r \<noteq> Inl TaskTimeout"
    using assms(3) unfolding safe_def by blast
  then show "\<exists>r es. all_calls_of ends (pre @ cs) tr = (r, tr @ es) \<and> loaded es = L \<and> r \<noteq> Inl TaskTimeout"
    using assms(1,2) by (intro exI [of _ r] exI [of _ "pre @ es"]) (simp add: all_calls_append and_then_def)
qed

lemma safe_open_page:
  assumes "only_pages_fail ends"
  shows "safe (open_page ends browser page_timeout url) [url]"
proof -
  let ?pre = "[MoveOffscreen, NewWindow, MoveOffscreen, CurrentWindow]
    @ (if contains_sub ''upgrade'' url then [DeactivateHsts] else [])"
  have pre: "all_calls_of ends ?pre tr = (Inr (), tr @ ?pre)" for tr
    by (rule sure_calls [OF assms]) (simp add: page_call_def)
  have "safe (and_then (make_call ends (LoadTest url)) (\<lambda>_. give ())) [url]"
    by (intro safe_and_then safe_call [OF assms] safe_give) simp
  then have load: "safe (all_calls_of ends [LoadTest url]) [url]" by simp
  have "safe (all_calls_of ends (?pre @ [LoadTest url])) [url]"
    by (rule safe_prefix [OF pre _ load]) simp
  moreover have "safe (if browser = ''firefox'' then try_except (make_call ends SwitchToTest) is_exception (give ())
      else give ()) []"
    using safe_try [OF safe_call [OF assms], of "[]" SwitchToTest "give ()" "()" "[]"] safe_give
    unfolding safe_def by (auto simp: give_def) (metis Inl_Inr_False)
  moreover have "safe (case t of None \<Rightarrow> raise OtherExc
      | Some t \<Rightarrow> make_call ends (WaitFinished (max page_timeout (t + 2)))) []" for t
    by (auto split: option.split intro: safe_raise safe_call [OF assms])
  ultimately show ?thesis
    unfolding open_page_def append_assoc by (intro safe_and_then)
qed

lemma visit_sure:
  assumes "only_pages_fail ends"
  shows "\<exists>es. visit ends browser page_timeout debug_input url tr = (Inr (), tr @ es) \<and> loaded es = [url]"
proof -
  let ?cs = "(if debug_input then [DebugInput] else []) @ [CloseWindow, SwitchToOriginal]"
  obtain es where es: "try_except (open_page ends browser page_timeout url) is_exception (make_call ends CurrentUrl) tr
      = (Inr (), tr @ es)" "loaded es = [url]"
    using safe_try [OF safe_open_page [OF assms], of "make_call ends CurrentUrl" "()" "[CurrentUrl]"]
      sure_call [OF assms, of CurrentUrl] by (simp add: page_call_def) blast
  have "all_calls_of ends ?cs (tr @ es) = (Inr (), (tr @ es) @ ?cs)"
    by (rule sure_calls [OF assms]) (simp add: page_call_def)
  then show ?thesis
    using es by (intro exI [of _ "es @ ?cs"]) (simp add: visit_def try_finally_def del: all_calls_of.simps)
qed

lemma visit_all_sure:
  "only_pages_fail ends \<Longrightarrow>
   \<exists>es. visit_all ends browser page_timeout debug_input urls tr = (Inr (), tr @ es) \<and> loaded es = urls"
proof (induction urls arbitrary: tr)
  case (Cons url urls)
  obtain es where es: "visit ends browser page_timeout debug_input url tr = (Inr (), tr @ es)" "loaded es = [url]"
    using visit_sure [OF Cons.prems] by blast
  obtain es2 where "visit_all ends browser page_timeout debug_input urls (tr @ es) = (Inr (), (tr @ es) @ es2)"
      "loaded es2 = urls"
    using Cons by blast
  then show ?case using es by (intro exI [of _ "es @ es2"]) (simp add: and_then_def)
qed (simp add: give_def)

text \<open>
  C40: pages that fail to load, to get the focus or to finish in time do not stop a task: if nothing else
  fails and the alarm does not strike, every test URL is loaded once and in order, the browser is quit as
  the last call, and its processes are returned.
\<close>

theorem failing_pages_do_not_stop_task:
  assumes "only_pages_fail ends" and "supported browser"
  shows "\<exists>tr. run_task ends children browser page_timeout debug_input urls = (children, tr @ [QuitDriver])
    \<and> loaded tr = urls"
proof -
  have c: "make_call ends c tr = (Inr (), tr @ [c])" if "\<not> page_call c" for c tr
    using sure_call [OF assms(1) that] .
  obtain es where es: "visit_all ends browser page_timeout debug_input urls
      [StartBrowser browser, ChildProcesses, PageLoadTimeout (2 * page_timeout), OriginalWindow]
      = (Inr (), [StartBrowser browser, ChildProcesses, PageLoadTimeout (2 * page_timeout), OriginalWindow] @ es)"
      "loaded es = urls"
    using visit_all_sure [OF assms(1)] by blast
  let ?pre = "[StartBrowser browser, ChildProcesses, PageLoadTimeout (2 * page_timeout), OriginalWindow]"
  let ?close = "if browser \<in> {''safari'', ''firefox''} then [] else [CloseWindow]"
  have b: "run_body ends children browser page_timeout debug_input urls [] = ((Some Driver, children), ?pre @ es)"
    using assms(2) es(1) c
    by (simp add: run_body_def try_except_def get_browser_def and_then_def give_def page_call_def)
  have "all_calls_of ends (?close @ [QuitDriver]) (?pre @ es) = (Inr (), (?pre @ es) @ ?close @ [QuitDriver])"
    by (rule sure_calls [OF assms(1)]) (simp add: page_call_def)
  then show ?thesis
    unfolding run_task_def b close_driver_def
    by (intro exI [of _ "?pre @ es @ ?close"]) (simp add: es(2) del: all_calls_of.simps)
qed

theorem failing_pages_do_not_stop_task_witness:
  "\<exists>tr. run_task (\<lambda>i c. case c of LoadTest u \<Rightarrow> FailsOther | _ \<Rightarrow> Completes) [4711 :: nat] ''chrome'' 7 False [''u1'', ''u2'']
    = ([4711], tr @ [QuitDriver]) \<and> loaded tr = [''u1'', ''u2'']"
  by (rule failing_pages_do_not_stop_task)
    (auto simp: only_pages_fail_def page_call_def supported_def split: call.split)

end
