(* ===== verification/Android.thy ===== *)
theory Android
  imports Scheduling
begin

text \<open>
  The Android runner (\<open>_hp/hp/tools/crawler/android_intent.py\<close>): device ids and emulator names, waiting
  for an emulator, the app list, its distribution over the devices, and the visits of one device. The
  output of adb and numpy's \<open>array_split\<close> are parameters; a run is the list of the visits, restarts and
  stops it makes.
\<close>

section \<open>Devices\<close>

text \<open>The device ids in the (stripped) output of \<open>adb devices\<close>.\<close>

definition available_devices :: "string \<Rightarrow> string list" where
  "available_devices cmd_output =
     map (\<lambda>line. hd (split_on (char_of (9 :: nat)) line))
       (filter (\<lambda>line. \<not> starts_with ''List of devices attached'' line \<and> \<not> contains_sub ''offline'' line)
         (split_on (char_of (10 :: nat)) (strip_by is_str_space cmd_output)))"

text \<open>\<open>int((emulator_port - 5554) / 2 + 1)\<close>: \<open>int\<close> truncates towards zero.\<close>

definition get_emulator_avd_name :: "string \<Rightarrow> string res" where
  "get_emulator_avd_name device_id =
     rbind (of_option ValueError (py_int (last (split_on (CHR ''-'') device_id)))) (\<lambda>emulator_port.
       let twice = emulator_port - 5554 + 2
       in Inr (int_str (if 0 \<le> twice then twice div 2 else - ((- twice) div 2))))"

definition get_port_by_emulator_avd_name :: "string \<Rightarrow> int res" where
  "get_port_by_emulator_avd_name device_avd_name =
     rbind (of_option ValueError (py_int device_avd_name)) (\<lambda>n.
       Inr (fold (\<lambda>_ port. port + 2) [1..n] 5552))"

text \<open>
  The waiting loop of \<open>start_emulator_by_avd_name\<close>: \<open>poll k\<close> are the devices the k-th query lists. The
  result is whether the emulator was seen and the number of queries.
\<close>

function await_emulator :: "(nat \<Rightarrow> string list) \<Rightarrow> string \<Rightarrow> nat \<Rightarrow> bool \<times> nat" where
  "await_emulator poll dev max_times =
     (if max_times \<le> 100
      then if dev \<in> set (poll max_times) then (True, max_times + 1) else await_emulator poll dev (max_times + 1)
      else (False, max_times))"
  by pat_completeness auto
termination
  by (relation "measure (\<lambda>(_, _, n). 101 - n)") auto

declare await_emulator.simps [simp del]

section \<open>The app list\<close>

record app =
  package_name :: string
  activity_name :: string
  test_url :: string

text \<open>The configuration of a browser and the id the database gives it.\<close>

record android_browser =
  ab_package :: string
  ab_intent :: string
  ab_id :: int

text \<open>
  The URLs one browser adds: the planned ones (\<open>plan\<close>, \<open>get_tests\<close> with one popup per URL and timeout
  modifier 2) or, with a URL dictionary, those under its id.
\<close>

definition browser_urls ::
  "(int \<Rightarrow> string \<Rightarrow> string list res) \<Rightarrow> (string \<times> string list) list \<Rightarrow> android_browser \<Rightarrow> string list res" where
  "browser_urls plan url_dict b =
     (if url_dict = []
      then rbind (rmap (plan (ab_id b)) [''http'', ''https'']) (\<lambda>urls. Inr (concat urls))
      else Inr (case map_of url_dict (int_str (ab_id b)) of None \<Rightarrow> [] | Some urls \<Rightarrow> urls))"

text \<open>One round of the loop over the browsers, on \<open>(url_list, app_list)\<close>.\<close>

definition add_browser ::
  "(int \<Rightarrow> string \<Rightarrow> string list res) \<Rightarrow> (string \<times> string list) list \<Rightarrow> int \<Rightarrow> android_browser
     \<Rightarrow> string list \<times> app list \<Rightarrow> (string list \<times> app list) res" where
  "add_browser plan url_dict repeat_times b st =
     rbind (browser_urls plan url_dict b) (\<lambda>urls.
       let url_list = fst st @ urls
       in Inr (url_list, snd st @ concat (replicate (nat repeat_times)
            (map (\<lambda>url. \<lparr>package_name = ab_package b, activity_name = ab_intent b, test_url = url\<rparr>) url_list))))"

definition android_apps ::
  "(int \<Rightarrow> string \<Rightarrow> string list res) \<Rightarrow> (string \<times> string list) list \<Rightarrow> int \<Rightarrow> android_browser list
     \<Rightarrow> app list res" where
  "android_apps plan url_dict repeat_times browsers =
     rbind (rfold (add_browser plan url_dict repeat_times) browsers ([], [])) (\<lambda>st. Inr (snd st))"

record device_job =
  dj_apps :: "app list"
  dj_device :: string
  dj_auto_restart :: bool

text \<open>\<open>np.array_split\<close> raises for zero sections, and so does a missing device.\<close>

definition device_jobs ::
  "(app list \<Rightarrow> nat \<Rightarrow> app list list) \<Rightarrow> bool \<Rightarrow> string list \<Rightarrow> app list \<Rightarrow> device_job list res" where
  "device_jobs array_split auto_restart device_ids apps =
     (if device_ids = [] then Inl ValueError
      else rmap (\<lambda>(index, working_list).
             if index < length device_ids
             then Inr \<lparr>dj_apps = working_list, dj_device = device_ids ! index, dj_auto_restart = auto_restart\<rparr>
             else Inl IndexError)
           (enumerate 0 (array_split apps (length device_ids))))"

section \<open>The visits of a device\<close>

datatype event =
    Visit string string string string
  | StopEmulator string
  | StartEmulator string

text \<open>\<open>send_url_intent\<close> gets the URL with the run id and with its ampersands escaped for the shell.\<close>

definition visit_app :: "string \<Rightarrow> string \<Rightarrow> app \<Rightarrow> event" where
  "visit_app device_id run_id a =
     Visit device_id (package_name a) (activity_name a)
       (replace_sub ''&'' [char_of (92 :: nat), CHR ''&''] (test_url a @ ''&run_id='' @ run_id))"

fun run_visits :: "string \<Rightarrow> string \<Rightarrow> bool \<Rightarrow> nat \<Rightarrow> (app \<times> string) list \<Rightarrow> event list" where
  "run_visits device avd auto_restart run_times [] = []"
| "run_visits device avd auto_restart run_times ((a, run_id) # rest) =
     visit_app device run_id a
     # (if 100 \<le> run_times + 1 \<and> auto_restart
        then [StopEmulator avd, StartEmulator avd] @ run_visits device avd auto_restart 0 rest
        else run_visits device avd auto_restart (run_times + 1) rest)"

definition run_test :: "(nat \<Rightarrow> string) \<Rightarrow> device_job \<Rightarrow> event list res" where
  "run_test run_ids job =
     rbind (get_emulator_avd_name (dj_device job)) (\<lambda>avd.
       Inr (run_visits (dj_device job) avd (dj_auto_restart job) 0
              (map (\<lambda>(i, a). (a, run_ids i)) (enumerate 0 (dj_apps job))) @ [StopEmulator avd]))"

section \<open>Properties\<close>

lemma fold_plus2: "fold (\<lambda>_ port. port + 2) xs p = p + 2 * int (length xs)" for p :: int
  by (induction xs arbitrary: p) auto

lemma emulator_port_back:
  "split_on (CHR ''-'') (''emulator-'' @ nat_str n) = [''emulator'', nat_str n]"
proof -
  have "CHR ''-'' \<notin> set (nat_str n)" using nat_str_digits is_digit_not_special by blast
  then show ?thesis using split_on_append_sep [of "CHR ''-''" "''emulator''" "nat_str n"]
    by (simp add: split_on_absent)
qed

lemma avd_name_port_roundtrip_aux:
  assumes "0 \<le> n"
  shows "\<exists>port. get_port_by_emulator_avd_name (int_str n) = Inr port
    \<and> get_emulator_avd_name (''emulator-'' @ int_str port) = Inr (int_str n)"
proof -
  have p: "get_port_by_emulator_avd_name (int_str n) = Inr (5552 + 2 * n)"
    using assms by (simp add: get_port_by_emulator_avd_name_def fold_plus2)
  have s: "int_str (5552 + 2 * n) = nat_str (nat (5552 + 2 * n))" using assms by (simp add: int_str_def)
  have "get_emulator_avd_name (''emulator-'' @ int_str (5552 + 2 * n)) = Inr (int_str n)"
    unfolding get_emulator_avd_name_def s emulator_port_back using assms by (simp add: Let_def)
  with p show ?thesis by simp
qed

text \<open>
  emulator names and ports correspond: the emulator with name n listens on a port from whose device
  id the name n is read back.
\<close>

theorem avd_name_port_roundtrip:
  assumes "0 \<le> n"
  shows "\<exists>port. get_port_by_emulator_avd_name (int_str n) = Inr port
    \<and> get_emulator_avd_name (''emulator-'' @ int_str port) = Inr (int_str n)"
  by (rule avd_name_port_roundtrip_aux [OF assms])

theorem avd_name_port_roundtrip_witness:
  "\<exists>port. get_port_by_emulator_avd_name (int_str 3) = Inr port
    \<and> get_emulator_avd_name (''emulator-'' @ int_str port) = Inr (int_str 3)"
  by (rule avd_name_port_roundtrip) simp

lemma ex_from_step: "m < N \<Longrightarrow> (\<exists>k. m \<le> k \<and> k < N \<and> P k) \<longleftrightarrow> P m \<or> (\<exists>k. m + 1 \<le> k \<and> k < N \<and> P k)"
  for m N :: nat
proof -
  assume "m < N"
  moreover have "m \<le> k \<longleftrightarrow> k = m \<or> m + 1 \<le> k" for k by auto
  ultimately show ?thesis by auto
qed

text \<open>
  waiting for an emulator ends after at most 101 queries, and reports success exactly when one of the
  queries so far listed the device.
\<close>

theorem await_emulator_bounded:
  "case await_emulator poll dev 0 of (found, queries) \<Rightarrow>
     queries \<le> 101 \<and> found = (\<exists>k < 101. dev \<in> set (poll k)) \<and> (found \<or> queries = 101)"
proof -
  have "fst (await_emulator poll dev m) = (\<exists>k. m \<le> k \<and> k < 101 \<and> dev \<in> set (poll k))
      \<and> snd (await_emulator poll dev m) \<le> 101
      \<and> (fst (await_emulator poll dev m) \<or> snd (await_emulator poll dev m) = 101)" if "m \<le> 101" for m
    using that
  proof (induction poll dev m rule: await_emulator.induct)
    case (1 poll dev m)
    show ?case
    proof (cases "m \<le> 100")
      case True
      then have "m < 101" by simp
      note step = ex_from_step [OF this, of "\<lambda>k. dev \<in> set (poll k)"]
      show ?thesis
      proof (cases "dev \<in> set (poll m)")
        case True
        then have "await_emulator poll dev m = (True, m + 1)"
          using \<open>m \<le> 100\<close> by (simp add: await_emulator.simps [of poll dev m])
        then show ?thesis using step True \<open>m \<le> 100\<close> by simp
      next
        case False
        have eq: "await_emulator poll dev m = await_emulator poll dev (m + 1)"
          using True False by (simp add: await_emulator.simps [of poll dev m])
        have "m + 1 \<le> 101" using True by simp
        then show ?thesis unfolding eq using step 1(1) [OF True False] False by metis
      qed
    next
      case False
      then have "m = 101" using 1(2) by simp
      then show ?thesis by (simp add: await_emulator.simps [of poll dev 101])
    qed
  qed
  from this [of 0] show ?thesis unfolding case_prod_beta by (simp only: le0 simp_thms) blast
qed

definition array_split_ok :: "(app list \<Rightarrow> nat \<Rightarrow> app list list) \<Rightarrow> bool" where
  "array_split_ok array_split \<longleftrightarrow>
     (\<forall>xs n. 0 < n \<longrightarrow> concat (array_split xs n) = xs \<and> length (array_split xs n) = n)"

text \<open>
  with numpy splitting a list into the given number of consecutive parts, every connected device gets
  exactly one job, in order, and the jobs together are the app list.
\<close>

theorem device_jobs_partition:
  assumes "array_split_ok array_split" and "device_ids \<noteq> []"
  shows "\<exists>jobs. device_jobs array_split restart device_ids apps = Inr jobs
    \<and> map dj_device jobs = device_ids \<and> concat (map dj_apps jobs) = apps"
proof -
  let ?parts = "array_split apps (length device_ids)"
  have p: "concat ?parts = apps" "length ?parts = length device_ids"
    using assms by (auto simp: array_split_ok_def)
  let ?job = "\<lambda>(i, w). \<lparr>dj_apps = w, dj_device = device_ids ! i, dj_auto_restart = restart\<rparr>"
  have "device_jobs array_split restart device_ids apps = Inr (map ?job (enumerate 0 ?parts))"
    using assms(2) p(2) unfolding device_jobs_def
    by (simp, intro rmap_all_Inr) (auto simp: in_set_enumerate_eq)
  moreover have "map dj_device (map ?job (enumerate 0 ?parts)) = device_ids"
    using p(2) by (intro nth_equalityI) (simp_all add: nth_enumerate_eq)
  moreover have "map dj_apps (map ?job (enumerate 0 ?parts)) = ?parts"
    by (intro nth_equalityI) (simp_all add: nth_enumerate_eq)
  ultimately show ?thesis using p(1) by auto
qed

text \<open>A split that satisfies the hypothesis: all elements in the first part.\<close>

definition first_part :: "app list \<Rightarrow> nat \<Rightarrow> app list list" where
  "first_part xs n = xs # replicate (n - 1) []"

theorem device_jobs_partition_witness:
  "\<exists>jobs. device_jobs first_part True [''emulator-5554'', ''emulator-5556'']
      [\<lparr>package_name = ''p'', activity_name = ''a'', test_url = ''u''\<rparr>] = Inr jobs
    \<and> map dj_device jobs = [''emulator-5554'', ''emulator-5556'']
    \<and> concat (map dj_apps jobs) = [\<lparr>package_name = ''p'', activity_name = ''a'', test_url = ''u''\<rparr>]"
  by (rule device_jobs_partition) (simp_all add: array_split_ok_def first_part_def)

fun visits :: "event list \<Rightarrow> nat" where
  "visits [] = 0"
| "visits (Visit d p a url # es) = Suc (visits es)"
| "visits (e # es) = visits es"

fun restarts :: "event list \<Rightarrow> nat" where
  "restarts [] = 0"
| "restarts (StartEmulator avd # es) = Suc (restarts es)"
| "restarts (e # es) = restarts es"

lemma run_visits_counts:
  "(ar \<longrightarrow> k < 100) \<Longrightarrow> visits (run_visits d avd ar k xs) = length xs
     \<and> restarts (run_visits d avd ar k xs) = (if ar then (length xs + k) div 100 else 0)"
proof (induction xs arbitrary: k)
  case (Cons x xs)
  obtain a r where x: "x = (a, r)" by (cases x)
  show ?case
  proof (cases "ar \<and> k = 99")
    case True
    then show ?thesis using Cons.IH [of 0] by (auto simp: x visit_app_def)
  next
    case False
    then show ?thesis using Cons.IH [of "k + 1"] Cons.prems by (auto simp: x visit_app_def)
  qed
qed simp

text \<open>
  a device visits each of its apps exactly once, restarts the emulator once per hundred visits where
  that is wanted and else never, and stops the emulator at the end.
\<close>

theorem run_test_visits:
  assumes "run_test run_ids job = Inr es"
  shows "visits es = length (dj_apps job)
    \<and> restarts es = (if dj_auto_restart job then length (dj_apps job) div 100 else 0)
    \<and> (\<exists>avd. last es = StopEmulator avd)"
proof -
  have app: "visits (xs @ [StopEmulator a]) = visits xs" "restarts (xs @ [StopEmulator a]) = restarts xs" for xs a
    by (induction xs rule: visits.induct) auto
  from assms obtain avd where "es = run_visits (dj_device job) avd (dj_auto_restart job) 0
      (map (\<lambda>(i, a). (a, run_ids i)) (enumerate 0 (dj_apps job))) @ [StopEmulator avd]"
    by (auto simp: run_test_def rbind_eq_Inr)
  then show ?thesis by (simp add: app run_visits_counts)
qed

theorem run_test_visits_witness:
  "let a = \<lparr>package_name = ''p'', activity_name = ''i'', test_url = ''u''\<rparr>;
       es = [Visit ''emulator-5554'' ''p'' ''i'' (''u'' @ [char_of (92 :: nat)] @ ''&run_id=x''), StopEmulator ''1'']
   in run_test (\<lambda>_. ''x'') \<lparr>dj_apps = [a], dj_device = ''emulator-5554'', dj_auto_restart = True\<rparr> = Inr es
      \<and> visits es = 1"
proof -
  let ?a = "\<lparr>package_name = ''p'', activity_name = ''i'', test_url = ''u''\<rparr>"
  let ?es = "[Visit ''emulator-5554'' ''p'' ''i'' (''u'' @ [char_of (92 :: nat)] @ ''&run_id=x''), StopEmulator ''1'']"
  let ?job = "\<lparr>dj_apps = [?a], dj_device = ''emulator-5554'', dj_auto_restart = True\<rparr>"
  have "get_port_by_emulator_avd_name (int_str 1) = Inr 5554"
    by (simp add: get_port_by_emulator_avd_name_def)
  then have "get_emulator_avd_name (''emulator-'' @ int_str 5554) = Inr (int_str 1)"
    using avd_name_port_roundtrip_aux [of 1] by simp
  moreover have "int_str 5554 = ''5554''" "int_str 1 = ''1''"
    by (simp_all add: int_str_def nat_str.simps)
  ultimately have r: "run_test (\<lambda>_. ''x'') ?job = Inr ?es"
    by (simp add: run_test_def visit_app_def starts_with_def)
  from run_test_visits [OF r] r show ?thesis by (simp add: Let_def)
qed

section \<open>The URLs of several browsers\<close>

definition app_urls :: "app list \<Rightarrow> (string \<times> string) list" where
  "app_urls apps = map (\<lambda>a. (package_name a, test_url a)) apps"

lemma rfold_add_browser:
  assumes "\<And>b. b \<in> set bs \<Longrightarrow> browser_urls plan url_dict b = Inr (urls b)"
  shows "\<exists>apps. rfold (add_browser plan url_dict n) bs (us, as) = Inr (us @ concat (map urls bs), as @ apps)
    \<and> app_urls apps = concat (map (\<lambda>k. concat (replicate (nat n)
        (map (Pair (ab_package (bs ! k))) (us @ concat (map urls (take (Suc k) bs)))))) [0..<length bs])"
  using assms
proof (induction bs arbitrary: us as)
  case (Cons b bs)
  define new where "new = concat (replicate (nat n)
      (map (\<lambda>url. \<lparr>package_name = ab_package b, activity_name = ab_intent b, test_url = url\<rparr>) (us @ urls b)))"
  define us' where "us' = us @ urls b"
  obtain apps where apps: "rfold (add_browser plan url_dict n) bs (us', as @ new)
      = Inr (us' @ concat (map urls bs), (as @ new) @ apps)"
    and u: "app_urls apps = concat (map (\<lambda>k. concat (replicate (nat n)
        (map (Pair (ab_package (bs ! k))) (us' @ concat (map urls (take (Suc k) bs)))))) [0..<length bs])"
    using Cons.IH [of us' "as @ new"] Cons.prems by auto
  have new: "app_urls new = concat (replicate (nat n) (map (Pair (ab_package b)) (us @ urls b)))"
    unfolding new_def app_urls_def map_concat map_replicate by (simp add: comp_def)
  have r: "rfold (add_browser plan url_dict n) (b # bs) (us, as) = rfold (add_browser plan url_dict n) bs (us', as @ new)"
    using Cons.prems by (simp add: add_browser_def Let_def new_def us'_def)
  have "[0..<length (b # bs)] = 0 # map Suc [0..<length bs]"
    by (simp add: upt_conv_Cons map_Suc_upt del: upt_Suc)
  then have "concat (map (\<lambda>k. concat (replicate (nat n)
        (map (Pair (ab_package ((b # bs) ! k))) (us @ concat (map urls (take (Suc k) (b # bs))))))) [0..<length (b # bs)])
      = app_urls (new @ apps)"
    unfolding app_urls_def map_append new [unfolded app_urls_def] u [unfolded app_urls_def]
    by (simp add: comp_def us'_def)
  then show ?case
    unfolding r apps by (intro exI [of _ "new @ apps"]) (simp add: us'_def)
qed (simp add: app_urls_def)

text \<open>
  the URL list is not emptied between browsers: each browser visits, as often as asked, the URLs of
  all browsers before it and then its own, so a later browser loads URLs with the ids of earlier ones.
\<close>

theorem android_apps_accumulate:
  assumes "\<And>b. b \<in> set bs \<Longrightarrow> browser_urls plan url_dict b = Inr (urls b)"
  shows "\<exists>apps. android_apps plan url_dict n bs = Inr apps
    \<and> app_urls apps = concat (map (\<lambda>k. concat (replicate (nat n)
        (map (Pair (ab_package (bs ! k))) (concat (map urls (take (Suc k) bs)))))) [0..<length bs])"
  using rfold_add_browser [of bs plan url_dict urls n "[]" "[]"] assms by (auto simp: android_apps_def)

theorem android_apps_accumulate_witness:
  "\<exists>apps. android_apps (\<lambda>i scheme. Inr [scheme @ int_str i]) [(int_str 1, [''u1'']), (int_str 2, [''u2''])] 1
      [\<lparr>ab_package = ''chrome'', ab_intent = ''m'', ab_id = 1\<rparr>, \<lparr>ab_package = ''brave'', ab_intent = ''m'', ab_id = 2\<rparr>]
      = Inr apps
    \<and> app_urls apps = [(''chrome'', ''u1''), (''brave'', ''u1''), (''brave'', ''u2'')]"
proof -
  have ne: "int_str 1 \<noteq> int_str 2" using py_int_int_str by (metis one_eq_numeral_iff option.inject semiring_norm(85))
  let ?urls = "\<lambda>b. if ab_id b = 1 then [''u1''] else [''u2'']"
  let ?bs = "[\<lparr>ab_package = ''chrome'', ab_intent = ''m'', ab_id = 1\<rparr>, \<lparr>ab_package = ''brave'', ab_intent = ''m'', ab_id = 2\<rparr>]"
  have "browser_urls (\<lambda>i scheme. Inr [scheme @ int_str i]) [(int_str 1, [''u1'']), (int_str 2, [''u2''])] b
      = Inr (?urls b)" if "b \<in> set ?bs" for b
    using that ne by (auto simp: browser_urls_def)
  from android_apps_accumulate [OF this, of ?bs 1] show ?thesis by (simp add: upt_rec)
qed

end
