(* ===== verification/Spec2Isabelle.thy ===== *)
theory Spec2Isabelle
  imports Study_Server Http2_Server Repeats Timeouts Config_Facts Wrapper_Facts Template_Facts Stash Scheduling Browser_Run Android
begin

text \<open>
  This library models the testbed of the security header parsing study: the generator of the responses
  under test, the server that delivers them (the study's endpoints on top of wptserve), and the runners
  that make browsers load the test pages.

  \<^bold>\<open>The program.\<close> \<open>_hp/hp/tools/create_responses.py\<close> and
  \<open>_hp/hp/tools/response_header_generation.py\<close> fill a database with rows of label, type, status and
  header list. A runner (\<open>_hp/hp/tools/crawler\<close>) asks the server for the ids of a label, splits them
  into test URLs, groups these by browser and lets Selenium or an Android device visit them. The page of
  a test URL requests each response from \<open>_hp/server/responses.py\<close>, which wptserve turns into header
  lines, and posts the outcome to \<open>_hp/server/store_results.py\<close>.

  \<^bold>\<open>Theories and sources.\<close>
  \<^item> \<open>Py_Prelude\<close>, \<open>Py_Dict\<close>: exceptions and results, operations of Python's \<open>str\<close>, \<open>bytes\<close>, \<open>int\<close>;
    dictionaries as association lists in insertion order, with the locales \<open>dict_store\<close>,
    \<open>multi_store\<close> and \<open>keyed_store\<close> the containers are instances of.
  \<^item> \<open>Ranges\<close>: \<open>ranges.py\<close>. \<open>Http_Headers\<close>: \<open>ResponseHeaders\<close> of \<open>response.py\<close>, \<open>RequestHeaders\<close> and
    \<open>MultiDict\<close> of \<open>request.py\<close>. \<open>Wpt_Utils\<close>: \<open>utils.py\<close> and \<open>constants.py\<close>.
  \<^item> \<open>Py_Effects\<close>: actions with a state and an exception, for stateful code, with the locale
    \<open>state_order\<close> of what every step of an action keeps.
  \<^item> \<open>Response_Writer\<close>, \<open>Response_Parts\<close>: \<open>Response\<close>, \<open>ResponseWriter\<close> and \<open>MultipartContent\<close> of \<open>response.py\<close>.
    \<open>Input_File\<close>, \<open>Request\<close>: \<open>InputFile\<close>, \<open>Request\<close> and \<open>Authentication\<close> of \<open>request.py\<close>. \<open>Pipes\<close>: \<open>pipes.py\<close>.
    \<open>Router\<close>: \<open>router.py\<close>. \<open>Stash\<close>: \<open>stash.py\<close>, as sequential operations and as interleaved accesses.
  \<^item> \<open>Db_Rows\<close>: the tables of \<open>models.py\<close> and \<open>get_or_create\<close>. \<open>Header_Mutations\<close>, \<open>Header_Tests\<close>,
    \<open>Header_Data\<close>: \<open>response_header_generation.py\<close>, with one definition per header the script
    tests. \<open>Basic_Responses\<close>: \<open>create_responses.py\<close>, one definition per region.
  \<^item> \<open>Crawler\<close>: the planning of \<open>crawler/utils.py\<close>. \<open>Scheduling\<close>, \<open>Browser_Run\<close>:
    \<open>desktop_selenium.py\<close>. \<open>Android\<close>: \<open>android_intent.py\<close>.
  \<^item> \<open>Test_Endpoints\<close>: \<open>responses.py\<close>, \<open>get_resp_ids.py\<close>, \<open>store_results.py\<close>,
    \<open>notify_runner_clients.py\<close> of \<open>_hp/server\<close>.
  \<^item> This theory composes generators, server and planner.

  \<^bold>\<open>Conventions.\<close> Every exception is a constructor of \<open>exc\<close> and every operation that may raise returns
  \<open>exc + 'a\<close>; state is passed explicitly. Python \<open>int\<close> is \<open>int\<close>, \<open>bytes\<close> and ASCII texts are
  \<open>string\<close>, texts with other code points are lists of numbers (\<open>ustr\<close>, built by \<open>cp\<close>).

  \<^bold>\<open>Parameters.\<close> What is outside the sources is an argument: the database engine's handling of text ids
  and constraints beyond uniqueness, the iteration order of Python sets and the coin of the random
  mutations (\<open>gen_env\<close>, with \<open>set_order\<close> as the law), the cached values of crawler.ninja, Selenium,
  \<open>adb\<close> and the page as oracles, the files and hosts of the server, the socket's failures, the clock,
  compression, \<open>cgi.FieldStorage\<close>.

  \<^bold>\<open>What the lemmas show.\<close> The containers keep all values of a name in order; the range parser returns the
  requested bytes or one of its documented errors; the generator scripts complete, store every order and
  value they promise, and change nothing when run again; the planner covers every stored response with
  valid ids and splits the rest into disjoint work; the runners visit every page whatever fails; the
  endpoints deliver exactly the stored row and store results all or nothing. For wptserve: what a response
  sets is what arrives on the wire, a broken connection leaves a prefix of it, the body of a request can be
  read in any way without loss, the first admitting route answers, a value of the stash is taken once, and
  trickling loses nothing. Loops that may not end are \<open>partial_function\<close>s, with their end proved where the
  code guarantees it.

  \<^bold>\<open>Not modelled.\<close> Sockets, threads and processes, HTTP/2 framing, the browser and the test pages'
  JavaScript, the analysis notebooks, and the upstream tools of web-platform-tests the study does not use.
\<close>

section \<open>From the generators to the test URLs\<close>

text \<open>The ids the runner gets from the server for a database.\<close>

definition fetch_from :: "response_row table \<Rightarrow> fetch" where
  "fetch_from db lab rt = (case server_resp_ids db (lab, resp_type_str rt) of Inr ids \<Rightarrow> ids | Inl _ \<Rightarrow> [])"

definition row_tested :: "response_row \<Rightarrow> bool" where
  "row_tested r \<longleftrightarrow> label r \<in> cp ` tested_labels (resp_type r) ''http''"

lemma row_tested_responses:
  "l \<in> tested_labels rt ''http'' \<Longrightarrow> list_all row_tested (responses hl (cp l) code rt)"
  by (auto simp: list_all_iff responses_def row_tested_def)

lemma basic_rows_tested: "list_all row_tested (basic_rows h)"
  unfolding basic_rows_def basic_regions Let_def list_all_append
  by (intro conjI row_tested_responses) (simp_all add: tested_labels_def)

lemma parsing_rows_tested:
  assumes "r \<in> tests_rows env h (all_header_tests h crawler)"
  shows "row_tested r"
proof -
  obtain t x where t: "t \<in> set (all_header_tests h crawler)" "r = test_row t x"
    using assms by (auto simp: tests_rows_def)
  then have "ht_label t \<in> set (map ht_label (all_header_tests h crawler))" by simp
  then have "ht_label t \<in> cp ` tested_labels Parsing ''http''"
    unfolding all_labels by (auto simp: tested_labels_def)
  then show ?thesis by (simp add: t(2) test_row_def row_tested_def split: prod.splits)
qed

lemma fetch_from_ids:
  "set (fetch_from db lab rt) = {i. \<exists>r. (i, r) \<in> set (rows db) \<and> label r = cp lab \<and> resp_type r = rt}"
  by (cases rt) (force simp: fetch_from_def server_resp_ids_def parse_resp_type_def)+

lemma generated_db:
  assumes "set_order env"
  obtains mt db where "cspvsxfo_tests h crawler = Inr mt" "generate_all env h crawler (create_basic h empty_table) = Inr db"
    "table_rows db = set (basic_rows h) \<union> tests_rows env h (all_header_tests h crawler) \<union> set (mt_rows env mt)"
proof -
  obtain mt where mt: "cspvsxfo_tests h crawler = Inr mt" "mt_valued mt" "mt_responses mt = []"
    by (rule cspvsxfo_init)
  let ?start = "create_basic h empty_table" and ?ts = "all_header_tests h crawler"
  let ?final = "fold store_response (mt_rows env mt) (gen_tests env h ?ts ?start)"
  have "table_rows (empty_table :: response_row table) = {}" by (simp add: table_rows_def empty_table_def)
  then have i0: "table_inv uq_response ?start" and r0: "table_rows ?start = set (basic_rows h)"
    using resp_db.inv_add_all [OF table_inv_empty] resp_db.contents_add_all [OF table_inv_empty]
    by (simp_all add: create_basic_def)
  have "generate_all env h crawler ?start = Inr ?final" by (rule generate_all_eq [OF assms mt])
  moreover have "table_rows ?final = set (basic_rows h) \<union> tests_rows env h ?ts \<union> set (mt_rows env mt)"
    using gen_tests_rows [OF i0 all_tests_ok [of h crawler], of env h] r0 by (simp add: resp_db.contents_add_all)
  ultimately show ?thesis using that mt(1) by blast
qed

lemma pair_rows_tested:
  assumes "cspvsxfo_tests h crawler = Inr mt" "q \<in> set (mt_rows env mt)"
  shows "row_tested q"
proof -
  have "mt_label mt = cp ''CSPvsXFO''"
    using assms(1) by (auto simp: cspvsxfo_tests_def Let_def mult_tests_init_def split: if_splits)
  moreover obtain x where "q = mt_row mt x" using assms(2) by (auto simp: mt_rows_def Let_def)
  ultimately show ?thesis by (simp add: mt_row_def row_tested_def tested_labels_def)
qed

text \<open>
  C1: the tests cover the whole study: after both generator scripts ran on an empty database, in whatever
  order sets are iterated and whatever values were crawled, every stored response is in the id range of
  one of the test URLs planned for its type over HTTP from the ids the server lists.
\<close>

theorem every_generated_response_is_tested:
  assumes "set_order env" and "generate_all env h crawler (create_basic h empty_table) = Inr db"
    and "(i, r) \<in> set (rows db)" and "0 < max_popups" and "1 \<le> max_resps"
  shows "\<exists>urls lab. get_tests (fetch_from db) (resp_type r) browser_id ''http'' max_popups max_resps modifier = Inr urls
    \<and> label r = cp lab \<and> (lab, i) \<in> covered urls"
proof -
  obtain mt where mt: "cspvsxfo_tests h crawler = Inr mt" and
      "table_rows db = set (basic_rows h) \<union> tests_rows env h (all_header_tests h crawler) \<union> set (mt_rows env mt)"
    using generated_db [OF assms(1), of h crawler] assms(2) by (metis sum.inject(2))
  moreover have "r \<in> table_rows db" using assms(3) unfolding table_rows_def by (metis image_eqI snd_conv)
  ultimately have "r \<in> set (basic_rows h) \<or> r \<in> tests_rows env h (all_header_tests h crawler) \<or> r \<in> set (mt_rows env mt)"
    by blast
  then have "row_tested r"
    using basic_rows_tested parsing_rows_tested pair_rows_tested [OF mt] by (metis list_all_iff)
  then obtain lab where lab: "label r = cp lab" "lab \<in> tested_labels (resp_type r) ''http''"
    by (auto simp: row_tested_def)
  then have "i \<in> set (fetch_from db lab (resp_type r))" using assms(3) by (auto simp: fetch_from_ids)
  then show ?thesis
    using lab get_tests_ok [OF assms(4,5), of "fetch_from db" "resp_type r" browser_id "''http''" modifier] by blast
qed

theorem every_generated_response_is_tested_witness:
  "\<exists>db i r urls lab.
     generate_all demo_env \<lparr>base_host = cp ''a.test'', alt_host = cp ''b.test''\<rparr> (\<lambda>_ _. [])
       (create_basic \<lparr>base_host = cp ''a.test'', alt_host = cp ''b.test''\<rparr> empty_table) = Inr db
     \<and> (i, r) \<in> set (rows db)
     \<and> get_tests (fetch_from db) (resp_type r) 1 ''http'' 100 10 1 = Inr urls \<and> (lab, i) \<in> covered urls"
proof -
  let ?h = "\<lparr>base_host = cp ''a.test'', alt_host = cp ''b.test''\<rparr>"
  obtain mt db where db: "generate_all demo_env ?h (\<lambda>_ _. []) (create_basic ?h empty_table) = Inr db"
    "table_rows db = set (basic_rows ?h) \<union> tests_rows demo_env ?h (all_header_tests ?h (\<lambda>_ _. [])) \<union> set (mt_rows demo_env mt)"
    by (rule generated_db [of demo_env ?h "\<lambda>_ _. []"]) simp
  have "basic_rows ?h \<noteq> []" by (simp add: basic_rows_def basic_xfo_def Let_def responses_def)
  then obtain r where "r \<in> set (basic_rows ?h)" by (meson hd_in_set)
  then have "r \<in> table_rows db" using db(2) by blast
  then obtain i where r: "(i, r) \<in> set (rows db)" by (auto simp: table_rows_def)
  have "\<exists>urls lab. get_tests (fetch_from db) (resp_type r) 1 ''http'' 100 10 1 = Inr urls
      \<and> label r = cp lab \<and> (lab, i) \<in> covered urls"
    by (rule every_generated_response_is_tested [OF set_order_demo(1) db(1) r]) simp_all
  then obtain urls lab where "get_tests (fetch_from db) (resp_type r) 1 ''http'' 100 10 1 = Inr urls" "(lab, i) \<in> covered urls"
    by (elim exE conjE) (rule that)
  then show ?thesis using db(1) r by (intro exI conjI)
qed

end
